theory Spec2Isabelle
  imports Complex_Main
begin

section \<open>Errors as values\<close>

text \<open>
  Every exception the modelled Python can raise is a value of \<open>error\<close>; a function that
  can raise returns \<open>error + 'a\<close> with \<open>Inl\<close> for the exception.  Shape errors of the
  tensor library are \<open>RuntimeError\<close>, out-of-range indices \<open>IndexError\<close>.
\<close>

datatype error =
  RuntimeError | IndexError | AssertionError | AttributeError | ZeroDivisionError | TypeError

definition bindE :: "error + 'a \<Rightarrow> ('a \<Rightarrow> error + 'b) \<Rightarrow> error + 'b" where
  "bindE m f = (case m of Inl e \<Rightarrow> Inl e | Inr x \<Rightarrow> f x)"

fun mapE :: "('a \<Rightarrow> error + 'b) \<Rightarrow> 'a list \<Rightarrow> error + 'b list" where
  "mapE f [] = Inr []"
| "mapE f (x # xs) = bindE (f x) (\<lambda>y. bindE (mapE f xs) (\<lambda>ys. Inr (y # ys)))"

section \<open>Tensors\<close>

text \<open>
  A tensor of the numeric library is its shape and its elements in row-major order.
  Floating-point elements are idealised as \<open>real\<close>; index tensors hold \<open>int\<close>.
  Device placement (\<open>.to(device)\<close>) and strides are not modelled: every tensor is
  contiguous and \<open>.to\<close> is the identity.
\<close>

datatype 'a tensor = Tensor (shape: "nat list") (data: "'a list")

definition numel :: "nat list \<Rightarrow> nat" where
  "numel s = prod_list s"

definition has_shape :: "'a tensor \<Rightarrow> nat list \<Rightarrow> bool" where
  "has_shape t s = (shape t = s \<and> length (data t) = numel s)"

text \<open>The \<open>i\<close>-th block of width \<open>w\<close> of a flat list.\<close>

definition chunk :: "nat \<Rightarrow> nat \<Rightarrow> 'a list \<Rightarrow> 'a list" where
  "chunk w i xs = take w (drop (i * w) xs)"

text \<open>\<open>t.shape[0]\<close> and \<open>t.shape[-1]\<close>: a 0-dimensional tensor has neither.\<close>

definition shape_first :: "'a tensor \<Rightarrow> error + nat" where
  "shape_first t = (case shape t of [] \<Rightarrow> Inl IndexError | n # _ \<Rightarrow> Inr n)"

definition shape_last :: "'a tensor \<Rightarrow> error + nat" where
  "shape_last t = (if shape t = [] then Inl IndexError else Inr (last (shape t)))"

definition shape_at :: "'a tensor \<Rightarrow> nat \<Rightarrow> error + nat" where
  "shape_at t i = (if i < length (shape t) then Inr (shape t ! i) else Inl IndexError)"

text \<open>
  \<open>t.view(spec)\<close>: at most one entry of \<open>spec\<close> is \<open>-1\<close> and is inferred from the number
  of elements; the library refuses a negative size, a second \<open>-1\<close>, an element count that
  does not match, and a \<open>-1\<close> beside a zero size.
\<close>

definition infer_size :: "int list \<Rightarrow> nat \<Rightarrow> error + nat list" where
  "infer_size spec n =
     (if (\<exists>d \<in> set spec. d < - 1) \<or> 1 < count_list spec (- 1) then Inl RuntimeError
      else let known = nat (prod_list (filter (\<lambda>d. d \<noteq> - 1) spec)) in
        if - 1 \<in> set spec then
          (if 0 < known \<and> n mod known = 0
           then Inr (map (\<lambda>d. if d = - 1 then n div known else nat d) spec)
           else Inl RuntimeError)
        else if known = n then Inr (map nat spec) else Inl RuntimeError)"

definition view :: "'a tensor \<Rightarrow> int list \<Rightarrow> error + 'a tensor" where
  "view t spec = bindE (infer_size spec (numel (shape t))) (\<lambda>s. Inr (Tensor s (data t)))"

definition unsqueeze :: "'a tensor \<Rightarrow> nat \<Rightarrow> error + 'a tensor" where
  "unsqueeze t d =
     (if d \<le> length (shape t)
      then Inr (Tensor (take d (shape t) @ 1 # drop d (shape t)) (data t))
      else Inl IndexError)"

text \<open>\<open>t.squeeze()\<close> drops every dimension of size 1; \<open>t.squeeze(0)\<close> only a leading one.\<close>

definition squeeze_all :: "'a tensor \<Rightarrow> 'a tensor" where
  "squeeze_all t = Tensor (filter (\<lambda>d. d \<noteq> 1) (shape t)) (data t)"

definition squeeze0 :: "'a tensor \<Rightarrow> 'a tensor" where
  "squeeze0 t = (case shape t of n # rest \<Rightarrow> if n = 1 then Tensor rest (data t) else t | [] \<Rightarrow> t)"

text \<open>
  Broadcasting: shapes are aligned at their last dimension; two sizes are compatible when
  they are equal or one of them is 1.
\<close>

fun broadcast_rev :: "nat list \<Rightarrow> nat list \<Rightarrow> error + nat list" where
  "broadcast_rev [] ys = Inr ys"
| "broadcast_rev (x # xs) [] = Inr (x # xs)"
| "broadcast_rev (x # xs) (y # ys) =
     (if x = y \<or> x = 1 \<or> y = 1
      then bindE (broadcast_rev xs ys) (\<lambda>zs. Inr ((if x = 1 then y else x) # zs))
      else Inl RuntimeError)"

definition broadcast_shapes :: "nat list \<Rightarrow> nat list \<Rightarrow> error + nat list" where
  "broadcast_shapes a b = bindE (broadcast_rev (rev a) (rev b)) (\<lambda>zs. Inr (rev zs))"

text \<open>
  The elements of a tensor of shape \<open>src\<close> expanded to the shape \<open>tgt\<close> of the same rank:
  a dimension of size 1 is repeated, any other is traversed.
\<close>

fun expand_data :: "nat list \<Rightarrow> nat list \<Rightarrow> 'a list \<Rightarrow> 'a list" where
  "expand_data (m # ms) (n # ns) xs =
     (if m = n then concat (map (\<lambda>i. expand_data ms ns (chunk (numel ms) i xs)) [0..<m])
      else concat (replicate n (expand_data ms ns xs)))"
| "expand_data _ _ xs = xs"

definition expand_to :: "nat list \<Rightarrow> 'a tensor \<Rightarrow> 'a list" where
  "expand_to s t =
     expand_data (replicate (length s - length (shape t)) 1 @ shape t) s (data t)"

definition tensor_binop :: "('a \<Rightarrow> 'a \<Rightarrow> 'a) \<Rightarrow> 'a tensor \<Rightarrow> 'a tensor \<Rightarrow> error + 'a tensor" where
  "tensor_binop f a b =
     bindE (broadcast_shapes (shape a) (shape b))
       (\<lambda>s. Inr (Tensor s (map2 f (expand_to s a) (expand_to s b))))"

definition tensor_mul :: "real tensor \<Rightarrow> real tensor \<Rightarrow> error + real tensor" where
  "tensor_mul = tensor_binop (*)"

definition tensor_add :: "real tensor \<Rightarrow> real tensor \<Rightarrow> error + real tensor" where
  "tensor_add = tensor_binop (+)"

text \<open>A Python float used as an operand is a 0-dimensional tensor.\<close>

definition scalar :: "real \<Rightarrow> real tensor" where
  "scalar c = Tensor [] [c]"

text \<open>\<open>a.mm(b)\<close>: both 2-dimensional with matching inner sizes.\<close>

definition mm :: "real tensor \<Rightarrow> real tensor \<Rightarrow> error + real tensor" where
  "mm a b =
     (case (shape a, shape b) of
        ([n, m], [m', p]) \<Rightarrow>
          if m = m'
          then Inr (Tensor [n, p]
                 (concat (map (\<lambda>i. map (\<lambda>j. \<Sum>k \<leftarrow> [0..<m]. data a ! (i * m + k) * data b ! (k * p + j))
                                   [0..<p]) [0..<n])))
          else Inl RuntimeError
      | _ \<Rightarrow> Inl RuntimeError)"

text \<open>\<open>a.t()\<close>: transposes a matrix, returns a tensor of lower rank as it is.\<close>

definition transpose_t :: "'a tensor \<Rightarrow> error + 'a tensor" where
  "transpose_t a =
     (case shape a of
        [n, m] \<Rightarrow> Inr (Tensor [m, n] (concat (map (\<lambda>j. map (\<lambda>i. data a ! (i * m + j)) [0..<n]) [0..<m])))
      | [] \<Rightarrow> Inr a
      | [n] \<Rightarrow> Inr a
      | _ \<Rightarrow> Inl RuntimeError)"

text \<open>
  \<open>torch.cat(ts, dim=d)\<close>: the list is not empty, tensors of shape \<open>(0,)\<close> are skipped,
  the others agree on every size but the one at \<open>d\<close>.
\<close>

definition cat :: "'a tensor list \<Rightarrow> nat \<Rightarrow> error + 'a tensor" where
  "cat ts d =
     (let ts' = filter (\<lambda>t. shape t \<noteq> [0]) ts in
      if ts = [] then Inl RuntimeError
      else if ts' = [] then Inr (Tensor [0] [])
      else let s = shape (hd ts') in
        if \<not> d < length s then Inl IndexError
        else if list_all (\<lambda>t. length (shape t) = length s \<and> take d (shape t) = take d s
                               \<and> drop (Suc d) (shape t) = drop (Suc d) s) ts'
        then Inr (Tensor (take d s @ sum_list (map (\<lambda>t. shape t ! d) ts') # drop (Suc d) s)
               (concat (map (\<lambda>r. concat (map (\<lambda>t. chunk (numel (drop d (shape t))) r (data t)) ts'))
                          [0..<numel (take d s)])))
        else Inl RuntimeError)"

text \<open>
  A reduction \<open>t.sum(d)\<close> or \<open>t.mean(d)\<close> along dimension \<open>d\<close>.  The mean over an empty
  dimension is NaN in the library, which \<open>real\<close> cannot express: there the model's entry
  is \<open>0 / 0\<close>, and no theorem below reads it.
\<close>

definition reduce_dim :: "(real list \<Rightarrow> real) \<Rightarrow> real tensor \<Rightarrow> nat \<Rightarrow> error + real tensor" where
  "reduce_dim f t d =
     (let s = shape t in
      if d < length s then
        let n = s ! d; inner = numel (drop (Suc d) s) in
        Inr (Tensor (take d s @ drop (Suc d) s)
          (concat (map (\<lambda>r. map (\<lambda>i. f (map (\<lambda>j. data t ! ((r * n + j) * inner + i)) [0..<n]))
                            [0..<inner]) [0..<numel (take d s)])))
      else Inl IndexError)"

definition tensor_sum :: "real tensor \<Rightarrow> nat \<Rightarrow> error + real tensor" where
  "tensor_sum = reduce_dim sum_list"

definition tensor_mean :: "real tensor \<Rightarrow> nat \<Rightarrow> error + real tensor" where
  "tensor_mean = reduce_dim (\<lambda>xs. sum_list xs / real (length xs))"

text \<open>\<open>torch.nn.Softmax(dim=1)\<close>.\<close>

definition softmax1 :: "real tensor \<Rightarrow> error + real tensor" where
  "softmax1 t =
     (case shape t of
        m # n # rest \<Rightarrow>
          let inner = numel rest in
          Inr (Tensor (shape t)
            (concat (map (\<lambda>r. concat (map (\<lambda>j. map (\<lambda>i.
                 exp (data t ! ((r * n + j) * inner + i))
                   / (\<Sum>j' \<leftarrow> [0..<n]. exp (data t ! ((r * n + j') * inner + i))))
               [0..<inner]) [0..<n])) [0..<m])))
      | _ \<Rightarrow> Inl IndexError)"


text \<open>Python slice bounds over a dimension of size \<open>n\<close>: negative bounds count from the end,
  all bounds are clipped.\<close>

definition slice_index :: "nat \<Rightarrow> int \<Rightarrow> nat" where
  "slice_index n i = (if i < 0 then nat (max 0 (int n + i)) else min n (nat i))"

text \<open>\<open>t[a:b]\<close> along the first dimension and \<open>t[:, a:b]\<close> along the second.\<close>

definition slice_rows :: "'a tensor \<Rightarrow> int \<Rightarrow> int \<Rightarrow> error + 'a tensor" where
  "slice_rows t a b =
     (case shape t of
        [] \<Rightarrow> Inl IndexError
      | n # rest \<Rightarrow>
          let lo = slice_index n a; hi = slice_index n b; inner = numel rest in
          Inr (Tensor ((hi - lo) # rest) (take ((hi - lo) * inner) (drop (lo * inner) (data t)))))"

definition slice_cols :: "'a tensor \<Rightarrow> int \<Rightarrow> int \<Rightarrow> error + 'a tensor" where
  "slice_cols t a b =
     (case shape t of
        m # n # rest \<Rightarrow>
          let lo = slice_index n a; hi = slice_index n b; inner = numel rest in
          Inr (Tensor (m # (hi - lo) # rest)
            (concat (map (\<lambda>r. take ((hi - lo) * inner) (drop (lo * inner) (chunk (n * inner) r (data t))))
                       [0..<m])))
      | _ \<Rightarrow> Inl IndexError)"

text \<open>
  \<open>w[idx]\<close> with an index tensor: the rows of \<open>w\<close> named by \<open>idx\<close>; an index below
  \<open>-n\<close> or from \<open>n\<close> on is an \<open>IndexError\<close>, a negative one counts from the end.
\<close>

definition index_rows :: "'a tensor \<Rightarrow> int tensor \<Rightarrow> error + 'a tensor" where
  "index_rows w idx =
     (case shape w of
        [] \<Rightarrow> Inl IndexError
      | n # rest \<Rightarrow>
          if list_all (\<lambda>i. - int n \<le> i \<and> i < int n) (data idx)
          then Inr (Tensor (shape idx @ rest)
                 (concat (map (\<lambda>i. chunk (numel rest) (nat (if i < 0 then i + int n else i)) (data w))
                            (data idx))))
          else Inl IndexError)"

text \<open>\<open>F.embedding(idx, w)\<close>: \<open>w\<close> is a matrix and every index is in \<open>[0, n)\<close>.\<close>

definition embedding :: "int tensor \<Rightarrow> 'a tensor \<Rightarrow> error + 'a tensor" where
  "embedding idx w =
     (case shape w of
        [n, d] \<Rightarrow>
          if list_all (\<lambda>i. 0 \<le> i \<and> i < int n) (data idx)
          then Inr (Tensor (shape idx @ [d]) (concat (map (\<lambda>i. chunk d (nat i) (data w)) (data idx))))
          else Inl IndexError
      | _ \<Rightarrow> Inl RuntimeError)"

text \<open>
  \<open>t.repeat(reps)\<close>: at least as many repetition counts as \<open>t\<close> has dimensions; missing
  leading dimensions of \<open>t\<close> count as 1.
\<close>

fun repeat_data :: "nat list \<Rightarrow> nat list \<Rightarrow> 'a list \<Rightarrow> 'a list" where
  "repeat_data (m # ms) (r # rs) xs =
     concat (replicate r (concat (map (\<lambda>i. repeat_data ms rs (chunk (numel ms) i xs)) [0..<m])))"
| "repeat_data _ _ xs = xs"

definition repeat :: "'a tensor \<Rightarrow> nat list \<Rightarrow> error + 'a tensor" where
  "repeat t reps =
     (if length (shape t) \<le> length reps
      then let s = replicate (length reps - length (shape t)) 1 @ shape t in
           Inr (Tensor (map2 (*) s reps) (repeat_data s reps (data t)))
      else Inl RuntimeError)"

section \<open>The partition table of \<open>LinearDistributed.__init__\<close>\<close>

text \<open>
  \<open>math.ceil(output_size / num_partitions)\<close>: true division followed by the ceiling.
  Python raises \<open>ZeroDivisionError\<close> for a zero divisor; for the sizes that occur (below
  \<open>2 ^ 53\<close>) the float quotient rounds to the exact ceiling, which is what is modelled.
\<close>

definition ceil_div :: "int \<Rightarrow> int \<Rightarrow> error + int" where
  "ceil_div a b = (if b = 0 then Inl ZeroDivisionError else Inr (- ((- a) div b)))"

text \<open>
  The loop \<open>for i in range(self.num_partitions)\<close> that appends
  \<open>(_start, _end)\<close> with \<open>_start = i * partition_size\<close> and
  \<open>_end = min(_start + partition_size, output_size)\<close>.
\<close>

definition partition_indices_of :: "int \<Rightarrow> int \<Rightarrow> nat \<Rightarrow> (int \<times> int) list" where
  "partition_indices_of partition_size output_size num_partitions =
     map (\<lambda>i. (int i * partition_size, min (int i * partition_size + partition_size) output_size))
       [0..<num_partitions]"

definition partition_table :: "int \<Rightarrow> nat \<Rightarrow> error + (int \<times> int) list" where
  "partition_table output_size num_partitions =
     bindE (ceil_div output_size (int num_partitions))
       (\<lambda>partition_size. Inr (partition_indices_of partition_size output_size num_partitions))"

text \<open>The size \<open>partition_indices[i][1] - partition_indices[i][0]\<close> given to shard \<open>i\<close>.\<close>

definition shard_size :: "int \<times> int \<Rightarrow> int" where
  "shard_size r = snd r - fst r"

text \<open>
  What the specification asks of a partition table over \<open>[0, num_labels)\<close>: it starts at 0,
  every range is a half-open range with start at most end, each range starts where the
  previous one ends, and the last one ends at \<open>num_labels\<close>.
\<close>

fun contiguous_from :: "int \<Rightarrow> (int \<times> int) list \<Rightarrow> int \<Rightarrow> bool" where
  "contiguous_from a [] b = (a = b)"
| "contiguous_from a ((s, e) # rs) b = (s = a \<and> s \<le> e \<and> contiguous_from e rs b)"

definition valid_partition :: "(int \<times> int) list \<Rightarrow> int \<Rightarrow> bool" where
  "valid_partition rs num_labels =
     (contiguous_from 0 rs num_labels \<and> sum_list (map shard_size rs) = num_labels)"

section \<open>Aggregators\<close>

text \<open>
  \<open>int(a / b)\<close>: true division, then truncation towards zero; \<open>ZeroDivisionError\<close> for a
  zero divisor.
\<close>

definition trunc_div :: "int \<Rightarrow> int \<Rightarrow> error + int" where
  "trunc_div a b =
     (if b = 0 then Inl ZeroDivisionError else Inr (sgn a * sgn b * (\<bar>a\<bar> div \<bar>b\<bar>)))"

text \<open>
  The lines shared by both aggregators:
  \<open>nb_count = int(neigh_feats.shape[0] / node_count)\<close> and
  \<open>neigh_feats.view(node_count, nb_count, neigh_feats.shape[-1])\<close>.
\<close>

definition aggregate_view :: "real tensor \<Rightarrow> int \<Rightarrow> error + real tensor" where
  "aggregate_view neigh_feats node_count =
     bindE (shape_first neigh_feats) (\<lambda>rows.
     bindE (trunc_div (int rows) node_count) (\<lambda>nb_count.
     bindE (shape_last neigh_feats) (\<lambda>d.
       view neigh_feats [node_count, nb_count, int d])))"

text \<open>
  \<open>MeanAggregator.forward\<close> and \<open>SumAggregator.forward\<close>.  The injected callable
  \<open>self.features\<close> is the parameter \<open>features\<close>; it may itself raise.
\<close>

definition MeanAggregator_forward ::
    "('c \<Rightarrow> error + real tensor) \<Rightarrow> 'c \<Rightarrow> int \<Rightarrow> error + real tensor" where
  "MeanAggregator_forward features neighs node_count =
     bindE (features neighs) (\<lambda>neigh_feats.
     bindE (aggregate_view neigh_feats node_count) (\<lambda>fv_by_node.
       tensor_mean fv_by_node 1))"

definition SumAggregator_forward ::
    "('c \<Rightarrow> error + real tensor) \<Rightarrow> 'c \<Rightarrow> int \<Rightarrow> error + real tensor" where
  "SumAggregator_forward features neighs node_count =
     bindE (features neighs) (\<lambda>neigh_feats.
     bindE (aggregate_view neigh_feats node_count) (\<lambda>fv_by_node.
       tensor_sum fv_by_node 1))"

section \<open>Encoders\<close>

text \<open>
  The context of one hop is the dictionary \<open>{node_feats, neighbor_feats, node_count}\<close>,
  whose first two entries are again contexts, or the raw feature tensors at the first hop.
  The callables \<open>features\<close> of an encoder and of its aggregator take such an entry.
  Sampling from the graph (\<open>query\<close>, \<open>query_func\<close>, \<open>base_model\<close>) is not modelled.
\<close>

text \<open>A device is its name.\<close>

type_synonym device = string

datatype hop_context =
  Feats "real tensor"
| Ctx hop_context hop_context int

datatype aggregator =
  MeanAggregator "hop_context \<Rightarrow> error + real tensor"
| SumAggregator "hop_context \<Rightarrow> error + real tensor"

text \<open>\<open>self.aggregator.forward(neighs, node_count, device)\<close>, by the class of the aggregator.\<close>

fun aggregator_forward :: "aggregator \<Rightarrow> hop_context \<Rightarrow> int \<Rightarrow> error + real tensor" where
  "aggregator_forward (MeanAggregator features) neighs node_count =
     MeanAggregator_forward features neighs node_count"
| "aggregator_forward (SumAggregator features) neighs node_count =
     SumAggregator_forward features neighs node_count"



record GINEncoder =
  gin_device_name :: device
  gin_features :: "hop_context \<Rightarrow> error + real tensor"
  gin_aggregator :: aggregator
  gin_num_sample :: int
  gin_eps :: "real tensor"



text \<open>
  \<open>GINEncoder.forward\<close>: \<open>torch.add(neigh_feats, (1.0 + self.eps) * self_feats)\<close> and
  \<open>return combined.t()\<close>.
\<close>

fun GINEncoder_forward :: "GINEncoder \<Rightarrow> hop_context \<Rightarrow> error + real tensor" where
  "GINEncoder_forward self (Feats t) = Inl IndexError"
| "GINEncoder_forward self (Ctx node_feats neighbor_feats node_count) =
     bindE (aggregator_forward (gin_aggregator self) neighbor_feats node_count) (\<lambda>neigh_feats.
     bindE (gin_features self node_feats) (\<lambda>self_feats.
     bindE (tensor_add (scalar 1) (gin_eps self)) (\<lambda>e1.
     bindE (tensor_mul e1 self_feats) (\<lambda>scaled.
     bindE (tensor_add neigh_feats scaled) (\<lambda>combined.
       transpose_t combined)))))"


text \<open>
  The feature lookup of the first hop, \<open>feature_func\<close> of \<open>_construct_embeddings\<close>:
  \<open>features.squeeze(0)\<close>.  A dictionary has no \<open>squeeze\<close>.
\<close>

fun feature_func :: "hop_context \<Rightarrow> error + real tensor" where
  "feature_func (Feats features) = Inr (squeeze0 features)"
| "feature_func (Ctx a b n) = Inl AttributeError"

section \<open>The shard \<open>LinearChunk\<close>\<close>

text \<open>
  The parameters of a shard are created uninitialised and then
  filled with random numbers by \<open>reset_parameters\<close>; training changes them later.  The
  model takes their values from a source \<open>vals\<close> (parameter number, flat position), so
  that a statement for every \<open>vals\<close> covers every value the parameters can hold.
\<close>

record LinearChunk =
  lc_device_embeddings :: device
  lc_input_size :: int
  lc_output_size :: int
  lc_weight :: "real tensor"
  lc_bias :: "real tensor option"
  lc_attention_weights :: "real tensor"
  lc_sparse :: bool

text \<open>\<open>torch.Tensor(sizes)\<close>: a negative size is refused.\<close>

definition new_tensor :: "int list \<Rightarrow> (nat \<Rightarrow> real) \<Rightarrow> error + real tensor" where
  "new_tensor sizes vals =
     (if list_ex (\<lambda>d. d < 0) sizes then Inl RuntimeError
      else Inr (Tensor (map nat sizes) (map vals [0..<numel (map nat sizes)])))"

text \<open>
  \<open>LinearChunk.__init__\<close>, with \<open>reset_parameters\<close>: its
  \<open>stdv = 1. / math.sqrt(self.weight.size(1))\<close> divides by zero when \<open>input_size\<close> is 0.
\<close>

definition LinearChunk_init ::
    "int \<Rightarrow> int \<Rightarrow> device \<Rightarrow> bool \<Rightarrow> (nat \<Rightarrow> nat \<Rightarrow> real) \<Rightarrow> error + LinearChunk" where
  "LinearChunk_init input_size output_size device_embeddings use_bias vals =
     bindE (new_tensor [output_size, input_size] (vals 0)) (\<lambda>weight.
     bindE (if use_bias then bindE (new_tensor [output_size] (vals 1)) (\<lambda>b. Inr (Some b))
            else Inr None) (\<lambda>bias.
     bindE (new_tensor [output_size, 3] (vals 2)) (\<lambda>attention_weights.
     if input_size = 0 then Inl ZeroDivisionError
     else Inr \<lparr> lc_device_embeddings = device_embeddings,
                lc_input_size = input_size,
                lc_output_size = output_size,
                lc_weight = weight,
                lc_bias = bias,
                lc_attention_weights = attention_weights,
                lc_sparse = False \<rparr>)))"

text \<open>Reading \<open>self.bias\<close> for a method call or a subscript: \<open>None\<close> has neither.\<close>

definition bias_for_call :: "LinearChunk \<Rightarrow> error + real tensor" where
  "bias_for_call self = (case lc_bias self of None \<Rightarrow> Inl AttributeError | Some b \<Rightarrow> Inr b)"

definition bias_for_subscript :: "LinearChunk \<Rightarrow> error + real tensor" where
  "bias_for_subscript self = (case lc_bias self of None \<Rightarrow> Inl TypeError | Some b \<Rightarrow> Inr b)"

text \<open>
  The branch \<open>input[1] is None\<close> of \<open>LinearChunk.forward\<close>:
  \<open>w = self.weight.unsqueeze(1) * (self.act(self.attention_weights).unsqueeze(2))\<close>,
  \<open>x = input[0].mm(w.view((-1, input[0].shape[-1])).t()) + self.bias.view(-1)\<close>.
\<close>

definition LinearChunk_forward_dense :: "LinearChunk \<Rightarrow> real tensor \<Rightarrow> error + real tensor" where
  "LinearChunk_forward_dense self input0 =
     bindE (unsqueeze (lc_weight self) 1) (\<lambda>w1.
     bindE (softmax1 (lc_attention_weights self)) (\<lambda>a.
     bindE (unsqueeze a 2) (\<lambda>a2.
     bindE (tensor_mul w1 a2) (\<lambda>w.
     bindE (shape_last input0) (\<lambda>d.
     bindE (view w [- 1, int d]) (\<lambda>wv.
     bindE (transpose_t wv) (\<lambda>wt.
     bindE (mm input0 wt) (\<lambda>xm.
     bindE (bias_for_call self) (\<lambda>b.
     bindE (view b [- 1]) (\<lambda>bv.
       tensor_add xm bv))))))))))"

text \<open>
  The branch \<open>len(input[1].shape) == 1\<close>: the same with \<open>self.weight[input[1]]\<close>,
  \<open>self.attention_weights[input[1]]\<close> and \<open>self.bias[input[1]]\<close>.
\<close>

definition LinearChunk_forward_1d ::
    "LinearChunk \<Rightarrow> real tensor \<Rightarrow> int tensor \<Rightarrow> error + real tensor" where
  "LinearChunk_forward_1d self input0 input1 =
     bindE (index_rows (lc_weight self) input1) (\<lambda>w0.
     bindE (unsqueeze w0 1) (\<lambda>w1.
     bindE (index_rows (lc_attention_weights self) input1) (\<lambda>a0.
     bindE (softmax1 a0) (\<lambda>a.
     bindE (unsqueeze a 2) (\<lambda>a2.
     bindE (tensor_mul w1 a2) (\<lambda>w.
     bindE (shape_last input0) (\<lambda>d.
     bindE (view w [- 1, int d]) (\<lambda>wv.
     bindE (transpose_t wv) (\<lambda>wt.
     bindE (mm input0 wt) (\<lambda>xm.
     bindE (bias_for_subscript self) (\<lambda>b.
     bindE (index_rows b input1) (\<lambda>b1.
     bindE (view b1 [- 1]) (\<lambda>bv.
       tensor_add xm bv)))))))))))))"

text \<open>
  The branch \<open>len(input[1].shape) == 2\<close>, with \<open>F.embedding\<close> lookups of the weight, of
  \<open>self.bias.view(-1, 1)\<close> and of the attention logits, the per-example products and
  \<open>x.sum(axis=2) + short_bias.squeeze()\<close>.
\<close>

definition LinearChunk_forward_2d ::
    "LinearChunk \<Rightarrow> real tensor \<Rightarrow> int tensor \<Rightarrow> error + real tensor" where
  "LinearChunk_forward_2d self input0 input1 =
     (let b = shape input1 ! 0; k = shape input1 ! 1 in
     bindE (embedding input1 (lc_weight self)) (\<lambda>sw0.
     bindE (view sw0 [int (b * k), - 1]) (\<lambda>short_weights.
     bindE (bias_for_call self) (\<lambda>bias.
     bindE (view bias [- 1, 1]) (\<lambda>bias2.
     bindE (embedding input1 bias2) (\<lambda>short_bias.
     bindE (embedding input1 (lc_attention_weights self)) (\<lambda>sa0.
     bindE (view sa0 [int (b * k), - 1]) (\<lambda>short_att.
     bindE (unsqueeze short_weights 1) (\<lambda>w1.
     bindE (softmax1 short_att) (\<lambda>a.
     bindE (unsqueeze a 2) (\<lambda>a2.
     bindE (tensor_mul w1 a2) (\<lambda>w.
     bindE (unsqueeze input0 1) (\<lambda>x1.
     bindE (repeat x1 [1, k, 1]) (\<lambda>xr.
     bindE (shape_last input0) (\<lambda>d.
     bindE (view w [int b, int k, int d]) (\<lambda>wv.
     bindE (tensor_mul xr wv) (\<lambda>x.
     bindE (tensor_sum x 2) (\<lambda>xs.
       tensor_add xs (squeeze_all short_bias)))))))))))))))))))"

text \<open>
  \<open>LinearChunk.forward\<close>.  For label ids that are neither absent nor 1- or 2-dimensional
  no branch is taken and the method returns \<open>None\<close>.
\<close>

definition LinearChunk_forward ::
    "LinearChunk \<Rightarrow> real tensor \<times> int tensor option \<Rightarrow> error + real tensor option" where
  "LinearChunk_forward self input =
     (case snd input of
        None \<Rightarrow> bindE (LinearChunk_forward_dense self (fst input)) (\<lambda>x. Inr (Some x))
      | Some input1 \<Rightarrow>
          if length (shape input1) = 1
          then bindE (LinearChunk_forward_1d self (fst input) input1) (\<lambda>x. Inr (Some x))
          else if length (shape input1) = 2
          then bindE (LinearChunk_forward_2d self (fst input) input1) (\<lambda>x. Inr (Some x))
          else Inr None)"

section \<open>The partitioned classifier \<open>LinearDistributed\<close>\<close>

record LinearDistributed =
  ld_num_partitions :: nat
  ld_device_embeddings :: "device list"
  ld_input_size :: int
  ld_output_size :: int
  ld_partition_size :: int
  ld_partition_indices :: "(int \<times> int) list"
  ld_classifiers :: "LinearChunk list"

text \<open>\<open>xs[i]\<close> for an index from a \<open>range\<close>: out of range is an \<open>IndexError\<close>.\<close>

definition list_get :: "'a list \<Rightarrow> nat \<Rightarrow> error + 'a" where
  "list_get xs i = (if i < length xs then Inr (xs ! i) else Inl IndexError)"

text \<open>
  \<open>LinearDistributed.__init__\<close>: the partition table, then one shard per device with
  \<open>output_size = partition_indices[i][1] - partition_indices[i][0]\<close>.
\<close>

definition LinearDistributed_init ::
    "int \<Rightarrow> int \<Rightarrow> device list \<Rightarrow> (nat \<Rightarrow> nat \<Rightarrow> nat \<Rightarrow> real) \<Rightarrow> error + LinearDistributed" where
  "LinearDistributed_init input_size output_size device_embeddings vals =
     (let num_partitions = length device_embeddings in
      bindE (ceil_div output_size (int num_partitions)) (\<lambda>partition_size.
      let partition_indices = partition_indices_of partition_size output_size num_partitions in
      bindE (mapE (\<lambda>i.
               bindE (list_get partition_indices i) (\<lambda>r.
               bindE (list_get device_embeddings i) (\<lambda>dev.
                 LinearChunk_init input_size (shard_size r) dev True (vals i))))
             [0..<length device_embeddings]) (\<lambda>classifiers.
      Inr \<lparr> ld_num_partitions = num_partitions,
            ld_device_embeddings = device_embeddings,
            ld_input_size = input_size,
            ld_output_size = output_size,
            ld_partition_size = partition_size,
            ld_partition_indices = partition_indices,
            ld_classifiers = classifiers \<rparr>)))"

text \<open>\<open>x.to(device)\<close> on the result of a shard: \<open>None\<close> has no method \<open>to\<close>.\<close>

definition to_device :: "real tensor option \<Rightarrow> error + real tensor" where
  "to_device x = (case x of None \<Rightarrow> Inl AttributeError | Some t \<Rightarrow> Inr t)"

text \<open>\<open>a // b\<close> on sizes.\<close>

definition floor_div :: "nat \<Rightarrow> nat \<Rightarrow> error + nat" where
  "floor_div a b = (if b = 0 then Inl ZeroDivisionError else Inr (a div b))"

text \<open>The three loops of \<open>LinearDistributed.forward\<close>, one per kind of label ids.\<close>

definition LinearDistributed_forward_dense ::
    "LinearDistributed \<Rightarrow> real tensor \<Rightarrow> error + real tensor" where
  "LinearDistributed_forward_dense self input0 =
     bindE (mapE (\<lambda>i.
              bindE (list_get (ld_classifiers self) i) (\<lambda>c.
              bindE (LinearChunk_forward c (input0, None)) to_device))
            [0..<length (ld_device_embeddings self)]) (\<lambda>total_x.
       cat total_x 1)"

definition LinearDistributed_forward_1d ::
    "LinearDistributed \<Rightarrow> real tensor \<Rightarrow> int tensor \<Rightarrow> error + real tensor" where
  "LinearDistributed_forward_1d self input0 input1 =
     bindE (mapE (\<lambda>i.
              bindE (list_get (ld_partition_indices self) i) (\<lambda>r.
              bindE (slice_rows input1 (fst r) (snd r)) (\<lambda>indices.
              bindE (list_get (ld_classifiers self) i) (\<lambda>c.
              bindE (LinearChunk_forward c (input0, Some indices)) to_device))))
            [0..<length (ld_device_embeddings self)]) (\<lambda>total_x.
       cat total_x 1)"

definition LinearDistributed_forward_2d ::
    "LinearDistributed \<Rightarrow> real tensor \<Rightarrow> int tensor \<Rightarrow> error + real tensor" where
  "LinearDistributed_forward_2d self input0 input1 =
     bindE (floor_div (shape input1 ! 1) (length (ld_partition_indices self))) (\<lambda>partition_length.
     bindE (mapE (\<lambda>i.
              bindE (slice_cols input1 (int (i * partition_length)) (int ((i + 1) * partition_length)))
                (\<lambda>short.
              bindE (list_get (ld_classifiers self) i) (\<lambda>c.
              bindE (LinearChunk_forward c (input0, Some short)) to_device)))
            [0..<length (ld_device_embeddings self)]) (\<lambda>total_x.
       cat total_x 1))"

definition LinearDistributed_forward ::
    "LinearDistributed \<Rightarrow> real tensor \<times> int tensor option \<Rightarrow> error + real tensor option" where
  "LinearDistributed_forward self input =
     (case snd input of
        None \<Rightarrow> bindE (LinearDistributed_forward_dense self (fst input)) (\<lambda>x. Inr (Some x))
      | Some input1 \<Rightarrow>
          if length (shape input1) = 1
          then bindE (LinearDistributed_forward_1d self (fst input) input1) (\<lambda>x. Inr (Some x))
          else if length (shape input1) = 2
          then bindE (LinearDistributed_forward_2d self (fst input) input1) (\<lambda>x. Inr (Some x))
          else Inr None)"

section \<open>Auxiliary predicates for the proofs\<close>

text \<open>A fallible step returns a tensor of a given shape.\<close>

definition returns_shape :: "error + 'a tensor \<Rightarrow> nat list \<Rightarrow> bool" where
  "returns_shape r s = (\<exists>c. r = Inr c \<and> has_shape c s)"

text \<open>A size \<open>m\<close> can be broadcast to the size \<open>n\<close>.\<close>

definition compat :: "nat \<Rightarrow> nat \<Rightarrow> bool" where
  "compat m n = (m = n \<or> m = 1)"

text \<open>
  The shapes of the parameters of a shard with \<open>n\<close> labels and input size \<open>i\<close>, as
  \<open>LinearChunk.__init__\<close> creates them.
\<close>

definition shard_ok :: "LinearChunk \<Rightarrow> nat \<Rightarrow> nat \<Rightarrow> bool" where
  "shard_ok c n i =
     (0 < i \<and> has_shape (lc_weight c) [n, i]
      \<and> (\<exists>b. lc_bias c = Some b \<and> has_shape b [n])
      \<and> has_shape (lc_attention_weights c) [n, 3])"

text \<open>Every entry of an index tensor is a row index of a parameter with \<open>n\<close> rows.\<close>

definition valid_rows :: "nat \<Rightarrow> int tensor \<Rightarrow> bool" where
  "valid_rows n idx = list_all (\<lambda>i. - int n \<le> i \<and> i < int n) (data idx)"

text \<open>The body of the loop of \<open>LinearDistributed.forward\<close> for 1-dimensional label ids.\<close>

definition shard_step_1d ::
    "LinearDistributed \<Rightarrow> real tensor \<Rightarrow> int tensor \<Rightarrow> nat \<Rightarrow> error + real tensor" where
  "shard_step_1d self input0 input1 i =
     bindE (list_get (ld_partition_indices self) i) (\<lambda>r.
     bindE (slice_rows input1 (fst r) (snd r)) (\<lambda>indices.
     bindE (list_get (ld_classifiers self) i) (\<lambda>c.
     bindE (LinearChunk_forward c (input0, Some indices)) to_device)))"

text \<open>Every entry of an index tensor is accepted by \<open>F.embedding\<close> on a table of \<open>n\<close> rows.\<close>

definition valid_ids :: "nat \<Rightarrow> int tensor \<Rightarrow> bool" where
  "valid_ids n idx = list_all (\<lambda>i. 0 \<le> i \<and> i < int n) (data idx)"

text \<open>The body of the loop of \<open>LinearDistributed.forward\<close> for 2-dimensional label ids.\<close>

definition shard_step_2d ::
    "LinearDistributed \<Rightarrow> real tensor \<Rightarrow> int tensor \<Rightarrow> nat \<Rightarrow> nat \<Rightarrow> error + real tensor" where
  "shard_step_2d self input0 input1 partition_length i =
     bindE (slice_cols input1 (int (i * partition_length)) (int ((i + 1) * partition_length)))
       (\<lambda>short.
     bindE (list_get (ld_classifiers self) i) (\<lambda>c.
     bindE (LinearChunk_forward c (input0, Some short)) to_device))"

section \<open>A concrete classifier\<close>

text \<open>
  The classifier that \<open>LinearDistributed(1, 4, ['cuda:0', 'cuda:1'])\<close> builds when every
  parameter value is 0: two shards of two labels each.
\<close>

definition zero_shard :: "device \<Rightarrow> LinearChunk" where
  "zero_shard dev =
     \<lparr> lc_device_embeddings = dev, lc_input_size = 1, lc_output_size = 2,
       lc_weight = Tensor [2, 1] [0, 0], lc_bias = Some (Tensor [2] [0, 0]),
       lc_attention_weights = Tensor [2, 3] [0, 0, 0, 0, 0, 0], lc_sparse = False \<rparr>"

definition classifier_4_2 :: LinearDistributed where
  "classifier_4_2 =
     \<lparr> ld_num_partitions = 2, ld_device_embeddings = [''cuda:0'', ''cuda:1''],
       ld_input_size = 1, ld_output_size = 4, ld_partition_size = 2,
       ld_partition_indices = [(0, 2), (2, 4)],
       ld_classifiers = [zero_shard ''cuda:0'', zero_shard ''cuda:1''] \<rparr>"

section \<open>The model \<open>GalaXCBase\<close>\<close>

text \<open>
  An object is taken as its attribute dictionary: \<open>self.name = value\<close> adds or replaces
  an entry, and reading \<open>self.name\<close> looks the name up; a name that was never assigned
  is an \<open>AttributeError\<close> (\<open>nn.Module.__getattr__\<close>).  The values are the kinds of
  objects that the constructor stores.  The attributes that \<open>nn.Module\<close> keeps for its
  own use and the methods of the classes are not entries of the dictionary.
\<close>

datatype 'g attr =
    GraphV 'g
  | IntV int
  | FloatV real
  | IntListV "int list"
  | DeviceV device
  | DeviceListV "device list"
  | TableV "(int \<times> int) list"
  | ChunksV "LinearChunk list"
  | TensorV "real tensor"
  | EncoderV GINEncoder
  | TransformV "real tensor \<Rightarrow> error + real tensor"
  | ClassifierV LinearDistributed

type_synonym 'g GalaXCBase = "string \<Rightarrow> 'g attr option"

definition getattr :: "(string \<Rightarrow> 'v option) \<Rightarrow> string \<Rightarrow> error + 'v" where
  "getattr self name = (case self name of None \<Rightarrow> Inl AttributeError | Some v \<Rightarrow> Inr v)"

text \<open>
  The uses of a value: as a number, a list, a device, a tensor or a module.  A value of
  another kind in that place is a \<open>TypeError\<close>.
\<close>

fun the_int :: "'g attr \<Rightarrow> error + int" where
  "the_int (IntV i) = Inr i"
| "the_int _ = Inl TypeError"

fun the_float :: "'g attr \<Rightarrow> error + real" where
  "the_float (FloatV x) = Inr x"
| "the_float _ = Inl TypeError"

fun the_int_list :: "'g attr \<Rightarrow> error + int list" where
  "the_int_list (IntListV xs) = Inr xs"
| "the_int_list _ = Inl TypeError"

fun the_device :: "'g attr \<Rightarrow> error + device" where
  "the_device (DeviceV d) = Inr d"
| "the_device _ = Inl TypeError"

fun the_device_list :: "'g attr \<Rightarrow> error + device list" where
  "the_device_list (DeviceListV ds) = Inr ds"
| "the_device_list _ = Inl TypeError"

fun the_tensor :: "'g attr \<Rightarrow> error + real tensor" where
  "the_tensor (TensorV t) = Inr t"
| "the_tensor _ = Inl TypeError"

fun the_encoder :: "'g attr \<Rightarrow> error + GINEncoder" where
  "the_encoder (EncoderV e) = Inr e"
| "the_encoder _ = Inl TypeError"

fun the_transform :: "'g attr \<Rightarrow> error + (real tensor \<Rightarrow> error + real tensor)" where
  "the_transform (TransformV f) = Inr f"
| "the_transform _ = Inl TypeError"

fun the_classifier :: "'g attr \<Rightarrow> error + LinearDistributed" where
  "the_classifier (ClassifierV c) = Inr c"
| "the_classifier _ = Inl TypeError"

text \<open>
  The attributes of the stored objects.  \<open>LinearDistributed.__init__\<close> assigns
  \<open>num_partitions\<close>, \<open>device_embeddings\<close>, \<open>input_size\<close>, \<open>output_size\<close>,
  \<open>partition_size\<close>, \<open>partition_indices\<close> and \<open>classifiers\<close>, and nothing else.  Of an
  encoder the attributes that are numbers, devices or tensors are listed, of a tensor its
  \<open>data\<close>, which is the tensor.
\<close>

definition LinearDistributed_dict :: "LinearDistributed \<Rightarrow> string \<Rightarrow> 'g attr option" where
  "LinearDistributed_dict c =
     [''num_partitions'' \<mapsto> IntV (int (ld_num_partitions c)),
      ''device_embeddings'' \<mapsto> DeviceListV (ld_device_embeddings c),
      ''input_size'' \<mapsto> IntV (ld_input_size c),
      ''output_size'' \<mapsto> IntV (ld_output_size c),
      ''partition_size'' \<mapsto> IntV (ld_partition_size c),
      ''partition_indices'' \<mapsto> TableV (ld_partition_indices c),
      ''classifiers'' \<mapsto> ChunksV (ld_classifiers c)]"

definition GINEncoder_dict :: "GINEncoder \<Rightarrow> string \<Rightarrow> 'g attr option" where
  "GINEncoder_dict e =
     [''device_name'' \<mapsto> DeviceV (gin_device_name e),
      ''num_sample'' \<mapsto> IntV (gin_num_sample e),
      ''eps'' \<mapsto> TensorV (gin_eps e)]"

fun attr_dict :: "'g attr \<Rightarrow> string \<Rightarrow> 'g attr option" where
  "attr_dict (ClassifierV c) = LinearDistributed_dict c"
| "attr_dict (EncoderV e) = GINEncoder_dict e"
| "attr_dict (TensorV t) = [''data'' \<mapsto> TensorV t]"
| "attr_dict _ = Map.empty"

definition get_int :: "'g GalaXCBase \<Rightarrow> string \<Rightarrow> error + int" where
  "get_int self name = bindE (getattr self name) the_int"

definition get_float :: "'g GalaXCBase \<Rightarrow> string \<Rightarrow> error + real" where
  "get_float self name = bindE (getattr self name) the_float"

definition get_int_list :: "'g GalaXCBase \<Rightarrow> string \<Rightarrow> error + int list" where
  "get_int_list self name = bindE (getattr self name) the_int_list"

definition get_device :: "'g GalaXCBase \<Rightarrow> string \<Rightarrow> error + device" where
  "get_device self name = bindE (getattr self name) the_device"

definition get_device_list :: "'g GalaXCBase \<Rightarrow> string \<Rightarrow> error + device list" where
  "get_device_list self name = bindE (getattr self name) the_device_list"

definition get_encoder :: "'g GalaXCBase \<Rightarrow> string \<Rightarrow> error + GINEncoder" where
  "get_encoder self name = bindE (getattr self name) the_encoder"

definition get_transform ::
    "'g GalaXCBase \<Rightarrow> string \<Rightarrow> error + (real tensor \<Rightarrow> error + real tensor)" where
  "get_transform self name = bindE (getattr self name) the_transform"

definition get_classifier :: "'g GalaXCBase \<Rightarrow> string \<Rightarrow> error + LinearDistributed" where
  "get_classifier self name = bindE (getattr self name) the_classifier"

text \<open>
  \<open>GINEncoder.__init__\<close> keeps the feature lookup, the aggregator, the fan-out and the
  device, and draws \<open>eps\<close> with \<open>torch.rand(1)\<close>; the value drawn is the argument
  \<open>eps\<close>.  It ignores \<open>feature_dim\<close>, \<open>intermediate_dim\<close> and \<open>embed_dim\<close>.
\<close>

definition GINEncoder_init ::
    "(hop_context \<Rightarrow> error + real tensor) \<Rightarrow> device \<Rightarrow> int \<Rightarrow> aggregator \<Rightarrow> int \<Rightarrow> int \<Rightarrow> int
       \<Rightarrow> real \<Rightarrow> GINEncoder" where
  "GINEncoder_init features device_name feature_dim aggregator num_sample intermediate_dim
       embed_dim eps =
     \<lparr> gin_device_name = device_name,
       gin_features = features,
       gin_aggregator = aggregator,
       gin_num_sample = num_sample,
       gin_eps = Tensor [1] [eps] \<rparr>"

text \<open>
  The feature lookup of the second and the third hop,
  \<open>lambda context: self.first_layer_enc(context).t()\<close>: the hop below, transposed.  The
  attribute is assigned once, so the encoder that the closure finds when it is called
  is the one assigned just before.
\<close>

definition hop_features :: "GINEncoder \<Rightarrow> hop_context \<Rightarrow> error + real tensor" where
  "hop_features enc context = bindE (GINEncoder_forward enc context) transpose_t"

text \<open>
  \<open>_construct_embeddings\<close>: three GIN hops with the fan-outs \<open>self.fanouts[0]\<close>,
  \<open>self.fanouts[1]\<close> and \<open>self.fanouts[2]\<close>.  The attributes that the three calls read
  again and again are read once here; nothing assigns them in between.
\<close>

definition construct_embeddings :: "(nat \<Rightarrow> real) \<Rightarrow> 'g GalaXCBase \<Rightarrow> error + 'g GalaXCBase" where
  "construct_embeddings eps self =
     bindE (get_int self ''feature_dim'') (\<lambda>feature_dim.
     bindE (get_int self ''embed_dim'') (\<lambda>embed_dim.
     bindE (get_int_list self ''fanouts'') (\<lambda>fanouts.
     bindE (get_device self ''device_name'') (\<lambda>device_name.
     bindE (list_get fanouts 0) (\<lambda>num_sample1.
     let first_layer_enc = GINEncoder_init feature_func device_name feature_dim
           (SumAggregator feature_func) num_sample1 feature_dim embed_dim (eps 0);
         self1 = self(''first_layer_enc'' \<mapsto> EncoderV first_layer_enc) in
     bindE (list_get fanouts 1) (\<lambda>num_sample2.
     let second_layer_enc = GINEncoder_init (hop_features first_layer_enc) device_name feature_dim
           (SumAggregator (hop_features first_layer_enc)) num_sample2 embed_dim embed_dim (eps 1);
         self2 = self1(''second_layer_enc'' \<mapsto> EncoderV second_layer_enc) in
     bindE (list_get fanouts 2) (\<lambda>num_sample3.
     let third_layer_enc = GINEncoder_init (hop_features second_layer_enc) device_name feature_dim
           (SumAggregator (hop_features second_layer_enc)) num_sample3 embed_dim embed_dim (eps 2) in
     Inr (self2(''third_layer_enc'' \<mapsto> EncoderV third_layer_enc)))))))))"

text \<open>
  \<open>_construct_transform\<close>:
  \<open>nn.Sequential(nn.ReLU(), nn.Dropout(self.dropout), Residual(self.embed_dim, self.hidden_dims, self.dropout))\<close>.
  The layers come from the library and draw random numbers; the argument \<open>sequential\<close>
  stands for their construction (which may fail) and for the function they compute.
\<close>

definition construct_transform ::
    "(real \<Rightarrow> int \<Rightarrow> int \<Rightarrow> nat \<Rightarrow> error + (real tensor \<Rightarrow> error + real tensor)) \<Rightarrow> nat
       \<Rightarrow> 'g GalaXCBase \<Rightarrow> error + 'g attr" where
  "construct_transform sequential k self =
     bindE (get_float self ''dropout'') (\<lambda>dropout.
     bindE (get_int self ''embed_dim'') (\<lambda>embed_dim.
     bindE (get_int self ''hidden_dims'') (\<lambda>hidden_dims.
     bindE (sequential dropout embed_dim hidden_dims k) (\<lambda>f.
       Inr (TransformV f)))))"

text \<open>
  \<open>_construct_classifier\<close>:
  \<open>LinearDistributed(self.hidden_dims, self.num_labels, self.device_names)\<close>.
\<close>

definition construct_classifier ::
    "(nat \<Rightarrow> nat \<Rightarrow> nat \<Rightarrow> real) \<Rightarrow> 'g GalaXCBase \<Rightarrow> error + 'g attr" where
  "construct_classifier vals self =
     bindE (get_int self ''hidden_dims'') (\<lambda>hidden_dims.
     bindE (get_int self ''num_labels'') (\<lambda>num_labels.
     bindE (get_device_list self ''device_names'') (\<lambda>device_names.
     bindE (LinearDistributed_init hidden_dims num_labels device_names vals) (\<lambda>c.
       Inr (ClassifierV c)))))"

text \<open>
  \<open>GalaXCBase.__init__\<close>: the assertion on the number of fan-outs, the assignments, the
  three encoders, the three transforms and the classifier.
\<close>

definition GalaXCBase_init ::
    "int \<Rightarrow> int \<Rightarrow> device list \<Rightarrow> int \<Rightarrow> int list \<Rightarrow> 'g \<Rightarrow> int \<Rightarrow> real \<Rightarrow> int \<Rightarrow> int
       \<Rightarrow> (nat \<Rightarrow> real)
       \<Rightarrow> (real \<Rightarrow> int \<Rightarrow> int \<Rightarrow> nat \<Rightarrow> error + (real tensor \<Rightarrow> error + real tensor))
       \<Rightarrow> (nat \<Rightarrow> nat \<Rightarrow> nat \<Rightarrow> real)
       \<Rightarrow> error + 'g GalaXCBase" where
  "GalaXCBase_init num_labels hidden_dims device_names feature_dim fanouts graph embed_dim
       dropout num_clf_partitions padding_idx eps sequential vals =
     (if length fanouts \<notin> set [1, 2, 3] then Inl AssertionError
      else
        let self0 = [''graph'' \<mapsto> GraphV graph,
                     ''fanouts'' \<mapsto> IntListV fanouts,
                     ''num_labels'' \<mapsto> IntV num_labels,
                     ''feature_dim'' \<mapsto> IntV feature_dim,
                     ''hidden_dims'' \<mapsto> IntV hidden_dims,
                     ''embed_dim'' \<mapsto> IntV embed_dim,
                     ''device_names'' \<mapsto> DeviceListV device_names] in
        bindE (list_get device_names 0) (\<lambda>device_name.
        let self1 = self0(''device_name'' \<mapsto> DeviceV device_name,
                          ''device_embeddings'' \<mapsto> DeviceV device_name,
                          ''dropout'' \<mapsto> FloatV dropout,
                          ''padding_idx'' \<mapsto> IntV padding_idx,
                          ''num_clf_partitions'' \<mapsto> IntV num_clf_partitions) in
        bindE (construct_embeddings eps self1) (\<lambda>self2.
        bindE (construct_transform sequential 1 self2) (\<lambda>transform1.
        let self3 = self2(''transform1'' \<mapsto> transform1) in
        bindE (construct_transform sequential 2 self3) (\<lambda>transform2.
        let self4 = self3(''transform2'' \<mapsto> transform2) in
        bindE (construct_transform sequential 3 self4) (\<lambda>transform3.
        let self5 = self4(''transform3'' \<mapsto> transform3) in
        bindE (construct_classifier vals self5) (\<lambda>classifier.
          Inr (self5(''classifier'' \<mapsto> classifier)))))))))"

text \<open>
  A batch is the dictionary with the hop context under \<open>"encoder"\<close> and the label ids under
  \<open>"label_ids"\<close>.  \<open>context["node_feats"]\<close> descends one hop.
\<close>

record batch_data =
  encoder :: hop_context
  label_ids :: "int tensor option"

fun node_feats_of :: "hop_context \<Rightarrow> error + hop_context" where
  "node_feats_of (Ctx node_feats neighbor_feats node_count) = Inr node_feats"
| "node_feats_of (Feats t) = Inl IndexError"

text \<open>
  \<open>encode\<close>: the three hops on the three levels of the context, each transposed and
  transformed, concatenated along the columns.
\<close>

definition encode :: "'g GalaXCBase \<Rightarrow> batch_data \<Rightarrow> error + real tensor" where
  "encode self context =
     bindE (get_encoder self ''third_layer_enc'') (\<lambda>third_layer_enc.
     bindE (GINEncoder_forward third_layer_enc (encoder context)) (\<lambda>embed3.
     bindE (get_encoder self ''second_layer_enc'') (\<lambda>second_layer_enc.
     bindE (node_feats_of (encoder context)) (\<lambda>context2.
     bindE (GINEncoder_forward second_layer_enc context2) (\<lambda>embed2.
     bindE (get_encoder self ''first_layer_enc'') (\<lambda>first_layer_enc.
     bindE (node_feats_of context2) (\<lambda>context1.
     bindE (GINEncoder_forward first_layer_enc context1) (\<lambda>embed1.
     bindE (get_transform self ''transform1'') (\<lambda>transform1.
     bindE (transpose_t embed1) (\<lambda>e1.
     bindE (transform1 e1) (\<lambda>t1.
     bindE (get_transform self ''transform2'') (\<lambda>transform2.
     bindE (transpose_t embed2) (\<lambda>e2.
     bindE (transform2 e2) (\<lambda>t2.
     bindE (get_transform self ''transform3'') (\<lambda>transform3.
     bindE (transpose_t embed3) (\<lambda>e3.
     bindE (transform3 e3) (\<lambda>t3.
       cat [t1, t2, t3] 1)))))))))))))))))"

text \<open>\<open>forward\<close>: \<open>self.classifier((encoded, batch_data["label_ids"]))\<close>.\<close>

definition GalaXCBase_forward :: "'g GalaXCBase \<Rightarrow> batch_data \<Rightarrow> error + real tensor option" where
  "GalaXCBase_forward self batch =
     bindE (encode self batch) (\<lambda>encoded.
     bindE (get_classifier self ''classifier'') (\<lambda>classifier.
       LinearDistributed_forward classifier (encoded, label_ids batch)))"

text \<open>
  \<open>dst.copy_(src)\<close> overwrites \<open>dst\<close> with \<open>src\<close> broadcast to the shape of \<open>dst\<close>;
  the result is the overwritten tensor.  \<open>a[:, -1]\<close> is the last column of an array.
\<close>

definition tensor_copy :: "real tensor \<Rightarrow> real tensor \<Rightarrow> error + real tensor" where
  "tensor_copy dst src =
     bindE (broadcast_shapes (shape src) (shape dst)) (\<lambda>s.
       if s = shape dst then Inr (Tensor s (expand_to s src)) else Inl RuntimeError)"

definition last_column :: "'a tensor \<Rightarrow> error + 'a tensor" where
  "last_column a =
     (case shape a of
        m # n # rest \<Rightarrow>
          if n = 0 then Inl IndexError
          else Inr (Tensor (m # rest)
                 (concat (map (\<lambda>r. chunk (numel rest) (r * n + (n - 1)) (data a)) [0..<m])))
      | _ \<Rightarrow> Inl IndexError)"

text \<open>
  \<open>initialize_embeddings\<close>:
  \<open>self.embeddings.weight.data.copy_(torch.from_numpy(word_embeddings))\<close>.  The attributes
  are looked up before the argument is evaluated.  The result is the overwritten
  parameter.
\<close>

definition initialize_embeddings :: "'g GalaXCBase \<Rightarrow> real tensor \<Rightarrow> error + real tensor" where
  "initialize_embeddings self word_embeddings =
     bindE (getattr self ''embeddings'') (\<lambda>embeddings.
     bindE (getattr (attr_dict embeddings) ''weight'') (\<lambda>weight.
     bindE (getattr (attr_dict weight) ''data'') (\<lambda>d.
     bindE (the_tensor d) (\<lambda>dst.
       tensor_copy dst word_embeddings))))"

text \<open>
  \<open>initialize_classifier\<close>:
  \<open>self.classifier.weight.data.copy_(torch.from_numpy(clf_weights[:, -1]))\<close> and then
  \<open>self.classifier.bias.data.copy_(torch.from_numpy(clf_weights[:, -1]).view(-1, 1))\<close>.
  The result is the pair of the overwritten parameters.
\<close>

definition initialize_classifier ::
    "'g GalaXCBase \<Rightarrow> real tensor \<Rightarrow> error + real tensor \<times> real tensor" where
  "initialize_classifier self clf_weights =
     bindE (getattr self ''classifier'') (\<lambda>classifier.
     bindE (getattr (attr_dict classifier) ''weight'') (\<lambda>weight.
     bindE (getattr (attr_dict weight) ''data'') (\<lambda>d.
     bindE (the_tensor d) (\<lambda>dst.
     bindE (last_column clf_weights) (\<lambda>col.
     bindE (tensor_copy dst col) (\<lambda>new_weight.
     bindE (getattr self ''classifier'') (\<lambda>classifier.
     bindE (getattr (attr_dict classifier) ''bias'') (\<lambda>bias.
     bindE (getattr (attr_dict bias) ''data'') (\<lambda>d.
     bindE (the_tensor d) (\<lambda>dst.
     bindE (last_column clf_weights) (\<lambda>col.
     bindE (view col [-1, 1]) (\<lambda>col1.
     bindE (tensor_copy dst col1) (\<lambda>new_bias.
       Inr (new_weight, new_bias))))))))))))))"

section \<open>The constructed model\<close>

text \<open>
  The three hops that \<open>_construct_embeddings\<close> builds, and the attribute dictionary at
  the end of a constructor that ran through, with the transforms \<open>f1\<close>, \<open>f2\<close>, \<open>f3\<close>
  and the classifier \<open>c\<close> that were built.
\<close>

definition first_hop :: "device \<Rightarrow> int \<Rightarrow> int \<Rightarrow> int list \<Rightarrow> (nat \<Rightarrow> real) \<Rightarrow> GINEncoder" where
  "first_hop device_name feature_dim embed_dim fanouts eps =
     GINEncoder_init feature_func device_name feature_dim (SumAggregator feature_func)
       (fanouts ! 0) feature_dim embed_dim (eps 0)"

definition second_hop :: "device \<Rightarrow> int \<Rightarrow> int \<Rightarrow> int list \<Rightarrow> (nat \<Rightarrow> real) \<Rightarrow> GINEncoder" where
  "second_hop device_name feature_dim embed_dim fanouts eps =
     GINEncoder_init (hop_features (first_hop device_name feature_dim embed_dim fanouts eps))
       device_name feature_dim
       (SumAggregator (hop_features (first_hop device_name feature_dim embed_dim fanouts eps)))
       (fanouts ! 1) embed_dim embed_dim (eps 1)"

definition third_hop :: "device \<Rightarrow> int \<Rightarrow> int \<Rightarrow> int list \<Rightarrow> (nat \<Rightarrow> real) \<Rightarrow> GINEncoder" where
  "third_hop device_name feature_dim embed_dim fanouts eps =
     GINEncoder_init (hop_features (second_hop device_name feature_dim embed_dim fanouts eps))
       device_name feature_dim
       (SumAggregator (hop_features (second_hop device_name feature_dim embed_dim fanouts eps)))
       (fanouts ! 2) embed_dim embed_dim (eps 2)"

definition constructed_model ::
    "int \<Rightarrow> int \<Rightarrow> device list \<Rightarrow> int \<Rightarrow> int list \<Rightarrow> 'g \<Rightarrow> int \<Rightarrow> real \<Rightarrow> int \<Rightarrow> int
       \<Rightarrow> (nat \<Rightarrow> real)
       \<Rightarrow> (real tensor \<Rightarrow> error + real tensor) \<Rightarrow> (real tensor \<Rightarrow> error + real tensor)
       \<Rightarrow> (real tensor \<Rightarrow> error + real tensor) \<Rightarrow> LinearDistributed \<Rightarrow> 'g GalaXCBase" where
  "constructed_model num_labels hidden_dims device_names feature_dim fanouts graph embed_dim
       dropout num_clf_partitions padding_idx eps f1 f2 f3 c =
     [''graph'' \<mapsto> GraphV graph,
      ''fanouts'' \<mapsto> IntListV fanouts,
      ''num_labels'' \<mapsto> IntV num_labels,
      ''feature_dim'' \<mapsto> IntV feature_dim,
      ''hidden_dims'' \<mapsto> IntV hidden_dims,
      ''embed_dim'' \<mapsto> IntV embed_dim,
      ''device_names'' \<mapsto> DeviceListV device_names,
      ''device_name'' \<mapsto> DeviceV (device_names ! 0),
      ''device_embeddings'' \<mapsto> DeviceV (device_names ! 0),
      ''dropout'' \<mapsto> FloatV dropout,
      ''padding_idx'' \<mapsto> IntV padding_idx,
      ''num_clf_partitions'' \<mapsto> IntV num_clf_partitions,
      ''first_layer_enc'' \<mapsto>
         EncoderV (first_hop (device_names ! 0) feature_dim embed_dim fanouts eps),
      ''second_layer_enc'' \<mapsto>
         EncoderV (second_hop (device_names ! 0) feature_dim embed_dim fanouts eps),
      ''third_layer_enc'' \<mapsto>
         EncoderV (third_hop (device_names ! 0) feature_dim embed_dim fanouts eps),
      ''transform1'' \<mapsto> TransformV f1,
      ''transform2'' \<mapsto> TransformV f2,
      ''transform3'' \<mapsto> TransformV f3,
      ''classifier'' \<mapsto> ClassifierV c]"

text \<open>
  A constructed model: four labels on two devices, three hops of fan-out 2, one feature,
  transforms that return their argument, all parameters 0.
\<close>

definition galaxc_example :: "unit GalaXCBase" where
  "galaxc_example =
     constructed_model 4 1 [''cuda:0'', ''cuda:1''] 1 [2, 2, 2] () 1 (1 / 2) 1 0 (\<lambda>_. 0)
       Inr Inr Inr classifier_4_2"

section \<open>Properties: sequencing of fallible steps\<close>

lemma bindE_Inr [simp]: "bindE (Inr x) f = f x"
  by (simp add: bindE_def)

lemma bindE_Inl [simp]: "bindE (Inl e) f = Inl e"
  by (simp add: bindE_def)

text \<open>
  C1.  The claim promises a contiguous, disjoint, exactly covering table for every
  \<open>num_labels \<ge> 1\<close> and every \<open>N \<ge> 1\<close>.  At \<open>num_labels = 5\<close> and \<open>N = 4\<close> the code
  builds \<open>(0,2), (2,4), (4,5), (6,5)\<close>: only the end of a range is clipped to
  \<open>num_labels\<close>, so the last range starts after its end and after the end of its
  predecessor, and the shard sizes sum to 4.
\<close>

theorem partition_table_5_4:
  "partition_table 5 4 = Inr [(0, 2), (2, 4), (4, 5), (6, 5)]
   \<and> sum_list (map shard_size [(0, 2), (2, 4), (4, 5), (6, 5)]) = 4
   \<and> \<not> valid_partition [(0, 2), (2, 4), (4, 5), (6, 5)] 5"
  by (simp add: partition_table_def ceil_div_def partition_indices_of_def shard_size_def
      valid_partition_def upt_rec)

section \<open>Properties: tensors and aggregators\<close>

lemma infer_size_nat:
  "infer_size (map int s) n = (if numel s = n then Inr s else Inl RuntimeError)"
proof -
  have a: "\<not> (\<exists>d \<in> set (map int s). d < - 1)" by auto
  have b: "- 1 \<notin> set (map int s)" by auto
  have c: "count_list (map int s) (- 1) = 0" using b by (simp add: count_list_0_iff)
  have d: "filter (\<lambda>d. d \<noteq> - 1) (map int s) = map int s"
    using b by (metis (mono_tags, lifting) filter_True)
  have e: "nat (prod_list (map int s)) = prod_list s"
    by (induction s) (simp_all add: nat_mult_distrib)
  show ?thesis
    unfolding infer_size_def using a b c d e
    by (simp add: numel_def Let_def comp_def del: set_map)
qed

lemma view_nat:
  "view t (map int s) = (if numel s = numel (shape t) then Inr (Tensor s (data t)) else Inl RuntimeError)"
  by (simp add: view_def infer_size_nat)

lemma trunc_div_nat: "0 < b \<Longrightarrow> trunc_div (int a) (int b) = Inr (int (a div b))"
  by (simp add: trunc_div_def zdiv_int sgn_if)

lemma aggregate_view_matrix:
  assumes "shape nf = [r, d]" "0 < B"
  shows "aggregate_view nf (int B) =
     (if B * (r div B) * d = r * d then Inr (Tensor [B, r div B, d] (data nf)) else Inl RuntimeError)"
proof -
  have "view nf [int B, int (r div B), int d] = view nf (map int [B, r div B, d])" by simp
  then show ?thesis
    using assms unfolding aggregate_view_def
    by (simp add: shape_first_def shape_last_def trunc_div_nat view_nat numel_def del: list.map)
qed

lemma reduce_dim_1_of_3:
  assumes "shape t = [B, k, d]"
  shows "reduce_dim f t (Suc 0) = Inr (Tensor [B, d]
     (concat (map (\<lambda>r. map (\<lambda>i. f (map (\<lambda>j. data t ! ((r * k + j) * d + i)) [0..<k])) [0..<d]) [0..<B])))"
  using assms by (simp add: reduce_dim_def numel_def)

lemma length_concat_map_const:
  "(\<And>x. x \<in> set xs \<Longrightarrow> length (f x) = n) \<Longrightarrow> length (concat (map f xs)) = length xs * n"
  by (induction xs) simp_all


lemma aggregate_ok:
  assumes "features neighs = Inr nf" "has_shape nf [B * k, d]" "0 < B"
  shows "MeanAggregator_forward features neighs (int B) = Inr (Tensor [B, d]
     (concat (map (\<lambda>r. map (\<lambda>i. sum_list (map (\<lambda>j. data nf ! ((r * k + j) * d + i)) [0..<k]) / real k) [0..<d]) [0..<B])))"
    and "SumAggregator_forward features neighs (int B) = Inr (Tensor [B, d]
     (concat (map (\<lambda>r. map (\<lambda>i. sum_list (map (\<lambda>j. data nf ! ((r * k + j) * d + i)) [0..<k])) [0..<d]) [0..<B])))"
proof -
  have sh: "shape nf = [B * k, d]" using assms(2) by (simp add: has_shape_def)
  have v: "aggregate_view nf (int B) = Inr (Tensor [B, k, d] (data nf))"
    using aggregate_view_matrix [OF sh assms(3)] assms(3) by simp
  show "MeanAggregator_forward features neighs (int B) = Inr (Tensor [B, d]
     (concat (map (\<lambda>r. map (\<lambda>i. sum_list (map (\<lambda>j. data nf ! ((r * k + j) * d + i)) [0..<k]) / real k) [0..<d]) [0..<B])))"
    by (simp add: MeanAggregator_forward_def assms(1) v tensor_mean_def reduce_dim_1_of_3)
  show "SumAggregator_forward features neighs (int B) = Inr (Tensor [B, d]
     (concat (map (\<lambda>r. map (\<lambda>i. sum_list (map (\<lambda>j. data nf ! ((r * k + j) * d + i)) [0..<k])) [0..<d]) [0..<B])))"
    by (simp add: SumAggregator_forward_def assms(1) v tensor_sum_def reduce_dim_1_of_3)
qed



text \<open>
  C8.  As stated the claim fails for a matrix without columns: a \<open>(3, 0)\<close> matrix and
  \<open>node_count = 2\<close> are not divisible, yet \<open>view(2, 1, 0)\<close> matches the element count 0
  and both aggregators return a \<open>(2, 0)\<close> matrix.
\<close>

theorem aggregate_zero_columns_no_error:
  "\<not> 2 dvd (3::nat)
   \<and> MeanAggregator_forward Inr (Tensor [3, 0] []) 2 = Inr (Tensor [2, 0] [])
   \<and> SumAggregator_forward Inr (Tensor [3, 0] []) 2 = Inr (Tensor [2, 0] [])"
  by (simp add: MeanAggregator_forward_def SumAggregator_forward_def aggregate_view_def
      shape_first_def shape_last_def
      trunc_div_def view_def infer_size_def numel_def tensor_mean_def tensor_sum_def reduce_dim_def upt_rec)

text \<open>
  C8, amended.  For \<open>node_count \<ge> 1\<close> and a neighbour-feature matrix with at least one
  column, both aggregators raise the shape error when the number of rows is not
  divisible by \<open>node_count\<close>; when it is divisible (with any number of columns) both
  complete and return a \<open>(node_count, d)\<close> matrix.
\<close>

theorem aggregate_error_iff_not_divisible:
  assumes "features neighs = Inr nf" and "has_shape nf [r, d]" and "1 \<le> B"
  shows "(1 \<le> d \<and> \<not> B dvd r \<longrightarrow>
            MeanAggregator_forward features neighs (int B) = Inl RuntimeError
          \<and> SumAggregator_forward features neighs (int B) = Inl RuntimeError)
       \<and> (B dvd r \<longrightarrow>
            (\<exists>m. MeanAggregator_forward features neighs (int B) = Inr m \<and> has_shape m [B, d])
          \<and> (\<exists>s. SumAggregator_forward features neighs (int B) = Inr s \<and> has_shape s [B, d]))"
proof (intro conjI impI)
  have B: "0 < B" using assms(3) by simp
  have sh: "shape nf = [r, d]" using assms(2) by (simp add: has_shape_def)
  {
    assume a: "1 \<le> d \<and> \<not> B dvd r"
    then have "B * (r div B) \<noteq> r" by (metis dvd_triv_left)
    then have "B * (r div B) * d \<noteq> r * d" using a by simp
    then have v: "aggregate_view nf (int B) = Inl RuntimeError"
      using aggregate_view_matrix [OF sh B] by simp
    show "MeanAggregator_forward features neighs (int B) = Inl RuntimeError"
      by (simp add: MeanAggregator_forward_def assms(1) v)
    show "SumAggregator_forward features neighs (int B) = Inl RuntimeError"
      by (simp add: SumAggregator_forward_def assms(1) v)
  }
  {
    assume "B dvd r"
    then obtain k where r: "r = B * k" by (auto simp: dvd_def)
    have hs: "has_shape nf [B * k, d]" using assms(2) r by simp
    note ok = aggregate_ok [of features neighs nf B k d, OF assms(1) hs B]
    show "\<exists>m. MeanAggregator_forward features neighs (int B) = Inr m \<and> has_shape m [B, d]"
      unfolding ok by (simp add: has_shape_def numel_def length_concat_map_const)
    show "\<exists>s. SumAggregator_forward features neighs (int B) = Inr s \<and> has_shape s [B, d]"
      unfolding ok by (simp add: has_shape_def numel_def length_concat_map_const)
  }
qed

theorem aggregate_error_iff_not_divisible_witness:
  "has_shape (Tensor [3, 1] [1, 2, 3 :: real]) [3, 1] \<and> (1::nat) \<le> 2 \<and> \<not> (2::nat) dvd 3
   \<and> MeanAggregator_forward Inr (Tensor [3, 1] [1, 2, 3]) (int 2) = Inl RuntimeError
   \<and> SumAggregator_forward Inr (Tensor [3, 1] [1, 2, 3]) (int 2) = Inl RuntimeError"
proof -
  have h: "has_shape (Tensor [3, 1] [1, 2, 3 :: real]) [3, 1]"
    by (simp add: has_shape_def numel_def)
  show ?thesis
    using h aggregate_error_iff_not_divisible [of Inr "Tensor [3, 1] [1, 2, 3]" "Tensor [3, 1] [1, 2, 3]" 3 1 2]
    by simp
qed

section \<open>Properties: shapes of the tensor operations\<close>

lemma returns_shapeI: "r = Inr c \<Longrightarrow> has_shape c s \<Longrightarrow> returns_shape r s"
  by (auto simp: returns_shape_def)

lemma returns_shapeE:
  assumes "returns_shape r s"
  obtains c where "r = Inr c" "has_shape c s"
  using assms by (auto simp: returns_shape_def)

lemma bindE_returns:
  assumes "returns_shape m s" and "\<And>c. has_shape c s \<Longrightarrow> returns_shape (f c) s'"
  shows "returns_shape (bindE m f) s'"
  using assms by (auto simp: returns_shape_def)

lemma numel_simps [simp]: "numel [] = 1" "numel (n # s) = n * numel s" "numel (s @ t) = numel s * numel t"
  by (simp_all add: numel_def)

lemma length_chunk: "(Suc i) * w \<le> length xs \<Longrightarrow> length (chunk w i xs) = w"
  by (simp add: chunk_def)

lemma length_chunk_lt:
  assumes "i < m" "length xs = m * w"
  shows "length (chunk w i xs) = w"
proof -
  have "Suc i * w \<le> m * w" using assms(1) by (intro mult_le_mono1) simp
  then show ?thesis using assms(2) by (simp add: length_chunk)
qed

lemma unsqueeze_ok:
  "has_shape t s \<Longrightarrow> d \<le> length s \<Longrightarrow> returns_shape (unsqueeze t d) (take d s @ 1 # drop d s)"
proof -
  assume a: "has_shape t s" "d \<le> length s"
  have "numel (take d s) * numel (drop d s) = numel s"
    by (metis append_take_drop_id numel_simps(3))
  then show ?thesis using a
    by (simp add: returns_shape_def unsqueeze_def has_shape_def)
qed

lemma softmax1_ok:
  "has_shape t (m # n # rest) \<Longrightarrow> returns_shape (softmax1 t) (m # n # rest)"
  by (simp add: returns_shape_def softmax1_def has_shape_def length_concat_map_const Let_def)

lemma transpose_ok: "has_shape t [n, m] \<Longrightarrow> returns_shape (transpose_t t) [m, n]"
  by (simp add: returns_shape_def transpose_t_def has_shape_def length_concat_map_const)

lemma mm_ok: "has_shape a [n, m] \<Longrightarrow> has_shape b [m, p] \<Longrightarrow> returns_shape (mm a b) [n, p]"
  by (simp add: returns_shape_def mm_def has_shape_def length_concat_map_const)

lemma infer_size_lead:
  assumes "0 < numel s"
  shows "infer_size (- 1 # map int s) n =
     (if n mod numel s = 0 then Inr (n div numel s # s) else Inl RuntimeError)"
proof -
  have a: "\<not> (\<exists>d \<in> set (map int s). d < - 1)" by auto
  have b: "- 1 \<notin> set (map int s)" by auto
  have c: "count_list (map int s) (- 1) = 0" using b by (simp add: count_list_0_iff)
  have d: "filter (\<lambda>d. d \<noteq> - 1) (map int s) = map int s"
    using b by (metis (mono_tags, lifting) filter_True)
  have e: "nat (prod_list (map int s)) = prod_list s"
    by (induction s) (simp_all add: nat_mult_distrib)
  have "map (\<lambda>d. if d = - 1 then k else nat d) (map int s) = s" for k
    by (induction s) auto
  then have f: "map (\<lambda>d. if d = - 1 then n div numel s else nat d) (map int s) = s" .
  show ?thesis
    unfolding infer_size_def using a b c d e f assms
    by (simp add: numel_def Let_def comp_def del: set_map)
qed

lemma view_lead_ok:
  assumes "has_shape t s" "0 < numel s'" "numel s' dvd numel s"
  shows "returns_shape (view t (- 1 # map int s')) (numel s div numel s' # s')"
  using assms
  by (auto simp: view_def infer_size_lead returns_shape_def has_shape_def)

lemma view_flat_ok:
  assumes "has_shape t s"
  shows "returns_shape (view t [- 1]) [numel s]"
  using view_lead_ok [OF assms, of "[]"] by simp

lemma view_cols_ok:
  assumes "has_shape t s" "0 < d" "d dvd numel s"
  shows "returns_shape (view t [- 1, int d]) [numel s div d, d]"
  using view_lead_ok [OF assms(1), of "[d]"] assms(2,3) by simp


lemma length_concat_replicate: "length (concat (replicate n ys)) = n * length ys"
  by (induction n) simp_all

lemma length_expand_data:
  "list_all2 compat src tgt \<Longrightarrow> length xs = numel src \<Longrightarrow>
   length (expand_data src tgt xs) = numel tgt"
proof (induction src tgt xs rule: expand_data.induct)
  case (1 m ms n ns xs)
  from "1.prems"(1) have c: "compat m n" and r: "list_all2 compat ms ns" by simp_all
  show ?case
  proof (cases "m = n")
    case True
    have "length (expand_data ms ns (chunk (numel ms) i xs)) = numel ns" if "i \<in> set [0..<m]" for i
    proof -
      from that have "i < m" by simp
      then have "length (chunk (numel ms) i xs) = numel ms"
        using "1.prems"(2) by (intro length_chunk_lt [of i m]) simp_all
      then show ?thesis using "1.IH"(1) [OF True that r] by simp
    qed
    then have "length (concat (map (\<lambda>i. expand_data ms ns (chunk (numel ms) i xs)) [0..<m]))
        = length [0..<m] * numel ns"
      by (rule length_concat_map_const)
    then show ?thesis using True by simp
  next
    case False
    then have m1: "m = 1" using c by (simp add: compat_def)
    then have "length xs = numel ms" using "1.prems"(2) by simp
    then have "length (expand_data ms ns xs) = numel ns" using "1.IH"(2) [OF False r] by simp
    then show ?thesis using False by (simp add: length_concat_replicate)
  qed
qed simp_all

lemma broadcast_rev_compat:
  "broadcast_rev xs ys = Inr zs \<Longrightarrow>
     list_all2 compat (xs @ replicate (length zs - length xs) 1) zs
   \<and> list_all2 compat (ys @ replicate (length zs - length ys) 1) zs"
proof (induction xs ys arbitrary: zs rule: broadcast_rev.induct)
  case (1 ys)
  then show ?case
    by (auto simp: compat_def list_all2_conv_all_nth)
next
  case (2 x xs)
  then show ?case
    by (auto simp: compat_def list_all2_conv_all_nth nth_Cons split: nat.splits)
next
  case (3 x xs y ys)
  show ?case
  proof (cases "x = y \<or> x = 1 \<or> y = 1")
    case True
    with "3.prems" obtain zs' where z: "broadcast_rev xs ys = Inr zs'"
      and zs: "zs = (if x = 1 then y else x) # zs'"
      by (cases "broadcast_rev xs ys") auto
    from "3.IH" [OF True z] True zs show ?thesis
      by (auto simp: compat_def)
  next
    case False
    with "3.prems" show ?thesis by simp
  qed
qed

lemma broadcast_shapes_compat:
  assumes "broadcast_shapes a b = Inr s"
  shows "list_all2 compat (replicate (length s - length a) 1 @ a) s"
    and "list_all2 compat (replicate (length s - length b) 1 @ b) s"
proof -
  from assms obtain zs where z: "broadcast_rev (rev a) (rev b) = Inr zs" and s: "s = rev zs"
    by (cases "broadcast_rev (rev a) (rev b)") (auto simp: broadcast_shapes_def)
  from broadcast_rev_compat [OF z]
  have 1: "list_all2 compat (rev a @ replicate (length zs - length a) 1) zs"
    and 2: "list_all2 compat (rev b @ replicate (length zs - length b) 1) zs" by simp_all
  have r: "rev (replicate k (1::nat) @ c) = rev c @ replicate k 1" for k c by simp
  show "list_all2 compat (replicate (length s - length a) 1 @ a) s"
    using 1 unfolding s by (subst list_all2_rev [symmetric]) (simp only: r rev_rev_ident length_rev)
  show "list_all2 compat (replicate (length s - length b) 1 @ b) s"
    using 2 unfolding s by (subst list_all2_rev [symmetric]) (simp only: r rev_rev_ident length_rev)
qed

lemma numel_replicate_1 [simp]: "numel (replicate k (Suc 0)) = Suc 0"
  by (induction k) simp_all

lemma binop_ok:
  assumes "has_shape a sa" "has_shape b sb" "broadcast_shapes sa sb = Inr s"
  shows "returns_shape (tensor_binop f a b) s"
proof -
  have la: "length (expand_to s a) = numel s"
    unfolding expand_to_def using assms(1) broadcast_shapes_compat(1) [OF assms(3)]
    by (intro length_expand_data) (simp_all add: has_shape_def)
  have lb: "length (expand_to s b) = numel s"
    unfolding expand_to_def using assms(2) broadcast_shapes_compat(2) [OF assms(3)]
    by (intro length_expand_data) (simp_all add: has_shape_def)
  show ?thesis
    using assms la lb by (simp add: tensor_binop_def returns_shape_def has_shape_def)
qed

lemma broadcast_mul_shapes: "broadcast_shapes [n, 1, i] [n, 3, 1] = Inr [n, 3, i]"
  by (simp add: broadcast_shapes_def)

lemma broadcast_bias_shapes: "broadcast_shapes [b, n] [n] = Inr [b, n]"
  by (simp add: broadcast_shapes_def)


lemma new_tensor_ok:
  "new_tensor sizes vals = Inr t \<longleftrightarrow>
     (list_all (\<lambda>d. 0 \<le> d) sizes \<and> t = Tensor (map nat sizes) (map vals [0..<numel (map nat sizes)]))"
proof (cases "list_ex (\<lambda>d. d < 0) sizes")
  case True
  then obtain d where "d \<in> set sizes" "d < 0" by (auto simp: list_ex_iff)
  then have "\<not> list_all (\<lambda>d. 0 \<le> d) sizes"
    unfolding list_all_iff using linorder_not_le by blast
  with True show ?thesis by (simp add: new_tensor_def)
next
  case False
  then have "list_all (\<lambda>d. 0 \<le> d) sizes" by (auto simp: list_ex_iff list_all_iff not_less)
  with False show ?thesis by (auto simp: new_tensor_def)
qed

lemma new_tensor_shape: "new_tensor sizes vals = Inr t \<Longrightarrow> has_shape t (map nat sizes)"
  by (simp add: new_tensor_ok has_shape_def)

lemma LinearChunk_init_ok:
  assumes "LinearChunk_init input_size output_size dev True vals = Inr c"
  shows "0 \<le> output_size \<and> 0 < input_size \<and> shard_ok c (nat output_size) (nat input_size)"
proof -
  from assms obtain w where w: "new_tensor [output_size, input_size] (vals 0) = Inr w"
    by (cases "new_tensor [output_size, input_size] (vals 0)") (auto simp: LinearChunk_init_def)
  from assms w obtain b where b: "new_tensor [output_size] (vals 1) = Inr b"
    by (cases "new_tensor [output_size] (vals 1)") (auto simp: LinearChunk_init_def)
  from assms w b obtain a where a: "new_tensor [output_size, 3] (vals 2) = Inr a"
    by (cases "new_tensor [output_size, 3] (vals 2)") (auto simp: LinearChunk_init_def)
  from assms w b a have nz: "input_size \<noteq> 0"
    and c: "c = \<lparr> lc_device_embeddings = dev, lc_input_size = input_size,
                lc_output_size = output_size, lc_weight = w, lc_bias = Some b,
                lc_attention_weights = a, lc_sparse = False \<rparr>"
    by (auto simp: LinearChunk_init_def split: if_splits)
  from w have pos: "0 \<le> output_size" "0 \<le> input_size" by (simp_all add: new_tensor_ok)
  show ?thesis
    using new_tensor_shape [OF w] new_tensor_shape [OF b] new_tensor_shape [OF a] nz pos
    by (simp add: shard_ok_def c)
qed

lemma LinearChunk_init_succeeds:
  assumes "0 \<le> output_size" "0 < input_size"
  shows "\<exists>c. LinearChunk_init input_size output_size dev True vals = Inr c"
  using assms by (simp add: LinearChunk_init_def new_tensor_def)

lemma LinearChunk_init_negative:
  "output_size < 0 \<Longrightarrow> LinearChunk_init input_size output_size dev True vals = Inl RuntimeError"
  by (simp add: LinearChunk_init_def new_tensor_def)

lemma LinearChunk_forward_dense_ok:
  assumes c: "shard_ok c n i" and e: "has_shape input0 [b, 3 * i]"
  shows "returns_shape (LinearChunk_forward_dense c input0) [b, n]"
proof -
  from c obtain bias where i: "0 < i" and w: "has_shape (lc_weight c) [n, i]"
    and bias: "lc_bias c = Some bias" "has_shape bias [n]"
    and a: "has_shape (lc_attention_weights c) [n, 3]"
    by (auto simp: shard_ok_def)
  have d: "shape_last input0 = Inr (3 * i)" using e by (simp add: shape_last_def has_shape_def)
  obtain w1 where w1: "unsqueeze (lc_weight c) 1 = Inr w1" "has_shape w1 [n, 1, i]"
    using unsqueeze_ok [OF w, of 1] by (auto elim: returns_shapeE)
  obtain a1 where a1: "softmax1 (lc_attention_weights c) = Inr a1" "has_shape a1 [n, 3]"
    using softmax1_ok [OF a] by (auto elim: returns_shapeE)
  obtain a2 where a2: "unsqueeze a1 2 = Inr a2" "has_shape a2 [n, 3, 1]"
    using unsqueeze_ok [OF a1(2), of 2] by (auto elim: returns_shapeE)
  obtain ww where ww: "tensor_mul w1 a2 = Inr ww" "has_shape ww [n, 3, i]"
    using binop_ok [OF w1(2) a2(2) broadcast_mul_shapes] unfolding tensor_mul_def
    by (auto elim: returns_shapeE)
  have "returns_shape (view ww [- 1, int (3 * i)]) [numel [n, 3, i] div (3 * i), 3 * i]"
    using i by (intro view_cols_ok [OF ww(2)]) simp_all
  moreover have "numel [n, 3, i] div (3 * i) = n" using i by simp
  ultimately obtain wv where wv: "view ww [- 1, int (3 * i)] = Inr wv" "has_shape wv [n, 3 * i]"
    by (auto elim: returns_shapeE)
  obtain wt where wt: "transpose_t wv = Inr wt" "has_shape wt [3 * i, n]"
    using transpose_ok [OF wv(2)] by (auto elim: returns_shapeE)
  obtain xm where xm: "mm input0 wt = Inr xm" "has_shape xm [b, n]"
    using mm_ok [OF e wt(2)] by (auto elim: returns_shapeE)
  obtain bv where bv: "view bias [- 1] = Inr bv" "has_shape bv [n]"
    using view_flat_ok [OF bias(2)] by (auto elim: returns_shapeE)
  have "returns_shape (tensor_add xm bv) [b, n]"
    unfolding tensor_add_def by (rule binop_ok [OF xm(2) bv(2) broadcast_bias_shapes])
  then show ?thesis
    by (simp only: LinearChunk_forward_dense_def w1(1) a1(1) a2(1) ww(1) d wv(1) wt(1) xm(1) bv(1)
        bias_for_call_def bias(1) bindE_Inr option.case)
qed

lemma bindE_eq_Inr: "bindE m f = Inr y \<longleftrightarrow> (\<exists>x. m = Inr x \<and> f x = Inr y)"
  by (cases m) simp_all

lemma mapE_Inr_iff: "mapE f xs = Inr ys \<longleftrightarrow> list_all2 (\<lambda>x y. f x = Inr y) xs ys"
proof (induction xs arbitrary: ys)
  case Nil
  then show ?case by auto
next
  case (Cons x xs)
  have "mapE f (x # xs) = Inr ys \<longleftrightarrow> (\<exists>z zs. f x = Inr z \<and> mapE f xs = Inr zs \<and> ys = z # zs)"
    by (simp add: bindE_eq_Inr) blast
  also have "\<dots> \<longleftrightarrow> (\<exists>z zs. ys = z # zs \<and> f x = Inr z \<and> list_all2 (\<lambda>x y. f x = Inr y) xs zs)"
    using Cons.IH by blast
  also have "\<dots> \<longleftrightarrow> list_all2 (\<lambda>x y. f x = Inr y) (x # xs) ys"
    by (simp add: list_all2_Cons1)
  finally show ?case .
qed

lemma mapE_total:
  assumes "\<And>x. x \<in> set xs \<Longrightarrow> \<exists>y. f x = Inr y"
  shows "\<exists>ys. mapE f xs = Inr ys"
  using assms
proof (induction xs)
  case Nil
  then show ?case by simp
next
  case (Cons x xs)
  from Cons.prems obtain y where y: "f x = Inr y" by (meson list.set_intros(1))
  from Cons.IH Cons.prems obtain ys where "mapE f xs = Inr ys" by (meson list.set_intros(2))
  with y show ?case by simp
qed

lemma mapE_upt_nth:
  assumes "mapE f [0..<n] = Inr ys" "i < n"
  shows "length ys = n" "f i = Inr (ys ! i)"
proof -
  from assms(1) have l: "list_all2 (\<lambda>x y. f x = Inr y) [0..<n] ys" by (simp add: mapE_Inr_iff)
  then have "length [0..<n] = length ys" by (rule list_all2_lengthD)
  then show "length ys = n" by simp
  from l have "f ([0..<n] ! i) = Inr (ys ! i)"
    by (rule list_all2_nthD) (simp add: assms(2))
  then show "f i = Inr (ys ! i)" using assms(2) by simp
qed

lemma concat_chunks_take: "concat (map (\<lambda>r. chunk w r xs) [0..<m]) = take (m * w) xs"
proof (induction m)
  case 0
  then show ?case by simp
next
  case (Suc m)
  have "take (m * w) xs @ take w (drop (m * w) xs) = take (m * w + w) xs"
    by (simp add: take_add)
  then show ?case using Suc by (simp add: chunk_def add.commute)
qed

lemma concat_chunks: "length xs = m * w \<Longrightarrow> concat (map (\<lambda>r. chunk w r xs) [0..<m]) = xs"
  by (simp add: concat_chunks_take)

lemma take_drop_concat_nth:
  "i < length bs \<Longrightarrow>
   take (length (bs ! i)) (drop (sum_list (map length (take i bs))) (concat bs)) = bs ! i"
proof (induction bs arbitrary: i)
  case Nil
  then show ?case by simp
next
  case (Cons b bs)
  then show ?case by (cases i) simp_all
qed

lemma sum_length_take_uniform:
  "(\<And>b. b \<in> set bs \<Longrightarrow> length b = w) \<Longrightarrow> r \<le> length bs \<Longrightarrow>
   sum_list (map length (take r bs)) = r * w"
proof (induction bs arbitrary: r)
  case Nil
  then show ?case by simp
next
  case (Cons b bs)
  show ?case
  proof (cases r)
    case 0
    then show ?thesis by simp
  next
    case (Suc r')
    have "sum_list (map length (take r' bs)) = r' * w"
      using Cons.prems Suc by (intro Cons.IH) simp_all
    moreover have "length b = w" using Cons.prems(1) by simp
    ultimately show ?thesis using Suc by simp
  qed
qed

lemma chunk_concat_uniform:
  assumes "\<And>b. b \<in> set bs \<Longrightarrow> length b = w" "r < length bs"
  shows "chunk w r (concat bs) = bs ! r"
proof -
  have "sum_list (map length (take r bs)) = r * w"
    using assms by (intro sum_length_take_uniform) simp_all
  moreover have "length (bs ! r) = w" using assms by simp
  ultimately show ?thesis
    using take_drop_concat_nth [OF assms(2)] by (simp add: chunk_def)
qed


lemma slice_index_nat: "slice_index n (int a) = min n a"
  by (simp add: slice_index_def)

lemma cat_cols:
  assumes ne: "ts \<noteq> []" and sh: "list_all2 (\<lambda>t w. has_shape t [b, w]) ts ws"
  shows "\<exists>out. cat ts 1 = Inr out \<and> has_shape out [b, sum_list ws]
           \<and> (\<forall>i < length ts.
                 slice_cols out (int (sum_list (take i ws))) (int (sum_list (take (Suc i) ws)))
                   = Inr (ts ! i))"
proof -
  have len: "length ts = length ws" using sh by (rule list_all2_lengthD)
  have shp: "shape (ts ! j) = [b, ws ! j]" and dl: "length (data (ts ! j)) = b * (ws ! j)"
    if "j < length ts" for j
    using list_all2_nthD [OF sh that] by (simp_all add: has_shape_def)
  have shp_set: "\<exists>w. shape t = [b, w] \<and> length (data t) = b * w" if "t \<in> set ts" for t
    using that shp dl by (metis in_set_conv_nth)
  have filt: "filter (\<lambda>t. shape t \<noteq> [0]) ts = ts"
  proof (rule filter_True, rule ballI)
    fix t assume "t \<in> set ts"
    then obtain w where "shape t = [b, w]" using shp_set by blast
    then show "shape t \<noteq> [0]" by simp
  qed
  have hd_sh: "shape (hd ts) = [b, hd ws]"
    using ne len shp [of 0] by (cases ts; cases ws) simp_all
  have all_ok: "list_all (\<lambda>t. length (shape t) = length (shape (hd ts))
        \<and> take 1 (shape t) = take 1 (shape (hd ts))
        \<and> drop (Suc 1) (shape t) = drop (Suc 1) (shape (hd ts))) ts"
    unfolding list_all_iff hd_sh
  proof (rule ballI)
    fix t assume "t \<in> set ts"
    then obtain w where "shape t = [b, w]" using shp_set by blast
    then show "length (shape t) = length [b, hd ws] \<and> take 1 (shape t) = take 1 [b, hd ws]
        \<and> drop (Suc 1) (shape t) = drop (Suc 1) [b, hd ws]" by simp
  qed
  have widths: "map (\<lambda>t. shape t ! 1) ts = ws"
  proof (rule nth_equalityI)
    show "length (map (\<lambda>t. shape t ! 1) ts) = length ws" using len by simp
  next
    fix j assume "j < length (map (\<lambda>t. shape t ! 1) ts)"
    then have j: "j < length ts" by simp
    show "map (\<lambda>t. shape t ! 1) ts ! j = ws ! j" using j shp [OF j] by simp
  qed
  define row where "row r = concat (map (\<lambda>t. chunk (numel (drop 1 (shape t))) r (data t)) ts)" for r
  define out where "out = Tensor [b, sum_list ws] (concat (map row [0..<b]))"
  have cat_eq: "cat ts 1 = Inr out"
    using ne all_ok unfolding cat_def filt Let_def out_def row_def hd_sh widths [symmetric]
    by simp
  have blocks: "map (\<lambda>t. chunk (numel (drop 1 (shape t))) r (data t)) ts
      = map (\<lambda>j. chunk (ws ! j) r (data (ts ! j))) [0..<length ts]" for r
  proof (rule nth_equalityI)
    show "length (map (\<lambda>t. chunk (numel (drop 1 (shape t))) r (data t)) ts)
        = length (map (\<lambda>j. chunk (ws ! j) r (data (ts ! j))) [0..<length ts])" by simp
  next
    fix j assume "j < length (map (\<lambda>t. chunk (numel (drop 1 (shape t))) r (data t)) ts)"
    then have j: "j < length ts" by simp
    show "map (\<lambda>t. chunk (numel (drop 1 (shape t))) r (data t)) ts ! j
        = map (\<lambda>j. chunk (ws ! j) r (data (ts ! j))) [0..<length ts] ! j"
      using j shp [OF j] by simp
  qed
  have block_lens: "map length (map (\<lambda>j. chunk (ws ! j) r (data (ts ! j))) [0..<length ts]) = ws"
    if "r < b" for r
  proof (rule nth_equalityI)
    show "length (map length (map (\<lambda>j. chunk (ws ! j) r (data (ts ! j))) [0..<length ts])) = length ws"
      using len by simp
  next
    fix j assume "j < length (map length (map (\<lambda>j. chunk (ws ! j) r (data (ts ! j))) [0..<length ts]))"
    then have j: "j < length ts" by simp
    have "length (chunk (ws ! j) r (data (ts ! j))) = ws ! j"
      using that dl [OF j] by (intro length_chunk_lt [of r b]) simp_all
    then show "map length (map (\<lambda>j. chunk (ws ! j) r (data (ts ! j))) [0..<length ts]) ! j = ws ! j"
      using j by simp
  qed
  have block_len: "length (chunk (ws ! j) r (data (ts ! j))) = ws ! j" if "j < length ts" "r < b" for j r
    using that dl [of j] by (intro length_chunk_lt [of r b]) simp_all
  have row_len: "length (row r) = sum_list ws" if "r < b" for r
  proof -
    show ?thesis unfolding row_def blocks length_concat block_lens [OF that] ..
  qed
  have "length (concat (map row [0..<b])) = length [0..<b] * sum_list ws"
    by (rule length_concat_map_const) (simp add: row_len)
  then have out_len: "length (concat (map row [0..<b])) = b * sum_list ws" by simp
  have hs: "has_shape out [b, sum_list ws]"
    using out_len by (simp add: has_shape_def out_def)
  have sl: "slice_cols out (int (sum_list (take i ws))) (int (sum_list (take (Suc i) ws)))
      = Inr (ts ! i)" if i: "i < length ts" for i
  proof -
    let ?A = "sum_list (take i ws)"
    have iw: "i < length ws" using i len by simp
    have A': "sum_list (take (Suc i) ws) = ?A + ws ! i"
      using iw by (simp add: take_Suc_conv_app_nth)
    have "sum_list ws = sum_list (take (Suc i) ws) + sum_list (drop (Suc i) ws)"
      by (metis append_take_drop_id sum_list_append)
    then have le: "?A + ws ! i \<le> sum_list ws" using A' by simp
    have lo: "slice_index (sum_list ws) (int ?A) = ?A"
      using le by (simp add: slice_index_nat)
    have hi: "slice_index (sum_list ws) (int (sum_list (take (Suc i) ws))) = ?A + ws ! i"
      unfolding slice_index_nat A' using le by simp
    have rowr: "chunk (sum_list ws) r (concat (map row [0..<b])) = row r" if rb: "r < b" for r
    proof -
      have "length x = sum_list ws" if "x \<in> set (map row [0..<b])" for x
        using that row_len by auto
      then have "chunk (sum_list ws) r (concat (map row [0..<b])) = map row [0..<b] ! r"
        using rb by (intro chunk_concat_uniform) simp_all
      then show ?thesis using rb by simp
    qed
    have pick: "take (ws ! i) (drop ?A (row r)) = chunk (ws ! i) r (data (ts ! i))" if r: "r < b" for r
    proof -
      let ?bs = "map (\<lambda>j. chunk (ws ! j) r (data (ts ! j))) [0..<length ts]"
      have a: "?bs ! i = chunk (ws ! i) r (data (ts ! i))" using i by simp
      have "map length ?bs = ws" by (rule block_lens [OF r])
      then have b: "sum_list (map length (take i ?bs)) = ?A"
        by (metis take_map)
      have c: "length (?bs ! i) = ws ! i" using a block_len [OF i r] by simp
      have "take (length (?bs ! i)) (drop (sum_list (map length (take i ?bs))) (concat ?bs)) = ?bs ! i"
        using i by (intro take_drop_concat_nth) simp
      then show ?thesis unfolding b a row_def blocks block_len [OF i r] .
    qed
    have "concat (map (\<lambda>r. take (ws ! i) (drop ?A (chunk (sum_list ws) r (concat (map row [0..<b])))))
             [0..<b]) = concat (map (\<lambda>r. chunk (ws ! i) r (data (ts ! i))) [0..<b])"
      using rowr pick by (intro arg_cong [where f = concat] map_cong) simp_all
    also have "\<dots> = data (ts ! i)"
      using dl [OF i] by (intro concat_chunks) simp
    finally have d: "concat (map (\<lambda>r. take (ws ! i) (drop ?A (chunk (sum_list ws) r (concat (map row [0..<b])))))
             [0..<b]) = data (ts ! i)" .
    have "slice_cols out (int ?A) (int (sum_list (take (Suc i) ws)))
        = Inr (Tensor [b, ws ! i] (data (ts ! i)))"
      unfolding slice_cols_def out_def using d lo hi by (simp add: Let_def)
    moreover have "Tensor [b, ws ! i] (data (ts ! i)) = ts ! i"
      using shp [OF i] by (cases "ts ! i") simp
    ultimately show ?thesis by simp
  qed
  show ?thesis using cat_eq hs sl by blast
qed

lemma contiguous_partition_indices:
  assumes "0 \<le> p" "\<forall>i<n. int i * p \<le> L" "L \<le> int n * p" "k < n"
  shows "contiguous_from (int k * p) (map (\<lambda>i. (int i * p, min (int i * p + p) L)) [k..<n]) L"
  using assms(4)
proof (induction "n - k" arbitrary: k)
  case 0
  then show ?case by simp
next
  case (Suc d)
  have kl: "int k * p \<le> L" using assms(2) Suc.prems by simp
  have up: "[k..<n] = k # [Suc k..<n]" using Suc.prems by (simp add: upt_rec)
  show ?case
  proof (cases "Suc k < n")
    case True
    then have "int (Suc k) * p \<le> L" using assms(2) by blast
    then have e: "min (int k * p + p) L = int (Suc k) * p" by (simp add: algebra_simps)
    have "contiguous_from (int (Suc k) * p) (map (\<lambda>i. (int i * p, min (int i * p + p) L)) [Suc k..<n]) L"
      using Suc.hyps True by (intro Suc.hyps(1)) simp_all
    then show ?thesis unfolding up using kl assms(1) e by simp
  next
    case False
    then have n: "n = Suc k" using Suc.prems by simp
    have "L \<le> int k * p + p" using assms(3) n by (simp add: algebra_simps)
    then have e: "min (int k * p + p) L = L" by simp
    show ?thesis unfolding up using kl assms(1) e n by simp
  qed
qed

lemma contiguous_sum:
  "contiguous_from a rs b \<Longrightarrow> sum_list (map shard_size rs) = b - a"
  by (induction a rs b rule: contiguous_from.induct) (simp_all add: shard_size_def)

lemma contiguous_prefix:
  "contiguous_from a rs b \<Longrightarrow> i < length rs \<Longrightarrow>
     fst (rs ! i) = a + sum_list (take i (map shard_size rs))
   \<and> snd (rs ! i) = a + sum_list (take (Suc i) (map shard_size rs))
   \<and> 0 \<le> shard_size (rs ! i)"
proof (induction a rs b arbitrary: i rule: contiguous_from.induct)
  case (1 a b)
  then show ?case by simp
next
  case (2 a s e rs b)
  show ?case
  proof (cases i)
    case 0
    then show ?thesis using "2.prems" by (simp add: shard_size_def)
  next
    case (Suc j)
    then have "j < length rs" using "2.prems" by simp
    from "2.IH" [OF _ this] "2.prems"(1) Suc show ?thesis by (simp add: shard_size_def)
  qed
qed

lemma ceil_div_bounds:
  assumes "ceil_div a (int n) = Inr p"
  shows "0 < n" "a \<le> int n * p" "int n * p < a + int n"
proof -
  from assms have n: "n \<noteq> 0" and p: "p = - ((- a) div int n)"
    by (auto simp: ceil_div_def split: if_splits)
  show "0 < n" using n by simp
  have pos: "0 < int n" using n by simp
  have e: "int n * ((- a) div int n) + (- a) mod int n = - a" by (rule mult_div_mod_eq)
  have m: "0 \<le> (- a) mod int n" "(- a) mod int n < int n" using pos by simp_all
  have np: "int n * p = - (int n * ((- a) div int n))" unfolding p by simp
  show "a \<le> int n * p" unfolding np using e m by linarith
  show "int n * p < a + int n" unfolding np using e m by linarith
qed


lemma mapE_length: "mapE f xs = Inr ys \<Longrightarrow> length ys = length xs"
  by (simp add: mapE_Inr_iff list_all2_lengthD)

lemma length_partition_indices_of [simp]:
  "length (partition_indices_of p L n) = n"
  by (simp add: partition_indices_of_def)

lemma nth_partition_indices_of:
  "i < n \<Longrightarrow> partition_indices_of p L n ! i = (int i * p, min (int i * p + p) L)"
  by (simp add: partition_indices_of_def)

lemma list_get_nth [simp]: "i < length xs \<Longrightarrow> list_get xs i = Inr (xs ! i)"
  by (simp add: list_get_def)

lemma LinearDistributed_init_parts:
  assumes "LinearDistributed_init input_size output_size devs vals = Inr clf"
  shows "\<exists>p. ceil_div output_size (int (length devs)) = Inr p
    \<and> ld_partition_indices clf = partition_indices_of p output_size (length devs)
    \<and> ld_device_embeddings clf = devs
    \<and> length (ld_classifiers clf) = length devs
    \<and> (\<forall>i. i < length devs \<longrightarrow>
       LinearChunk_init input_size (shard_size (partition_indices_of p output_size (length devs) ! i))
         (devs ! i) True (vals i) = Inr (ld_classifiers clf ! i))"
proof -
  let ?n = "length devs"
  from assms obtain p where p: "ceil_div output_size (int ?n) = Inr p"
    by (cases "ceil_div output_size (int ?n)") (auto simp: LinearDistributed_init_def)
  let ?pi = "partition_indices_of p output_size ?n"
  let ?f = "\<lambda>i. bindE (list_get ?pi i) (\<lambda>r. bindE (list_get devs i) (\<lambda>dev.
               LinearChunk_init input_size (shard_size r) dev True (vals i)))"
  from assms p obtain cls where cls: "mapE ?f [0..<?n] = Inr cls"
    by (cases "mapE ?f [0..<?n]") (auto simp: LinearDistributed_init_def Let_def)
  from assms p cls have clf: "clf = \<lparr> ld_num_partitions = ?n, ld_device_embeddings = devs,
      ld_input_size = input_size, ld_output_size = output_size, ld_partition_size = p,
      ld_partition_indices = ?pi, ld_classifiers = cls \<rparr>"
    by (simp add: LinearDistributed_init_def Let_def)
  have l: "length cls = ?n" using mapE_length [OF cls] by simp
  have nth: "LinearChunk_init input_size (shard_size (?pi ! i)) (devs ! i) True (vals i) = Inr (cls ! i)"
    if "i < ?n" for i
    using mapE_upt_nth(2) [OF cls that] that by simp
  show ?thesis
    using p l nth by (simp add: clf)
qed

lemma LinearDistributed_init_valid:
  assumes "LinearDistributed_init input_size output_size devs vals = Inr clf"
  shows "0 < length devs" "0 \<le> output_size" "0 < input_size"
    "length (ld_partition_indices clf) = length devs"
    "length (ld_classifiers clf) = length devs"
    "ld_device_embeddings clf = devs"
    "contiguous_from 0 (ld_partition_indices clf) output_size"
    "\<And>i. i < length devs \<Longrightarrow>
       shard_ok (ld_classifiers clf ! i) (nat (shard_size (ld_partition_indices clf ! i))) (nat input_size)"
proof -
  let ?n = "length devs"
  from assms obtain p where p: "ceil_div output_size (int ?n) = Inr p"
    and pi: "ld_partition_indices clf = partition_indices_of p output_size ?n"
    and dv: "ld_device_embeddings clf = devs"
    and l: "length (ld_classifiers clf) = ?n"
    and nth: "\<And>i. i < ?n \<Longrightarrow>
       LinearChunk_init input_size (shard_size (partition_indices_of p output_size ?n ! i))
         (devs ! i) True (vals i) = Inr (ld_classifiers clf ! i)"
    using LinearDistributed_init_parts [OF assms] by blast
  note cb = ceil_div_bounds [OF p]
  show n: "0 < ?n" by (rule cb(1))
  have ok: "0 \<le> min (int i * p + p) output_size - int i * p \<and> 0 < input_size
      \<and> shard_ok (ld_classifiers clf ! i) (nat (shard_size (partition_indices_of p output_size ?n ! i)))
           (nat input_size)" if "i < ?n" for i
    using LinearChunk_init_ok [OF nth [OF that]] that
    by (simp add: nth_partition_indices_of shard_size_def)
  from ok [OF n] show L: "0 \<le> output_size" and I: "0 < input_size" by simp_all
  from ok [OF n] have p0: "0 \<le> p" by simp
  have starts: "\<forall>i<?n. int i * p \<le> output_size" using ok by auto
  show "length (ld_partition_indices clf) = ?n" by (simp add: pi)
  show "length (ld_classifiers clf) = ?n" by (rule l)
  show "ld_device_embeddings clf = devs" by (rule dv)
  have "contiguous_from (int 0 * p) (map (\<lambda>i. (int i * p, min (int i * p + p) output_size)) [0..<?n])
      output_size"
    using p0 starts cb(2) n by (rule contiguous_partition_indices)
  then show "contiguous_from 0 (ld_partition_indices clf) output_size"
    by (simp add: pi partition_indices_of_def)
  show "shard_ok (ld_classifiers clf ! i) (nat (shard_size (ld_partition_indices clf ! i))) (nat input_size)"
    if "i < ?n" for i
    using ok [OF that] by (simp add: pi)
qed

section \<open>Properties: the partitioned classifier, dense mode\<close>

lemma int_sum_list_nat: "\<forall>x\<in>set xs. 0 \<le> x \<Longrightarrow> int (sum_list (map nat xs)) = sum_list xs"
  by (induction xs) simp_all

lemma contiguous_nonneg:
  "contiguous_from a rs b \<Longrightarrow> \<forall>r\<in>set rs. 0 \<le> shard_size r"
  by (induction a rs b rule: contiguous_from.induct) (auto simp: shard_size_def)

lemma contiguous_nat_prefix:
  assumes "contiguous_from 0 rs b" "i < length rs"
  shows "int (sum_list (take i (map (\<lambda>r. nat (shard_size r)) rs))) = fst (rs ! i)"
    and "int (sum_list (take (Suc i) (map (\<lambda>r. nat (shard_size r)) rs))) = snd (rs ! i)"
    and "int (sum_list (map (\<lambda>r. nat (shard_size r)) rs)) = b"
proof -
  have nn: "\<forall>x\<in>set (map shard_size rs). 0 \<le> x"
    using contiguous_nonneg [OF assms(1)] by simp
  have nnt: "\<forall>x\<in>set (take k (map shard_size rs)). 0 \<le> x" for k
    using nn by (meson in_set_takeD)
  have e: "take k (map (\<lambda>r. nat (shard_size r)) rs) = map nat (take k (map shard_size rs))" for k
    by (simp add: take_map)
  note pre = contiguous_prefix [OF assms]
  show "int (sum_list (take i (map (\<lambda>r. nat (shard_size r)) rs))) = fst (rs ! i)"
    unfolding e using int_sum_list_nat [OF nnt [of i]] pre by simp
  show "int (sum_list (take (Suc i) (map (\<lambda>r. nat (shard_size r)) rs))) = snd (rs ! i)"
    unfolding e using int_sum_list_nat [OF nnt [of "Suc i"]] pre by simp
  have "map (\<lambda>r. nat (shard_size r)) rs = map nat (map shard_size rs)" by simp
  then show "int (sum_list (map (\<lambda>r. nat (shard_size r)) rs)) = b"
    using int_sum_list_nat [OF nn] contiguous_sum [OF assms(1)] by (simp add: comp_def)
qed

lemma LinearChunk_forward_None:
  "LinearChunk_forward c (emb, None) = bindE (LinearChunk_forward_dense c emb) (\<lambda>x. Inr (Some x))"
  by (simp add: LinearChunk_forward_def)

text \<open>
  C2.  For a classifier whose construction succeeded and an embedding batch of shape
  \<open>(batch, 3 * input_size)\<close> (three hops of width \<open>input_size\<close>, as \<open>encode\<close> produces),
  the dense forward returns a \<open>(batch, num_labels)\<close> matrix that is the column-wise
  concatenation of the standalone dense outputs of the shards in partition order, and its
  columns \<open>[start_i, end_i)\<close> are exactly the output of shard \<open>i\<close>.
\<close>

theorem dense_forward_concatenates_shards:
  assumes init: "LinearDistributed_init input_size num_labels devs vals = Inr clf"
      and emb: "has_shape emb [b, 3 * nat input_size]"
  shows "\<exists>out xs. LinearDistributed_forward clf (emb, None) = Inr (Some out)
           \<and> has_shape out [b, nat num_labels]
           \<and> list_all2 (\<lambda>c x. LinearChunk_forward c (emb, None) = Inr (Some x)) (ld_classifiers clf) xs
           \<and> cat xs 1 = Inr out
           \<and> (\<forall>i < length (ld_classifiers clf).
                 slice_cols out (fst (ld_partition_indices clf ! i)) (snd (ld_partition_indices clf ! i))
                   = Inr (xs ! i))"
proof -
  let ?n = "length devs"
  let ?cls = "ld_classifiers clf"
  let ?pi = "ld_partition_indices clf"
  let ?ws = "map (\<lambda>r. nat (shard_size r)) ?pi"
  note v = LinearDistributed_init_valid [OF init]
  let ?f = "\<lambda>i. bindE (list_get ?cls i) (\<lambda>c. bindE (LinearChunk_forward c (emb, None)) to_device)"
  have each: "\<exists>x. LinearChunk_forward_dense (?cls ! i) emb = Inr x \<and> has_shape x [b, ?ws ! i]"
    if "i < ?n" for i
  proof -
    have "returns_shape (LinearChunk_forward_dense (?cls ! i) emb) [b, nat (shard_size (?pi ! i))]"
      using v(8) [OF that] emb by (rule LinearChunk_forward_dense_ok)
    then show ?thesis using that v(4) by (simp add: returns_shape_def)
  qed
  have ex: "\<exists>y. ?f x = Inr y" if "x \<in> set [0..<?n]" for x
  proof -
    from that have "x < ?n" by simp
    from each [OF this] \<open>x < ?n\<close> v(5) show ?thesis
      by (auto simp: LinearChunk_forward_None to_device_def)
  qed
  have "\<exists>ys. mapE ?f [0..<?n] = Inr ys" by (rule mapE_total) (rule ex)
  then obtain xs where xs: "mapE ?f [0..<?n] = Inr xs" ..
  have lxs: "length xs = ?n" using mapE_length [OF xs] by simp
  have nth: "LinearChunk_forward_dense (?cls ! i) emb = Inr (xs ! i) \<and> has_shape (xs ! i) [b, ?ws ! i]"
    if "i < ?n" for i
  proof -
    from each [OF that] obtain x where x: "LinearChunk_forward_dense (?cls ! i) emb = Inr x"
      "has_shape x [b, ?ws ! i]" by blast
    have "?f i = Inr (xs ! i)" using mapE_upt_nth(2) [OF xs that] .
    then have "xs ! i = x" using x(1) that v(5)
      by (simp add: LinearChunk_forward_None to_device_def)
    then show ?thesis using x by simp
  qed
  have sh: "list_all2 (\<lambda>t w. has_shape t [b, w]) xs ?ws"
    unfolding list_all2_conv_all_nth using lxs v(4) nth by simp
  have ne: "xs \<noteq> []" using lxs v(1) by auto
  from cat_cols [OF ne sh] obtain out where out: "cat xs 1 = Inr out"
    "has_shape out [b, sum_list ?ws]"
    "\<forall>i<length xs. slice_cols out (int (sum_list (take i ?ws))) (int (sum_list (take (Suc i) ?ws)))
        = Inr (xs ! i)" by blast
  have total: "sum_list ?ws = nat num_labels"
    using contiguous_nat_prefix(3) [OF v(7), of 0] v(1) v(4) by simp
  have out1: "cat xs (Suc 0) = Inr out" using out(1) by simp
  have fwd: "LinearDistributed_forward clf (emb, None) = Inr (Some out)"
    by (simp add: LinearDistributed_forward_def LinearDistributed_forward_dense_def v(6) xs out1)
  have shards: "list_all2 (\<lambda>c x. LinearChunk_forward c (emb, None) = Inr (Some x)) ?cls xs"
    unfolding list_all2_conv_all_nth using lxs v(5) nth by (simp add: LinearChunk_forward_None)
  have slices: "slice_cols out (fst (?pi ! i)) (snd (?pi ! i)) = Inr (xs ! i)" if "i < length ?cls" for i
  proof -
    have i: "i < length ?pi" "i < length xs" using that v(4) v(5) lxs by simp_all
    from out(3) i(2)
    have "slice_cols out (int (sum_list (take i ?ws))) (int (sum_list (take (Suc i) ?ws)))
        = Inr (xs ! i)" by blast
    then show ?thesis unfolding contiguous_nat_prefix(1,2) [OF v(7) i(1)] .
  qed
  have hs: "has_shape out [b, nat num_labels]" using out(2) total by simp
  show ?thesis
    by (rule exI [of _ out], rule exI [of _ xs]) (use fwd hs shards out(1) slices in blast)
qed


lemma init_example:
  "\<exists>clf. LinearDistributed_init 1 3 [''cuda:0'', ''cuda:1''] (\<lambda>_ _ _. 0) = Inr clf"
  by (simp add: LinearDistributed_init_def ceil_div_def partition_indices_of_def
      LinearChunk_init_def new_tensor_def shard_size_def list_get_def upt_rec Let_def)

theorem dense_forward_concatenates_shards_witness:
  "\<exists>clf. LinearDistributed_init 1 3 [''cuda:0'', ''cuda:1''] (\<lambda>_ _ _. 0) = Inr clf
     \<and> has_shape (Tensor [1, 3] [1, 2, 3 :: real]) [1, 3 * nat 1]
     \<and> (\<exists>out xs. LinearDistributed_forward clf (Tensor [1, 3] [1, 2, 3], None) = Inr (Some out)
           \<and> has_shape out [1, nat 3]
           \<and> list_all2 (\<lambda>c x. LinearChunk_forward c (Tensor [1, 3] [1, 2, 3], None) = Inr (Some x))
                (ld_classifiers clf) xs
           \<and> cat xs 1 = Inr out
           \<and> (\<forall>i < length (ld_classifiers clf).
                 slice_cols out (fst (ld_partition_indices clf ! i)) (snd (ld_partition_indices clf ! i))
                   = Inr (xs ! i)))"
proof -
  obtain clf where c: "LinearDistributed_init 1 3 [''cuda:0'', ''cuda:1''] (\<lambda>_ _ _. 0) = Inr clf"
    using init_example ..
  have h: "has_shape (Tensor [1, 3] [1, 2, 3 :: real]) [1, 3 * nat 1]"
    by (simp add: has_shape_def)
  from dense_forward_concatenates_shards [OF c h] c h show ?thesis by blast
qed

section \<open>Properties: the partitioned classifier, 1-dimensional label ids\<close>

lemma index_rows_ok:
  assumes w: "has_shape w (n # rest)" and idx: "has_shape idx s" and v: "valid_rows n idx"
  shows "returns_shape (index_rows w idx) (s @ rest)"
proof -
  have len: "length (chunk (numel rest) (nat (if i < 0 then i + int n else i)) (data w)) = numel rest"
    if "i \<in> set (data idx)" for i
  proof -
    from v that have "- int n \<le> i" "i < int n" by (auto simp: valid_rows_def list_all_iff)
    then have "nat (if i < 0 then i + int n else i) < n" by auto
    moreover have "length (data w) = n * numel rest" using w by (simp add: has_shape_def)
    ultimately show ?thesis by (rule length_chunk_lt)
  qed
  have "length (concat (map (\<lambda>i. chunk (numel rest) (nat (if i < 0 then i + int n else i)) (data w))
      (data idx))) = length (data idx) * numel rest"
    by (rule length_concat_map_const) (rule len)
  then show ?thesis
    using w idx v by (simp add: index_rows_def returns_shape_def has_shape_def valid_rows_def)
qed

lemma index_rows_invalid:
  assumes "shape w = n # rest" "\<not> valid_rows n idx"
  shows "index_rows w idx = Inl IndexError"
  using assms by (simp add: index_rows_def valid_rows_def)

lemma slice_rows_vector:
  assumes "has_shape ids [m]"
  shows "slice_rows ids a c =
     Inr (Tensor [slice_index m c - slice_index m a]
            (take (slice_index m c - slice_index m a) (drop (slice_index m a) (data ids))))"
    and "has_shape (Tensor [slice_index m c - slice_index m a]
            (take (slice_index m c - slice_index m a) (drop (slice_index m a) (data ids))))
          [slice_index m c - slice_index m a]"
proof -
  show "slice_rows ids a c =
     Inr (Tensor [slice_index m c - slice_index m a]
            (take (slice_index m c - slice_index m a) (drop (slice_index m a) (data ids))))"
    using assms by (simp add: slice_rows_def has_shape_def Let_def)
  have "slice_index m c \<le> m" by (auto simp: slice_index_def)
  then show "has_shape (Tensor [slice_index m c - slice_index m a]
            (take (slice_index m c - slice_index m a) (drop (slice_index m a) (data ids))))
          [slice_index m c - slice_index m a]"
    using assms by (simp add: has_shape_def)
qed

lemma broadcast_shapes_same2: "broadcast_shapes [b, n] [b, n] = Inr [b, n]"
  by (simp add: broadcast_shapes_def)

lemma LinearChunk_forward_1d_ok:
  assumes c: "shard_ok c n i" and e: "has_shape input0 [b, 3 * i]"
    and idx: "has_shape idx [k]" and v: "valid_rows n idx"
  shows "returns_shape (LinearChunk_forward_1d c input0 idx) [b, k]"
proof -
  from c obtain bias where i: "0 < i" and w: "has_shape (lc_weight c) [n, i]"
    and bias: "lc_bias c = Some bias" "has_shape bias [n]"
    and a: "has_shape (lc_attention_weights c) [n, 3]"
    by (auto simp: shard_ok_def)
  have d: "shape_last input0 = Inr (3 * i)" using e by (simp add: shape_last_def has_shape_def)
  obtain w0 where w0: "index_rows (lc_weight c) idx = Inr w0" "has_shape w0 [k, i]"
    using index_rows_ok [OF w idx v] by (auto elim: returns_shapeE)
  obtain w1 where w1: "unsqueeze w0 1 = Inr w1" "has_shape w1 [k, 1, i]"
    using unsqueeze_ok [OF w0(2), of 1] by (auto elim: returns_shapeE)
  obtain a0 where a0: "index_rows (lc_attention_weights c) idx = Inr a0" "has_shape a0 [k, 3]"
    using index_rows_ok [OF a idx v] by (auto elim: returns_shapeE)
  obtain a1 where a1: "softmax1 a0 = Inr a1" "has_shape a1 [k, 3]"
    using softmax1_ok [OF a0(2)] by (auto elim: returns_shapeE)
  obtain a2 where a2: "unsqueeze a1 2 = Inr a2" "has_shape a2 [k, 3, 1]"
    using unsqueeze_ok [OF a1(2), of 2] by (auto elim: returns_shapeE)
  obtain ww where ww: "tensor_mul w1 a2 = Inr ww" "has_shape ww [k, 3, i]"
    using binop_ok [OF w1(2) a2(2) broadcast_mul_shapes] unfolding tensor_mul_def
    by (auto elim: returns_shapeE)
  have "returns_shape (view ww [- 1, int (3 * i)]) [numel [k, 3, i] div (3 * i), 3 * i]"
    using i by (intro view_cols_ok [OF ww(2)]) simp_all
  moreover have "numel [k, 3, i] div (3 * i) = k" using i by simp
  ultimately obtain wv where wv: "view ww [- 1, int (3 * i)] = Inr wv" "has_shape wv [k, 3 * i]"
    by (auto elim: returns_shapeE)
  obtain wt where wt: "transpose_t wv = Inr wt" "has_shape wt [3 * i, k]"
    using transpose_ok [OF wv(2)] by (auto elim: returns_shapeE)
  obtain xm where xm: "mm input0 wt = Inr xm" "has_shape xm [b, k]"
    using mm_ok [OF e wt(2)] by (auto elim: returns_shapeE)
  obtain b1 where b1: "index_rows bias idx = Inr b1" "has_shape b1 [k]"
    using index_rows_ok [OF bias(2) idx v] by (auto elim: returns_shapeE)
  obtain bv where bv: "view b1 [- 1] = Inr bv" "has_shape bv [k]"
    using view_flat_ok [OF b1(2)] by (auto elim: returns_shapeE)
  have "returns_shape (tensor_add xm bv) [b, k]"
    unfolding tensor_add_def by (rule binop_ok [OF xm(2) bv(2) broadcast_bias_shapes])
  then show ?thesis
    by (simp only: LinearChunk_forward_1d_def w0(1) w1(1) a0(1) a1(1) a2(1) ww(1) d wv(1) wt(1)
        xm(1) b1(1) bv(1) bias_for_subscript_def bias(1) bindE_Inr option.case)
qed

lemma LinearChunk_forward_1d_invalid:
  assumes c: "shard_ok c n i" and v: "\<not> valid_rows n idx"
  shows "LinearChunk_forward_1d c input0 idx = Inl IndexError"
proof -
  from c have "shape (lc_weight c) = [n, i]" by (simp add: shard_ok_def has_shape_def)
  then have "index_rows (lc_weight c) idx = Inl IndexError" using v by (rule index_rows_invalid)
  then show ?thesis by (simp add: LinearChunk_forward_1d_def)
qed


lemma mapE_first_error:
  assumes "\<And>x. x \<in> set xs \<Longrightarrow> (\<exists>y. f x = Inr y) \<or> f x = Inl e"
    and "\<exists>x\<in>set xs. f x = Inl e"
  shows "mapE f xs = Inl e"
  using assms
proof (induction xs)
  case Nil
  then show ?case by simp
next
  case (Cons x xs)
  show ?case
  proof (cases "f x")
    case (Inl e')
    then have "e' = e" using Cons.prems(1) [of x] by auto
    then show ?thesis using Inl by simp
  next
    case (Inr y)
    then have "\<exists>x\<in>set xs. f x = Inl e" using Cons.prems(2) by auto
    then have "mapE f xs = Inl e" using Cons.prems(1) by (intro Cons.IH) auto
    then show ?thesis using Inr by simp
  qed
qed

lemma contiguous_le: "contiguous_from a rs b \<Longrightarrow> a \<le> b"
  by (induction a rs b rule: contiguous_from.induct) auto

lemma slice_index_mono: "0 \<le> x \<Longrightarrow> x \<le> y \<Longrightarrow> slice_index m x \<le> slice_index m y"
  by (auto simp: slice_index_def)

lemma contiguous_clipped_sum:
  "contiguous_from a rs b \<Longrightarrow> 0 \<le> a \<Longrightarrow>
   sum_list (map (\<lambda>r. slice_index m (snd r) - slice_index m (fst r)) rs)
     = slice_index m b - slice_index m a"
proof (induction a rs b rule: contiguous_from.induct)
  case (1 a b)
  then show ?case by simp
next
  case (2 a s e rs b)
  then have c: "contiguous_from e rs b" and se: "s \<le> e" and sa: "s = a" by simp_all
  have eb: "e \<le> b" using c by (rule contiguous_le)
  have s0: "0 \<le> s" and e0: "0 \<le> e" using "2.prems" se by simp_all
  have "slice_index m s \<le> slice_index m e" "slice_index m e \<le> slice_index m b"
    using s0 e0 se eb by (simp_all add: slice_index_mono)
  then show ?case using "2.IH" [OF c e0] sa by simp
qed


lemma LinearDistributed_forward_1d_steps:
  "LinearDistributed_forward_1d self input0 input1 =
     bindE (mapE (shard_step_1d self input0 input1) [0..<length (ld_device_embeddings self)])
       (\<lambda>total_x. cat total_x 1)"
  unfolding LinearDistributed_forward_1d_def shard_step_1d_def ..

lemma shard_step_1d_cases:
  assumes init: "LinearDistributed_init input_size num_labels devs vals = Inr clf"
      and emb: "has_shape emb [b, 3 * nat input_size]"
      and ids: "has_shape ids [m]"
      and i: "i < length devs"
      and sl: "slice_rows ids (fst (ld_partition_indices clf ! i)) (snd (ld_partition_indices clf ! i))
                 = Inr idx"
  shows "valid_rows (nat (shard_size (ld_partition_indices clf ! i))) idx \<Longrightarrow>
           \<exists>x. shard_step_1d clf emb ids i = Inr x
             \<and> LinearChunk_forward (ld_classifiers clf ! i) (emb, Some idx) = Inr (Some x)
             \<and> has_shape x [b, slice_index m (snd (ld_partition_indices clf ! i))
                                - slice_index m (fst (ld_partition_indices clf ! i))]"
    and "\<not> valid_rows (nat (shard_size (ld_partition_indices clf ! i))) idx \<Longrightarrow>
           shard_step_1d clf emb ids i = Inl IndexError"
proof -
  let ?r = "ld_partition_indices clf ! i"
  let ?c = "ld_classifiers clf ! i"
  let ?w = "slice_index m (snd ?r) - slice_index m (fst ?r)"
  note v = LinearDistributed_init_valid [OF init]
  have ok: "shard_ok ?c (nat (shard_size ?r)) (nat input_size)" using v(8) [OF i] .
  have hs: "has_shape idx [?w]"
    using slice_rows_vector [OF ids, where a = "fst ?r" and c = "snd ?r"] sl by simp
  then have rank: "length (shape idx) = 1" by (simp add: has_shape_def)
  have step: "shard_step_1d clf emb ids i
      = bindE (bindE (LinearChunk_forward_1d ?c emb idx) (\<lambda>x. Inr (Some x))) to_device"
    using i v(4) v(5) sl rank by (simp add: shard_step_1d_def LinearChunk_forward_def)
  have fw: "LinearChunk_forward ?c (emb, Some idx)
      = bindE (LinearChunk_forward_1d ?c emb idx) (\<lambda>x. Inr (Some x))"
    using rank by (simp add: LinearChunk_forward_def)
  {
    assume "valid_rows (nat (shard_size ?r)) idx"
    then have "returns_shape (LinearChunk_forward_1d ?c emb idx) [b, ?w]"
      by (rule LinearChunk_forward_1d_ok [OF ok emb hs])
    then show "\<exists>x. shard_step_1d clf emb ids i = Inr x
             \<and> LinearChunk_forward ?c (emb, Some idx) = Inr (Some x) \<and> has_shape x [b, ?w]"
      unfolding step fw by (auto simp: returns_shape_def to_device_def)
  }
  {
    assume "\<not> valid_rows (nat (shard_size ?r)) idx"
    then have "LinearChunk_forward_1d ?c emb idx = Inl IndexError"
      by (rule LinearChunk_forward_1d_invalid [OF ok])
    then show "shard_step_1d clf emb ids i = Inl IndexError"
      unfolding step by simp
  }
qed


lemma LinearDistributed_forward_Some_1d:
  "length (shape ids) = 1 \<Longrightarrow>
   LinearDistributed_forward clf (emb, Some ids)
     = bindE (LinearDistributed_forward_1d clf emb ids) (\<lambda>x. Inr (Some x))"
  by (simp add: LinearDistributed_forward_def)

lemma forward_1d_all_valid:
  assumes init: "LinearDistributed_init input_size num_labels devs vals = Inr clf"
      and emb: "has_shape emb [b, 3 * nat input_size]"
      and ids: "has_shape ids [m]"
      and valid: "\<And>i idx. i < length devs \<Longrightarrow>
           slice_rows ids (fst (ld_partition_indices clf ! i)) (snd (ld_partition_indices clf ! i))
             = Inr idx \<Longrightarrow>
           valid_rows (nat (shard_size (ld_partition_indices clf ! i))) idx"
  shows "\<exists>out xs. LinearDistributed_forward clf (emb, Some ids) = Inr (Some out)
           \<and> has_shape out [b, min m (nat num_labels)]
           \<and> length xs = length (ld_classifiers clf)
           \<and> (\<forall>i < length (ld_classifiers clf). \<exists>idx.
                 slice_rows ids (fst (ld_partition_indices clf ! i)) (snd (ld_partition_indices clf ! i))
                   = Inr idx
                 \<and> LinearChunk_forward (ld_classifiers clf ! i) (emb, Some idx) = Inr (Some (xs ! i)))
           \<and> cat xs 1 = Inr out"
proof -
  let ?n = "length devs"
  let ?cls = "ld_classifiers clf"
  let ?pi = "ld_partition_indices clf"
  let ?ws = "map (\<lambda>r. slice_index m (snd r) - slice_index m (fst r)) ?pi"
  note v = LinearDistributed_init_valid [OF init]
  have each: "\<exists>x idx. shard_step_1d clf emb ids i = Inr x
      \<and> slice_rows ids (fst (?pi ! i)) (snd (?pi ! i)) = Inr idx
      \<and> LinearChunk_forward (?cls ! i) (emb, Some idx) = Inr (Some x)
      \<and> has_shape x [b, ?ws ! i]" if i: "i < ?n" for i
  proof -
    obtain idx where sl: "slice_rows ids (fst (?pi ! i)) (snd (?pi ! i)) = Inr idx"
      using slice_rows_vector(1) [OF ids] by blast
    have "valid_rows (nat (shard_size (?pi ! i))) idx" using i sl by (rule valid)
    from shard_step_1d_cases(1) [OF init emb ids i sl this] sl i v(4) show ?thesis by auto
  qed
  have ex: "\<exists>y. shard_step_1d clf emb ids x = Inr y" if "x \<in> set [0..<?n]" for x
    using each [of x] that by auto
  have "\<exists>ys. mapE (shard_step_1d clf emb ids) [0..<?n] = Inr ys" by (rule mapE_total) (rule ex)
  then obtain xs where xs: "mapE (shard_step_1d clf emb ids) [0..<?n] = Inr xs" ..
  have lxs: "length xs = ?n" using mapE_length [OF xs] by simp
  have nth: "\<exists>idx. slice_rows ids (fst (?pi ! i)) (snd (?pi ! i)) = Inr idx
      \<and> LinearChunk_forward (?cls ! i) (emb, Some idx) = Inr (Some (xs ! i))
      \<and> has_shape (xs ! i) [b, ?ws ! i]" if i: "i < ?n" for i
  proof -
    have "shard_step_1d clf emb ids i = Inr (xs ! i)" using mapE_upt_nth(2) [OF xs i] .
    with each [OF i] show ?thesis by auto
  qed
  have nth_shape: "has_shape (xs ! i) [b, ?ws ! i]" if "i < ?n" for i
    using nth [OF that] by blast
  have sh: "list_all2 (\<lambda>t w. has_shape t [b, w]) xs ?ws"
    unfolding list_all2_conv_all_nth using lxs v(4) nth_shape by simp
  have ne: "xs \<noteq> []" using lxs v(1) by auto
  from cat_cols [OF ne sh] obtain out where out: "cat xs 1 = Inr out"
    "has_shape out [b, sum_list ?ws]" by blast
  have "sum_list ?ws = slice_index m num_labels - slice_index m 0"
    using v(7) by (rule contiguous_clipped_sum) simp
  then have total: "sum_list ?ws = min m (nat num_labels)"
    using v(2) by (simp add: slice_index_def)
  have rank: "length (shape ids) = 1" using ids by (simp add: has_shape_def)
  have out1: "cat xs (Suc 0) = Inr out" using out(1) by simp
  have fwd: "LinearDistributed_forward clf (emb, Some ids) = Inr (Some out)"
    by (simp add: LinearDistributed_forward_Some_1d [OF rank] LinearDistributed_forward_1d_steps
        v(6) xs out1)
  have hs: "has_shape out [b, min m (nat num_labels)]" using out(2) total by simp
  have shards: "\<forall>i < length ?cls. \<exists>idx.
      slice_rows ids (fst (?pi ! i)) (snd (?pi ! i)) = Inr idx
      \<and> LinearChunk_forward (?cls ! i) (emb, Some idx) = Inr (Some (xs ! i))"
    using nth v(5) by auto
  have l: "length xs = length ?cls" using lxs v(5) by simp
  show ?thesis
    by (rule exI [of _ out], rule exI [of _ xs]) (use fwd hs l shards out(1) in blast)
qed

lemma forward_1d_some_invalid:
  assumes init: "LinearDistributed_init input_size num_labels devs vals = Inr clf"
      and emb: "has_shape emb [b, 3 * nat input_size]"
      and ids: "has_shape ids [m]"
      and i: "i < length devs"
      and sl: "slice_rows ids (fst (ld_partition_indices clf ! i)) (snd (ld_partition_indices clf ! i))
                 = Inr idx"
      and bad: "\<not> valid_rows (nat (shard_size (ld_partition_indices clf ! i))) idx"
  shows "LinearDistributed_forward clf (emb, Some ids) = Inl IndexError"
proof -
  let ?n = "length devs"
  let ?pi = "ld_partition_indices clf"
  note v = LinearDistributed_init_valid [OF init]
  have cases: "(\<exists>y. shard_step_1d clf emb ids x = Inr y) \<or> shard_step_1d clf emb ids x = Inl IndexError"
    if "x \<in> set [0..<?n]" for x
  proof -
    from that have x: "x < ?n" by simp
    obtain idx' where sl': "slice_rows ids (fst (?pi ! x)) (snd (?pi ! x)) = Inr idx'"
      using slice_rows_vector(1) [OF ids] by blast
    show ?thesis
      using shard_step_1d_cases [OF init emb ids x sl'] by blast
  qed
  have "shard_step_1d clf emb ids i = Inl IndexError"
    using shard_step_1d_cases(2) [OF init emb ids i sl bad] .
  then have "\<exists>x\<in>set [0..<?n]. shard_step_1d clf emb ids x = Inl IndexError"
    using i by auto
  with cases have "mapE (shard_step_1d clf emb ids) [0..<?n] = Inl IndexError"
    by (rule mapE_first_error)
  moreover have rank: "length (shape ids) = 1" using ids by (simp add: has_shape_def)
  ultimately show ?thesis
    by (simp add: LinearDistributed_forward_Some_1d [OF rank] LinearDistributed_forward_1d_steps v(6))
qed


lemma classifier_4_2_init:
  "LinearDistributed_init 1 4 [''cuda:0'', ''cuda:1''] (\<lambda>_ _ _. 0) = Inr classifier_4_2"
  by (simp add: LinearDistributed_init_def ceil_div_def partition_indices_of_def
      LinearChunk_init_def new_tensor_def shard_size_def list_get_def upt_rec Let_def
      classifier_4_2_def zero_shard_def)

text \<open>
  C3.  As stated the claim fails: with four labels on two shards and the label ids
  \<open>0, 1, 2, 3\<close> (sorted by owning shard), shard 1 receives the ids \<open>2, 3\<close> and uses
  them as row indices into its own two rows, which raises \<open>IndexError\<close>.
\<close>

theorem global_label_ids_index_error:
  "LinearDistributed_init 1 4 [''cuda:0'', ''cuda:1''] (\<lambda>_ _ _. 0) = Inr classifier_4_2
   \<and> LinearDistributed_forward classifier_4_2
        (Tensor [1, 3] [1, 2, 3], Some (Tensor [4] [0, 1, 2, 3])) = Inl IndexError"
proof -
  have emb: "has_shape (Tensor [1, 3] [1, 2, 3 :: real]) [1, 3 * nat 1]"
    by (simp add: has_shape_def)
  have ids: "has_shape (Tensor [4] [0, 1, 2, 3 :: int]) [4]"
    by (simp add: has_shape_def)
  have i: "(1::nat) < length [''cuda:0'', ''cuda:1'']" by simp
  have sl: "slice_rows (Tensor [4] [0, 1, 2, 3]) (fst (ld_partition_indices classifier_4_2 ! 1))
      (snd (ld_partition_indices classifier_4_2 ! 1)) = Inr (Tensor [2] [2, 3])"
    by (simp add: classifier_4_2_def slice_rows_def slice_index_def)
  have bad: "\<not> valid_rows (nat (shard_size (ld_partition_indices classifier_4_2 ! 1))) (Tensor [2] [2, 3])"
    by (simp add: classifier_4_2_def valid_rows_def shard_size_def)
  show ?thesis
    using forward_1d_some_invalid [OF classifier_4_2_init emb ids i sl bad] classifier_4_2_init
    by simp
qed

text \<open>
  C3, amended.  For a constructed classifier, an embedding batch of shape
  \<open>(batch, 3 * input_size)\<close> and 1-dimensional label ids of length \<open>m\<close>, shard \<open>i\<close>
  receives the positional slice \<open>label_ids[start_i:end_i]\<close> and uses its entries as row
  indices into its own parameters.  When every entry is a row index of the shard that
  receives it, the result is the column-wise concatenation of the shard outputs and has
  \<open>min(m, num_labels)\<close> columns; when some entry is not, the forward raises
  \<open>IndexError\<close>.
\<close>

theorem forward_1d_routes_positional_slices:
  assumes init: "LinearDistributed_init input_size num_labels devs vals = Inr clf"
      and emb: "has_shape emb [b, 3 * nat input_size]"
      and ids: "has_shape ids [m]"
  shows "((\<forall>i < length devs. \<forall>idx.
             slice_rows ids (fst (ld_partition_indices clf ! i)) (snd (ld_partition_indices clf ! i))
               = Inr idx
             \<longrightarrow> valid_rows (nat (shard_size (ld_partition_indices clf ! i))) idx)
          \<longrightarrow> (\<exists>out xs. LinearDistributed_forward clf (emb, Some ids) = Inr (Some out)
                 \<and> has_shape out [b, min m (nat num_labels)]
                 \<and> length xs = length (ld_classifiers clf)
                 \<and> (\<forall>i < length (ld_classifiers clf). \<exists>idx.
                       slice_rows ids (fst (ld_partition_indices clf ! i))
                         (snd (ld_partition_indices clf ! i)) = Inr idx
                       \<and> LinearChunk_forward (ld_classifiers clf ! i) (emb, Some idx)
                           = Inr (Some (xs ! i)))
                 \<and> cat xs 1 = Inr out))
       \<and> ((\<exists>i < length devs. \<exists>idx.
             slice_rows ids (fst (ld_partition_indices clf ! i)) (snd (ld_partition_indices clf ! i))
               = Inr idx
             \<and> \<not> valid_rows (nat (shard_size (ld_partition_indices clf ! i))) idx)
          \<longrightarrow> LinearDistributed_forward clf (emb, Some ids) = Inl IndexError)"
proof (intro conjI impI)
  assume "\<forall>i < length devs. \<forall>idx.
      slice_rows ids (fst (ld_partition_indices clf ! i)) (snd (ld_partition_indices clf ! i)) = Inr idx
      \<longrightarrow> valid_rows (nat (shard_size (ld_partition_indices clf ! i))) idx"
  then have "\<And>i idx. i < length devs \<Longrightarrow>
      slice_rows ids (fst (ld_partition_indices clf ! i)) (snd (ld_partition_indices clf ! i)) = Inr idx
      \<Longrightarrow> valid_rows (nat (shard_size (ld_partition_indices clf ! i))) idx" by blast
  then show "\<exists>out xs. LinearDistributed_forward clf (emb, Some ids) = Inr (Some out)
                 \<and> has_shape out [b, min m (nat num_labels)]
                 \<and> length xs = length (ld_classifiers clf)
                 \<and> (\<forall>i < length (ld_classifiers clf). \<exists>idx.
                       slice_rows ids (fst (ld_partition_indices clf ! i))
                         (snd (ld_partition_indices clf ! i)) = Inr idx
                       \<and> LinearChunk_forward (ld_classifiers clf ! i) (emb, Some idx)
                           = Inr (Some (xs ! i)))
                 \<and> cat xs 1 = Inr out"
    by (rule forward_1d_all_valid [OF init emb ids])
next
  assume "\<exists>i < length devs. \<exists>idx.
      slice_rows ids (fst (ld_partition_indices clf ! i)) (snd (ld_partition_indices clf ! i)) = Inr idx
      \<and> \<not> valid_rows (nat (shard_size (ld_partition_indices clf ! i))) idx"
  then obtain i idx where "i < length devs"
    "slice_rows ids (fst (ld_partition_indices clf ! i)) (snd (ld_partition_indices clf ! i)) = Inr idx"
    "\<not> valid_rows (nat (shard_size (ld_partition_indices clf ! i))) idx" by blast
  then show "LinearDistributed_forward clf (emb, Some ids) = Inl IndexError"
    by (rule forward_1d_some_invalid [OF init emb ids])
qed

theorem forward_1d_routes_positional_slices_witness:
  "LinearDistributed_init 1 4 [''cuda:0'', ''cuda:1''] (\<lambda>_ _ _. 0) = Inr classifier_4_2
   \<and> has_shape (Tensor [1, 3] [1, 2, 3 :: real]) [1, 3 * nat 1]
   \<and> has_shape (Tensor [4] [0, 1, 0, 1 :: int]) [4]
   \<and> (\<exists>out xs. LinearDistributed_forward classifier_4_2
                   (Tensor [1, 3] [1, 2, 3], Some (Tensor [4] [0, 1, 0, 1])) = Inr (Some out)
         \<and> has_shape out [1, min 4 (nat 4)]
         \<and> length xs = length (ld_classifiers classifier_4_2)
         \<and> cat xs 1 = Inr out)"
proof -
  have emb: "has_shape (Tensor [1, 3] [1, 2, 3 :: real]) [1, 3 * nat 1]"
    by (simp add: has_shape_def)
  have ids: "has_shape (Tensor [4] [0, 1, 0, 1 :: int]) [4]"
    by (simp add: has_shape_def)
  have valid: "\<forall>i < length [''cuda:0'', ''cuda:1'']. \<forall>idx.
      slice_rows (Tensor [4] [0, 1, 0, 1]) (fst (ld_partition_indices classifier_4_2 ! i))
        (snd (ld_partition_indices classifier_4_2 ! i)) = Inr idx
      \<longrightarrow> valid_rows (nat (shard_size (ld_partition_indices classifier_4_2 ! i))) idx"
    by (auto simp: classifier_4_2_def slice_rows_def slice_index_def valid_rows_def shard_size_def
        less_Suc_eq)
  show ?thesis
    using forward_1d_routes_positional_slices [OF classifier_4_2_init emb ids] valid
      classifier_4_2_init emb ids
    by blast
qed

section \<open>Properties: the partitioned classifier, 2-dimensional label ids\<close>

lemma embedding_ok:
  assumes w: "has_shape w [n, d]" and idx: "has_shape idx s" and v: "valid_ids n idx"
  shows "returns_shape (embedding idx w) (s @ [d])"
proof -
  have len: "length (chunk d (nat i) (data w)) = d" if "i \<in> set (data idx)" for i
  proof -
    from v that have "0 \<le> i" "i < int n" by (auto simp: valid_ids_def list_all_iff)
    then have "nat i < n" by auto
    moreover have "length (data w) = n * d" using w by (simp add: has_shape_def)
    ultimately show ?thesis by (rule length_chunk_lt)
  qed
  have "length (concat (map (\<lambda>i. chunk d (nat i) (data w)) (data idx))) = length (data idx) * d"
    by (rule length_concat_map_const) (rule len)
  then show ?thesis
    using w idx v by (simp add: embedding_def returns_shape_def has_shape_def valid_ids_def)
qed

lemma infer_size_trail:
  "infer_size [int a, - 1] n =
     (if 0 < a \<and> n mod a = 0 then Inr [a, n div a] else Inl RuntimeError)"
  by (simp add: infer_size_def)

lemma view_trail_ok:
  assumes "has_shape t s" "0 < a" "a dvd numel s"
  shows "returns_shape (view t [int a, - 1]) [a, numel s div a]"
  using assms by (auto simp: view_def infer_size_trail returns_shape_def has_shape_def)

lemma view_trail_zero: "view t [int 0, - 1] = Inl RuntimeError"
  by (simp add: view_def infer_size_def)

lemma length_repeat_data:
  "length ms = length rs \<Longrightarrow> length xs = numel ms \<Longrightarrow>
   length (repeat_data ms rs xs) = numel (map2 (*) ms rs)"
proof (induction ms rs xs rule: repeat_data.induct)
  case (1 m ms r rs xs)
  have l: "length ms = length rs" using "1.prems"(1) by simp
  have "length (repeat_data ms rs (chunk (numel ms) i xs)) = numel (map2 (*) ms rs)"
    if "i \<in> set [0..<m]" for i
  proof -
    from that have "i < m" by simp
    then have "length (chunk (numel ms) i xs) = numel ms"
      using "1.prems"(2) by (intro length_chunk_lt [of i m]) simp_all
    then show ?thesis using "1.IH" [OF that l] by simp
  qed
  then have "length (concat (map (\<lambda>i. repeat_data ms rs (chunk (numel ms) i xs)) [0..<m]))
      = length [0..<m] * numel (map2 (*) ms rs)"
    by (rule length_concat_map_const)
  then show ?case by (simp add: length_concat_replicate)
qed simp_all

lemma repeat_ok:
  assumes "has_shape t s" "length reps = length s"
  shows "returns_shape (repeat t reps) (map2 (*) s reps)"
  using assms length_repeat_data [of s reps "data t"]
  by (simp add: repeat_def returns_shape_def has_shape_def)

lemma tensor_sum_last_of_3:
  assumes "has_shape t [b, k, d]"
  shows "returns_shape (tensor_sum t 2) [b, k]"
proof -
  have "length (concat (map (\<lambda>r. map (\<lambda>i. sum_list (map (\<lambda>j. data t ! ((r * d + j) * 1 + i)) [0..<d]))
      [0..<1]) [0..<b * k])) = length [0..<b * k] * 1"
    by (rule length_concat_map_const) simp
  then show ?thesis
    using assms
    by (simp add: tensor_sum_def reduce_dim_def returns_shape_def has_shape_def numeral_2_eq_2
        numeral_3_eq_3)
qed

lemma broadcast_shapes_same3: "broadcast_shapes [b, k, d] [b, k, d] = Inr [b, k, d]"
  by (simp add: broadcast_shapes_def)

lemma broadcast_shapes_scalar: "broadcast_shapes [b, k] [] = Inr [b, k]"
  by (simp add: broadcast_shapes_def)

lemma broadcast_shapes_row: "broadcast_shapes [1, k] [k] = Inr [1, k]"
  by (simp add: broadcast_shapes_def)


lemma numel_filter_ones: "numel (filter (\<lambda>d. d \<noteq> Suc 0) s) = numel s"
  by (induction s) simp_all

lemma squeeze_all_ok: "has_shape t s \<Longrightarrow> has_shape (squeeze_all t) (filter (\<lambda>d. d \<noteq> 1) s)"
  by (simp add: squeeze_all_def has_shape_def numel_filter_ones)

lemma add_squeezed_bias_ok:
  assumes xs: "has_shape xs [b, k]" and sb: "has_shape short_bias [b, k, 1]"
    and b: "1 \<le> b" and k: "1 \<le> k" and ok: "2 \<le> k \<or> b = 1"
  shows "returns_shape (tensor_add xs (squeeze_all short_bias)) [b, k]"
proof -
  note sq = squeeze_all_ok [OF sb]
  consider "2 \<le> b" "2 \<le> k" | "b = 1" "2 \<le> k" | "b = 1" "k = 1"
    using b k ok by linarith
  then show ?thesis
  proof cases
    case 1
    then have "has_shape (squeeze_all short_bias) [b, k]" using sq by simp
    then show ?thesis
      unfolding tensor_add_def using xs broadcast_shapes_same2 by (intro binop_ok)
  next
    case 2
    then have "has_shape (squeeze_all short_bias) [k]" using sq by simp
    then show ?thesis
      unfolding tensor_add_def using xs 2 broadcast_shapes_row [of k]
      by (intro binop_ok [where sb = "[k]"]) simp_all
  next
    case 3
    then have "has_shape (squeeze_all short_bias) []" using sq by simp
    then show ?thesis
      unfolding tensor_add_def using xs broadcast_shapes_scalar by (intro binop_ok)
  qed
qed

lemma LinearChunk_forward_2d_ok:
  assumes c: "shard_ok c n i" and e: "has_shape input0 [b, 3 * i]"
    and idx: "has_shape idx [b, k]" and v: "valid_ids n idx"
    and b: "1 \<le> b" and k: "1 \<le> k" and ok: "2 \<le> k \<or> b = 1"
  shows "returns_shape (LinearChunk_forward_2d c input0 idx) [b, k]"
proof -
  from c obtain bias where i: "0 < i" and w: "has_shape (lc_weight c) [n, i]"
    and bias: "lc_bias c = Some bias" "has_shape bias [n]"
    and a: "has_shape (lc_attention_weights c) [n, 3]"
    by (auto simp: shard_ok_def)
  have bk: "0 < b * k" using b k by simp
  have sh0: "shape idx ! 0 = b" and sh1: "shape idx ! 1 = k"
    using idx by (simp_all add: has_shape_def)
  have d: "shape_last input0 = Inr (3 * i)" using e by (simp add: shape_last_def has_shape_def)
  obtain sw0 where sw0: "embedding idx (lc_weight c) = Inr sw0" "has_shape sw0 [b, k, i]"
    using embedding_ok [OF w idx v] by (auto elim: returns_shapeE)
  have "returns_shape (view sw0 [int (b * k), - 1]) [b * k, numel [b, k, i] div (b * k)]"
    using bk by (intro view_trail_ok [OF sw0(2)]) simp_all
  moreover have "numel [b, k, i] div (b * k) = i" using bk by simp
  ultimately obtain sw where sw: "view sw0 [int (b * k), - 1] = Inr sw" "has_shape sw [b * k, i]"
    by (auto elim: returns_shapeE)
  have "returns_shape (view bias (- 1 # map int [1])) [numel [n] div numel [1], 1]"
    by (intro view_lead_ok [OF bias(2)]) simp_all
  then obtain bias2 where bias2: "view bias [- 1, 1] = Inr bias2" "has_shape bias2 [n, 1]"
    by (auto elim: returns_shapeE)
  obtain sb where sb: "embedding idx bias2 = Inr sb" "has_shape sb [b, k, 1]"
    using embedding_ok [OF bias2(2) idx v] by (auto elim: returns_shapeE)
  obtain sa0 where sa0: "embedding idx (lc_attention_weights c) = Inr sa0" "has_shape sa0 [b, k, 3]"
    using embedding_ok [OF a idx v] by (auto elim: returns_shapeE)
  have "returns_shape (view sa0 [int (b * k), - 1]) [b * k, numel [b, k, 3] div (b * k)]"
    using bk by (intro view_trail_ok [OF sa0(2)]) simp_all
  moreover have "numel [b, k, 3] div (b * k) = 3" using bk by simp
  ultimately obtain sa where sa: "view sa0 [int (b * k), - 1] = Inr sa" "has_shape sa [b * k, 3]"
    by (auto elim: returns_shapeE)
  obtain w1 where w1: "unsqueeze sw 1 = Inr w1" "has_shape w1 [b * k, 1, i]"
    using unsqueeze_ok [OF sw(2), of 1] by (auto elim: returns_shapeE)
  obtain a1 where a1: "softmax1 sa = Inr a1" "has_shape a1 [b * k, 3]"
    using softmax1_ok [OF sa(2)] by (auto elim: returns_shapeE)
  obtain a2 where a2: "unsqueeze a1 2 = Inr a2" "has_shape a2 [b * k, 3, 1]"
    using unsqueeze_ok [OF a1(2), of 2] by (auto elim: returns_shapeE)
  obtain ww where ww: "tensor_mul w1 a2 = Inr ww" "has_shape ww [b * k, 3, i]"
    using binop_ok [OF w1(2) a2(2) broadcast_mul_shapes] unfolding tensor_mul_def
    by (auto elim: returns_shapeE)
  obtain x1 where x1: "unsqueeze input0 1 = Inr x1" "has_shape x1 [b, 1, 3 * i]"
    using unsqueeze_ok [OF e, of 1] by (auto elim: returns_shapeE)
  have "returns_shape (repeat x1 [1, k, 1]) (map2 (*) [b, 1, 3 * i] [1, k, 1])"
    by (intro repeat_ok [OF x1(2)]) simp
  then obtain xr where xr: "repeat x1 [1, k, 1] = Inr xr" "has_shape xr [b, k, 3 * i]"
    by (auto elim: returns_shapeE)
  have "view ww (map int [b, k, 3 * i]) = Inr (Tensor [b, k, 3 * i] (data ww))"
    using ww(2) by (simp add: view_nat has_shape_def del: list.map)
  then have wv: "view ww [int b, int k, int (3 * i)] = Inr (Tensor [b, k, 3 * i] (data ww))"
    by simp
  have wvs: "has_shape (Tensor [b, k, 3 * i] (data ww)) [b, k, 3 * i]"
    using ww(2) by (simp add: has_shape_def)
  obtain x where x: "tensor_mul xr (Tensor [b, k, 3 * i] (data ww)) = Inr x" "has_shape x [b, k, 3 * i]"
    using binop_ok [OF xr(2) wvs broadcast_shapes_same3] unfolding tensor_mul_def
    by (auto elim: returns_shapeE)
  obtain xs where xs: "tensor_sum x 2 = Inr xs" "has_shape xs [b, k]"
    using tensor_sum_last_of_3 [OF x(2)] by (auto elim: returns_shapeE)
  have "returns_shape (tensor_add xs (squeeze_all sb)) [b, k]"
    using xs(2) sb(2) b k ok by (rule add_squeezed_bias_ok)
  then show ?thesis
    by (simp only: LinearChunk_forward_2d_def Let_def sh0 sh1 sw0(1) sw(1) bias_for_call_def bias(1)
        option.case bias2(1) sb(1) sa0(1) sa(1) w1(1) a1(1) a2(1) ww(1) x1(1) xr(1) d wv x(1) xs(1)
        bindE_Inr)
qed

lemma LinearChunk_forward_2d_no_columns:
  assumes c: "shard_ok c n i" and idx: "has_shape idx [b, 0]"
  shows "LinearChunk_forward_2d c input0 idx = Inl RuntimeError"
proof -
  from c have w: "has_shape (lc_weight c) [n, i]" by (simp add: shard_ok_def)
  have "data idx = []" using idx by (simp add: has_shape_def)
  then have "valid_ids n idx" by (simp add: valid_ids_def)
  then obtain sw0 where sw0: "embedding idx (lc_weight c) = Inr sw0"
    using embedding_ok [OF w idx] by (auto elim: returns_shapeE)
  have sh: "shape idx ! 0 = b" "shape idx ! 1 = 0" using idx by (simp_all add: has_shape_def)
  have "view sw0 [int (b * 0), - 1] = Inl RuntimeError" using view_trail_zero by simp
  then show ?thesis
    by (simp only: LinearChunk_forward_2d_def Let_def sh sw0 bindE_Inr bindE_Inl)
qed


lemma LinearDistributed_forward_2d_steps:
  "LinearDistributed_forward_2d self input0 input1 =
     bindE (floor_div (shape input1 ! 1) (length (ld_partition_indices self))) (\<lambda>partition_length.
     bindE (mapE (shard_step_2d self input0 input1 partition_length)
              [0..<length (ld_device_embeddings self)])
       (\<lambda>total_x. cat total_x 1))"
  unfolding LinearDistributed_forward_2d_def shard_step_2d_def ..

lemma LinearDistributed_forward_Some_2d:
  "length (shape ids) = 2 \<Longrightarrow>
   LinearDistributed_forward clf (emb, Some ids)
     = bindE (LinearDistributed_forward_2d clf emb ids) (\<lambda>x. Inr (Some x))"
  by (simp add: LinearDistributed_forward_def)

lemma slice_cols_block:
  assumes ids: "has_shape ids [b, k]" and le: "(i + 1) * pl \<le> k"
  shows "\<exists>short. slice_cols ids (int (i * pl)) (int ((i + 1) * pl)) = Inr short
           \<and> has_shape short [b, pl]"
proof -
  have "i * pl \<le> k" using le by simp
  then have lo: "slice_index k (int (i * pl)) = i * pl" unfolding slice_index_nat by simp
  have hi: "slice_index k (int ((i + 1) * pl)) = (i + 1) * pl"
    unfolding slice_index_nat using le by simp
  have w: "(i + 1) * pl - i * pl = pl" by simp
  have gen: "slice_cols ids a c = Inr (Tensor [b, slice_index k c - slice_index k a]
      (concat (map (\<lambda>r. take (slice_index k c - slice_index k a)
                            (drop (slice_index k a) (chunk k r (data ids)))) [0..<b])))" for a c
    using ids by (simp add: slice_cols_def has_shape_def Let_def)
  have row: "length (take pl (drop (i * pl) (chunk k r (data ids)))) = pl" if "r < b" for r
  proof -
    have "length (chunk k r (data ids)) = k"
      using that ids by (intro length_chunk_lt [of r b]) (simp_all add: has_shape_def)
    then show ?thesis using le by simp
  qed
  have "length (concat (map (\<lambda>r. take pl (drop (i * pl) (chunk k r (data ids)))) [0..<b]))
      = length [0..<b] * pl"
  proof (rule length_concat_map_const)
    fix r assume "r \<in> set [0..<b]"
    then have "r < b" by simp
    then show "length (take pl (drop (i * pl) (chunk k r (data ids)))) = pl" by (rule row)
  qed
  then have len: "length (concat (map (\<lambda>r. take pl (drop (i * pl) (chunk k r (data ids)))) [0..<b]))
      = b * pl" by simp
  have "slice_cols ids (int (i * pl)) (int ((i + 1) * pl))
      = Inr (Tensor [b, pl] (concat (map (\<lambda>r. take pl (drop (i * pl) (chunk k r (data ids)))) [0..<b])))"
    using gen [of "int (i * pl)" "int ((i + 1) * pl)"] unfolding lo hi w .
  then show ?thesis using len by (simp add: has_shape_def)
qed


lemma LinearChunk_forward_Some_2d:
  "length (shape idx) = 2 \<Longrightarrow>
   LinearChunk_forward c (emb, Some idx) = bindE (LinearChunk_forward_2d c emb idx) (\<lambda>x. Inr (Some x))"
  by (simp add: LinearChunk_forward_def)

lemma forward_2d_all_valid:
  assumes init: "LinearDistributed_init input_size num_labels devs vals = Inr clf"
      and emb: "has_shape emb [b, 3 * nat input_size]"
      and ids: "has_shape ids [b, k]"
      and b: "1 \<le> b" and pl: "1 \<le> k div length devs"
      and ok: "2 \<le> k div length devs \<or> b = 1"
      and valid: "\<And>i short. i < length devs \<Longrightarrow>
           slice_cols ids (int (i * (k div length devs))) (int ((i + 1) * (k div length devs)))
             = Inr short \<Longrightarrow>
           valid_ids (nat (shard_size (ld_partition_indices clf ! i))) short"
  shows "\<exists>out xs. LinearDistributed_forward clf (emb, Some ids) = Inr (Some out)
           \<and> has_shape out [b, k - k mod length devs]
           \<and> length xs = length (ld_classifiers clf)
           \<and> (\<forall>i < length (ld_classifiers clf). \<exists>short.
                 slice_cols ids (int (i * (k div length devs))) (int ((i + 1) * (k div length devs)))
                   = Inr short
                 \<and> LinearChunk_forward (ld_classifiers clf ! i) (emb, Some short)
                     = Inr (Some (xs ! i)))
           \<and> cat xs 1 = Inr out"
proof -
  let ?n = "length devs"
  let ?pl = "k div ?n"
  let ?cls = "ld_classifiers clf"
  let ?pi = "ld_partition_indices clf"
  let ?ws = "replicate ?n ?pl"
  note v = LinearDistributed_init_valid [OF init]
  have each: "\<exists>x short. shard_step_2d clf emb ids ?pl i = Inr x
      \<and> slice_cols ids (int (i * ?pl)) (int ((i + 1) * ?pl)) = Inr short
      \<and> LinearChunk_forward (?cls ! i) (emb, Some short) = Inr (Some x)
      \<and> has_shape x [b, ?pl]" if i: "i < ?n" for i
  proof -
    have "(i + 1) * ?pl \<le> ?n * ?pl" using i by (intro mult_le_mono1) simp
    also have "\<dots> \<le> k" by simp
    finally have le: "(i + 1) * ?pl \<le> k" .
    from slice_cols_block [OF ids le] obtain short
      where sl: "slice_cols ids (int (i * ?pl)) (int ((i + 1) * ?pl)) = Inr short"
        and sh: "has_shape short [b, ?pl]" by blast
    have vi: "valid_ids (nat (shard_size (?pi ! i))) short" using i sl by (rule valid)
    have rank: "length (shape short) = 2" using sh by (simp add: has_shape_def)
    have "returns_shape (LinearChunk_forward_2d (?cls ! i) emb short) [b, ?pl]"
      using v(8) [OF i] emb sh vi b pl ok by (rule LinearChunk_forward_2d_ok)
    then obtain x where x: "LinearChunk_forward_2d (?cls ! i) emb short = Inr x"
      "has_shape x [b, ?pl]" by (auto elim: returns_shapeE)
    have fw: "LinearChunk_forward (?cls ! i) (emb, Some short) = Inr (Some x)"
      by (simp add: LinearChunk_forward_Some_2d [OF rank] x(1))
    have "shard_step_2d clf emb ids ?pl i = Inr x"
      unfolding shard_step_2d_def sl using i v(5) fw by (simp add: to_device_def)
    then show ?thesis using sl fw x(2) by blast
  qed
  have ex: "\<exists>y. shard_step_2d clf emb ids ?pl x = Inr y" if "x \<in> set [0..<?n]" for x
    using each [of x] that by auto
  have "\<exists>ys. mapE (shard_step_2d clf emb ids ?pl) [0..<?n] = Inr ys" by (rule mapE_total) (rule ex)
  then obtain xs where xs: "mapE (shard_step_2d clf emb ids ?pl) [0..<?n] = Inr xs" ..
  have lxs: "length xs = ?n" using mapE_length [OF xs] by simp
  have nth: "\<exists>short. slice_cols ids (int (i * ?pl)) (int ((i + 1) * ?pl)) = Inr short
      \<and> LinearChunk_forward (?cls ! i) (emb, Some short) = Inr (Some (xs ! i))
      \<and> has_shape (xs ! i) [b, ?pl]" if i: "i < ?n" for i
  proof -
    have "shard_step_2d clf emb ids ?pl i = Inr (xs ! i)" using mapE_upt_nth(2) [OF xs i] .
    with each [OF i] show ?thesis by auto
  qed
  have nth_shape: "has_shape (xs ! i) [b, ?ws ! i]" if "i < ?n" for i
    using nth [OF that] that by auto
  have sh: "list_all2 (\<lambda>t w. has_shape t [b, w]) xs ?ws"
    unfolding list_all2_conv_all_nth using lxs nth_shape by simp
  have ne: "xs \<noteq> []" using lxs v(1) by auto
  from cat_cols [OF ne sh] obtain out where out: "cat xs 1 = Inr out"
    "has_shape out [b, sum_list ?ws]" by blast
  have "?n * ?pl = k - k mod ?n" by (simp add: minus_mod_eq_mult_div)
  then have total: "sum_list ?ws = k - k mod ?n" by (simp add: sum_list_replicate)
  have rank: "length (shape ids) = 2" using ids by (simp add: has_shape_def)
  have k1: "shape ids ! 1 = k" using ids by (simp add: has_shape_def)
  have fd: "floor_div k (length ?pi) = Inr ?pl" using v(1) v(4) by (simp add: floor_div_def)
  have out1: "cat xs (Suc 0) = Inr out" using out(1) by simp
  have "LinearDistributed_forward_2d clf emb ids = Inr out"
    unfolding LinearDistributed_forward_2d_steps k1 fd v(6) by (simp add: xs out1)
  then have fwd: "LinearDistributed_forward clf (emb, Some ids) = Inr (Some out)"
    by (simp add: LinearDistributed_forward_Some_2d [OF rank])
  have hs: "has_shape out [b, k - k mod ?n]" using out(2) total by simp
  have shards: "\<forall>i < length ?cls. \<exists>short.
      slice_cols ids (int (i * ?pl)) (int ((i + 1) * ?pl)) = Inr short
      \<and> LinearChunk_forward (?cls ! i) (emb, Some short) = Inr (Some (xs ! i))"
    using nth v(5) by auto
  have l: "length xs = length ?cls" using lxs v(5) by simp
  show ?thesis
    by (rule exI [of _ out], rule exI [of _ xs]) (use fwd hs l shards out(1) in blast)
qed

lemma forward_2d_too_few_columns:
  assumes init: "LinearDistributed_init input_size num_labels devs vals = Inr clf"
      and ids: "has_shape ids [b, k]"
      and pl: "k div length devs = 0"
  shows "LinearDistributed_forward clf (emb, Some ids) = Inl RuntimeError"
proof -
  let ?n = "length devs"
  let ?cls = "ld_classifiers clf"
  note v = LinearDistributed_init_valid [OF init]
  have le: "(0 + 1) * (0::nat) \<le> k" by simp
  from slice_cols_block [OF ids le] obtain short
    where sl: "slice_cols ids (int (0 * 0)) (int ((0 + 1) * 0)) = Inr short"
      and sh: "has_shape short [b, 0]" by blast
  have rank: "length (shape short) = 2" using sh by (simp add: has_shape_def)
  have "LinearChunk_forward_2d (?cls ! 0) emb short = Inl RuntimeError"
    using v(8) [OF v(1)] sh by (rule LinearChunk_forward_2d_no_columns)
  then have fw: "LinearChunk_forward (?cls ! 0) (emb, Some short) = Inl RuntimeError"
    by (simp add: LinearChunk_forward_Some_2d [OF rank])
  have step: "shard_step_2d clf emb ids 0 0 = Inl RuntimeError"
    unfolding shard_step_2d_def sl using v(1) v(5) fw by simp
  have "[0..<?n] = 0 # [1..<?n]" using v(1) by (simp add: upt_rec)
  then have m: "mapE (shard_step_2d clf emb ids 0) [0..<?n] = Inl RuntimeError"
    using step by simp
  have rank: "length (shape ids) = 2" using ids by (simp add: has_shape_def)
  have k1: "shape ids ! 1 = k" using ids by (simp add: has_shape_def)
  have fd: "floor_div k (length (ld_partition_indices clf)) = Inr 0"
    using v(1) v(4) pl by (simp add: floor_div_def)
  have "LinearDistributed_forward_2d clf emb ids = Inl RuntimeError"
    unfolding LinearDistributed_forward_2d_steps k1 fd v(6) by (simp add: m)
  then show ?thesis by (simp add: LinearDistributed_forward_Some_2d [OF rank])
qed


lemma zero_shard_forward_2d_single:
  "LinearChunk_forward_2d (zero_shard dev) (Tensor [1, 3] [1, 2, 3]) (Tensor [1, 1] [0])
     = Inr (Tensor [1, 1] [0])"
  "LinearChunk_forward_2d (zero_shard dev) (Tensor [1, 3] [1, 2, 3]) (Tensor [1, 1] [1])
     = Inr (Tensor [1, 1] [0])"
  by (simp_all add: LinearChunk_forward_2d_def zero_shard_def embedding_def view_def infer_size_def
      bias_for_call_def unsqueeze_def softmax1_def tensor_mul_def tensor_binop_def
      broadcast_shapes_def expand_to_def repeat_def shape_last_def tensor_sum_def reduce_dim_def
      squeeze_all_def tensor_add_def chunk_def numel_def upt_rec Let_def eval_nat_numeral)

text \<open>
  C5.  As stated the claim fails: with two shards and a \<open>(1, 3)\<close> matrix of candidate
  ids, 3 is not divisible by 2, yet the forward raises nothing and returns a \<open>(1, 2)\<close>
  matrix; the third candidate column is dropped.
\<close>

theorem indivisible_columns_dropped_silently:
  "LinearDistributed_init 1 4 [''cuda:0'', ''cuda:1''] (\<lambda>_ _ _. 0) = Inr classifier_4_2
   \<and> \<not> (2::nat) dvd 3
   \<and> LinearDistributed_forward classifier_4_2
        (Tensor [1, 3] [1, 2, 3], Some (Tensor [1, 3] [0, 1, 0])) = Inr (Some (Tensor [1, 2] [0, 0]))"
proof -
  have s0: "slice_cols (Tensor [1, 3] [0, 1, 0 :: int]) 0 1 = Inr (Tensor [1, 1] [0])"
    by (simp add: slice_cols_def slice_index_def chunk_def Let_def)
  have s1: "slice_cols (Tensor [1, 3] [0, 1, 0 :: int]) 1 2 = Inr (Tensor [1, 1] [1])"
    by (simp add: slice_cols_def slice_index_def chunk_def Let_def)
  have c: "cat [Tensor [1, 1] [0 :: real], Tensor [1, 1] [0]] (Suc 0) = Inr (Tensor [1, 2] [0, 0])"
    by (simp add: cat_def chunk_def Let_def)
  have rank: "length (shape (Tensor [1, 3] [0, 1, 0 :: int])) = 2" by simp
  have k: "shape (Tensor [1, 3] [0, 1, 0 :: int]) ! 1 = 3" by simp
  have n: "length (ld_partition_indices classifier_4_2) = 2" by (simp add: classifier_4_2_def)
  have fd: "floor_div (shape (Tensor [1, 3] [0, 1, 0 :: int]) ! 1)
      (length (ld_partition_indices classifier_4_2)) = Inr 1"
    unfolding k n by (simp add: floor_div_def)
  have c0: "list_get (ld_classifiers classifier_4_2) 0 = Inr (zero_shard ''cuda:0'')"
    by (simp add: classifier_4_2_def list_get_def)
  have c1: "list_get (ld_classifiers classifier_4_2) 1 = Inr (zero_shard ''cuda:1'')"
    by (simp add: classifier_4_2_def list_get_def)
  have r1: "length (shape (Tensor [1, 1] [j :: int])) = 2" for j by simp
  have f0: "LinearChunk_forward (zero_shard dev) (Tensor [1, 3] [1, 2, 3], Some (Tensor [1, 1] [0]))
      = Inr (Some (Tensor [1, 1] [0]))" for dev
    unfolding LinearChunk_forward_Some_2d [OF r1] zero_shard_forward_2d_single by simp
  have f1: "LinearChunk_forward (zero_shard dev) (Tensor [1, 3] [1, 2, 3], Some (Tensor [1, 1] [1]))
      = Inr (Some (Tensor [1, 1] [0]))" for dev
    unfolding LinearChunk_forward_Some_2d [OF r1] zero_shard_forward_2d_single by simp
  have i0: "int (0 * 1) = 0" "int ((0 + 1) * 1) = 1" "int (1 * 1) = 1" "int ((1 + 1) * 1) = 2"
    by simp_all
  have st0: "shard_step_2d classifier_4_2 (Tensor [1, 3] [1, 2, 3]) (Tensor [1, 3] [0, 1, 0]) 1 0
      = Inr (Tensor [1, 1] [0])"
    unfolding shard_step_2d_def i0 s0 bindE_Inr c0 f0
    by (simp add: to_device_def)
  have st1: "shard_step_2d classifier_4_2 (Tensor [1, 3] [1, 2, 3]) (Tensor [1, 3] [0, 1, 0]) 1 1
      = Inr (Tensor [1, 1] [0])"
    unfolding shard_step_2d_def i0 s1 bindE_Inr c1 f1
    by (simp add: to_device_def)
  have up: "[0..<length (ld_device_embeddings classifier_4_2)] = [0, 1]"
    by (simp add: classifier_4_2_def upt_rec)
  have m: "mapE (shard_step_2d classifier_4_2 (Tensor [1, 3] [1, 2, 3]) (Tensor [1, 3] [0, 1, 0]) 1)
      [0, 1] = Inr [Tensor [1, 1] [0], Tensor [1, 1] [0]]"
    using st0 st1 by simp
  have "LinearDistributed_forward_2d classifier_4_2 (Tensor [1, 3] [1, 2, 3]) (Tensor [1, 3] [0, 1, 0])
      = Inr (Tensor [1, 2] [0, 0])"
    unfolding LinearDistributed_forward_2d_steps fd up bindE_Inr m using c by simp
  then have "LinearDistributed_forward classifier_4_2
        (Tensor [1, 3] [1, 2, 3], Some (Tensor [1, 3] [0, 1, 0])) = Inr (Some (Tensor [1, 2] [0, 0]))"
    unfolding LinearDistributed_forward_Some_2d [OF rank] by simp
  moreover have "\<not> (2::nat) dvd 3" by simp
  ultimately show ?thesis using classifier_4_2_init by (intro conjI)
qed

text \<open>
  C5, amended.  For a constructed classifier with \<open>N\<close> shards, an embedding batch of
  shape \<open>(batch, 3 * input_size)\<close> with \<open>batch \<ge> 1\<close> and a \<open>(batch, K)\<close> matrix of
  candidate ids, shard \<open>i\<close> receives the columns \<open>[i * (K // N), (i + 1) * (K // N))\<close>.
  When \<open>K // N = 0\<close> the forward raises a shape error.  When \<open>K // N \<ge> 2\<close>, or
  \<open>K // N = 1\<close> and \<open>batch = 1\<close>, and every id is a row of the shard that receives it,
  the result is the column-wise concatenation of the shard outputs and has
  \<open>K - K mod N\<close> columns: exactly \<open>K\<close> when \<open>N\<close> divides \<open>K\<close>, and otherwise the last
  \<open>K mod N\<close> candidate columns are dropped without an error.
\<close>

theorem forward_2d_splits_columns_evenly:
  assumes init: "LinearDistributed_init input_size num_labels devs vals = Inr clf"
      and emb: "has_shape emb [b, 3 * nat input_size]"
      and ids: "has_shape ids [b, k]"
      and b: "1 \<le> b"
  shows "(k div length devs = 0 \<longrightarrow>
            LinearDistributed_forward clf (emb, Some ids) = Inl RuntimeError)
       \<and> (1 \<le> k div length devs \<and> (2 \<le> k div length devs \<or> b = 1)
          \<and> (\<forall>i < length devs. \<forall>short.
                slice_cols ids (int (i * (k div length devs))) (int ((i + 1) * (k div length devs)))
                  = Inr short
                \<longrightarrow> valid_ids (nat (shard_size (ld_partition_indices clf ! i))) short)
          \<longrightarrow> (\<exists>out xs. LinearDistributed_forward clf (emb, Some ids) = Inr (Some out)
                 \<and> has_shape out [b, k - k mod length devs]
                 \<and> length xs = length (ld_classifiers clf)
                 \<and> (\<forall>i < length (ld_classifiers clf). \<exists>short.
                       slice_cols ids (int (i * (k div length devs)))
                         (int ((i + 1) * (k div length devs))) = Inr short
                       \<and> LinearChunk_forward (ld_classifiers clf ! i) (emb, Some short)
                           = Inr (Some (xs ! i)))
                 \<and> cat xs 1 = Inr out))"
proof (intro conjI impI)
  assume "k div length devs = 0"
  with init ids show "LinearDistributed_forward clf (emb, Some ids) = Inl RuntimeError"
    by (rule forward_2d_too_few_columns)
next
  assume a: "1 \<le> k div length devs \<and> (2 \<le> k div length devs \<or> b = 1)
          \<and> (\<forall>i < length devs. \<forall>short.
                slice_cols ids (int (i * (k div length devs))) (int ((i + 1) * (k div length devs)))
                  = Inr short
                \<longrightarrow> valid_ids (nat (shard_size (ld_partition_indices clf ! i))) short)"
  then have pl: "1 \<le> k div length devs" and ok: "2 \<le> k div length devs \<or> b = 1"
    and valid: "\<And>i short. i < length devs \<Longrightarrow>
           slice_cols ids (int (i * (k div length devs))) (int ((i + 1) * (k div length devs)))
             = Inr short \<Longrightarrow>
           valid_ids (nat (shard_size (ld_partition_indices clf ! i))) short"
    by blast+
  show "\<exists>out xs. LinearDistributed_forward clf (emb, Some ids) = Inr (Some out)
                 \<and> has_shape out [b, k - k mod length devs]
                 \<and> length xs = length (ld_classifiers clf)
                 \<and> (\<forall>i < length (ld_classifiers clf). \<exists>short.
                       slice_cols ids (int (i * (k div length devs)))
                         (int ((i + 1) * (k div length devs))) = Inr short
                       \<and> LinearChunk_forward (ld_classifiers clf ! i) (emb, Some short)
                           = Inr (Some (xs ! i)))
                 \<and> cat xs 1 = Inr out"
    using init emb ids b pl ok valid by (rule forward_2d_all_valid)
qed

theorem forward_2d_splits_columns_evenly_witness:
  "LinearDistributed_init 1 4 [''cuda:0'', ''cuda:1''] (\<lambda>_ _ _. 0) = Inr classifier_4_2
   \<and> has_shape (Tensor [1, 3] [1, 2, 3 :: real]) [1, 3 * nat 1]
   \<and> has_shape (Tensor [1, 2] [0, 1 :: int]) [1, 2]
   \<and> (\<exists>out xs. LinearDistributed_forward classifier_4_2
                   (Tensor [1, 3] [1, 2, 3], Some (Tensor [1, 2] [0, 1])) = Inr (Some out)
         \<and> has_shape out [1, 2 - 2 mod length [''cuda:0'', ''cuda:1'']]
         \<and> length xs = length (ld_classifiers classifier_4_2)
         \<and> cat xs 1 = Inr out)"
proof -
  have emb: "has_shape (Tensor [1, 3] [1, 2, 3 :: real]) [1, 3 * nat 1]"
    by (simp add: has_shape_def)
  have ids: "has_shape (Tensor [1, 2] [0, 1 :: int]) [1, 2]"
    by (simp add: has_shape_def)
  have b: "(1::nat) \<le> 1" by simp
  have d: "(2::nat) div Suc (Suc 0) = Suc 0" by (simp add: numeral_2_eq_2)
  have s0: "slice_cols (Tensor [1, 2] [0, 1 :: int]) 0 1 = Inr (Tensor [1, 1] [0])"
    by (simp add: slice_cols_def slice_index_def chunk_def Let_def)
  have s1: "slice_cols (Tensor [1, 2] [0, 1 :: int]) 1 2 = Inr (Tensor [1, 1] [1])"
    by (simp add: slice_cols_def slice_index_def chunk_def Let_def)
  have v: "valid_ids 2 (Tensor [1, 1] [0])" "valid_ids 2 (Tensor [1, 1] [1])"
    by (simp_all add: valid_ids_def)
  have pre: "1 \<le> 2 div length [''cuda:0'', ''cuda:1'']
      \<and> (2 \<le> 2 div length [''cuda:0'', ''cuda:1''] \<or> (1::nat) = 1)
      \<and> (\<forall>i < length [''cuda:0'', ''cuda:1'']. \<forall>short.
            slice_cols (Tensor [1, 2] [0, 1]) (int (i * (2 div length [''cuda:0'', ''cuda:1''])))
              (int ((i + 1) * (2 div length [''cuda:0'', ''cuda:1'']))) = Inr short
            \<longrightarrow> valid_ids (nat (shard_size (ld_partition_indices classifier_4_2 ! i))) short)"
    using s0 s1 v by (auto simp: d less_Suc_eq classifier_4_2_def shard_size_def)
  note th = forward_2d_splits_columns_evenly [OF classifier_4_2_init emb ids b]
  from th [THEN conjunct2] pre
  have "\<exists>out xs. LinearDistributed_forward classifier_4_2
          (Tensor [1, 3] [1, 2, 3], Some (Tensor [1, 2] [0, 1])) = Inr (Some out)
      \<and> has_shape out [1, 2 - 2 mod length [''cuda:0'', ''cuda:1'']]
      \<and> length xs = length (ld_classifiers classifier_4_2)
      \<and> (\<forall>i < length (ld_classifiers classifier_4_2). \<exists>short.
            slice_cols (Tensor [1, 2] [0, 1]) (int (i * (2 div length [''cuda:0'', ''cuda:1''])))
              (int ((i + 1) * (2 div length [''cuda:0'', ''cuda:1'']))) = Inr short
            \<and> LinearChunk_forward (ld_classifiers classifier_4_2 ! i)
                 (Tensor [1, 3] [1, 2, 3], Some short) = Inr (Some (xs ! i)))
      \<and> cat xs 1 = Inr out" by (rule mp)
  then obtain out xs where "LinearDistributed_forward classifier_4_2
          (Tensor [1, 3] [1, 2, 3], Some (Tensor [1, 2] [0, 1])) = Inr (Some out)"
      "has_shape out [1, 2 - 2 mod length [''cuda:0'', ''cuda:1'']]"
      "length xs = length (ld_classifiers classifier_4_2)" "cat xs 1 = Inr out" by blast
  then have "\<exists>out xs. LinearDistributed_forward classifier_4_2
                   (Tensor [1, 3] [1, 2, 3], Some (Tensor [1, 2] [0, 1])) = Inr (Some out)
         \<and> has_shape out [1, 2 - 2 mod length [''cuda:0'', ''cuda:1'']]
         \<and> length xs = length (ld_classifiers classifier_4_2)
         \<and> cat xs 1 = Inr out" by blast
  then show ?thesis using classifier_4_2_init emb ids by (intro conjI)
qed

section \<open>Properties: the encoders\<close>





















section \<open>Properties: the model \<open>GalaXCBase\<close>\<close>

lemma construct_embeddings_short:
  assumes "self ''feature_dim'' = Some (IntV fd)" and "self ''embed_dim'' = Some (IntV ed)"
    and "self ''fanouts'' = Some (IntListV fo)" and "self ''device_name'' = Some (DeviceV dn)"
    and "length fo < 3"
  shows "construct_embeddings eps self = Inl IndexError"
proof -
  have "length fo = 0 \<or> length fo = 1 \<or> length fo = 2" using assms(5) by arith
  then show ?thesis
    using assms(1-4)
    by (auto simp: construct_embeddings_def get_int_def get_int_list_def get_device_def
        getattr_def list_get_def Let_def)
qed

lemma construct_embeddings_three:
  assumes "self ''feature_dim'' = Some (IntV fd)" and "self ''embed_dim'' = Some (IntV ed)"
    and "self ''fanouts'' = Some (IntListV fo)" and "self ''device_name'' = Some (DeviceV dn)"
    and "length fo = 3"
  shows "construct_embeddings eps self =
     Inr (self(''first_layer_enc'' \<mapsto> EncoderV (first_hop dn fd ed fo eps),
               ''second_layer_enc'' \<mapsto> EncoderV (second_hop dn fd ed fo eps),
               ''third_layer_enc'' \<mapsto> EncoderV (third_hop dn fd ed fo eps)))"
proof -
  have "fo \<noteq> []" using assms(5) by auto
  then show ?thesis
    using assms
    by (simp add: construct_embeddings_def get_int_def get_int_list_def get_device_def
        getattr_def list_get_def Let_def first_hop_def second_hop_def third_hop_def)
qed

lemma construct_transform_eq:
  assumes "self ''dropout'' = Some (FloatV dr)" and "self ''embed_dim'' = Some (IntV ed)"
    and "self ''hidden_dims'' = Some (IntV hdim)"
  shows "construct_transform sequential k self =
     bindE (sequential dr ed hdim k) (\<lambda>f. Inr (TransformV f))"
  using assms by (simp add: construct_transform_def get_int_def get_float_def getattr_def)

lemma construct_classifier_eq:
  assumes "self ''hidden_dims'' = Some (IntV hdim)" and "self ''num_labels'' = Some (IntV nl)"
    and "self ''device_names'' = Some (DeviceListV dn)"
  shows "construct_classifier vals self =
     bindE (LinearDistributed_init hdim nl dn vals) (\<lambda>c. Inr (ClassifierV c))"
  using assms
  by (simp add: construct_classifier_def get_int_def get_device_list_def getattr_def)


lemma GalaXCBase_init_assertion:
  assumes "length fanouts \<notin> {1, 2, 3}"
  shows "GalaXCBase_init num_labels hidden_dims device_names feature_dim fanouts graph embed_dim
       dropout num_clf_partitions padding_idx eps sequential vals = Inl AssertionError"
  using assms by (simp add: GalaXCBase_init_def)

lemma GalaXCBase_init_short:
  assumes "length fanouts = 1 \<or> length fanouts = 2"
  shows "GalaXCBase_init num_labels hidden_dims device_names feature_dim fanouts graph embed_dim
       dropout num_clf_partitions padding_idx eps sequential vals = Inl IndexError"
proof (cases device_names)
  case Nil
  then show ?thesis using assms by (auto simp: GalaXCBase_init_def list_get_def)
next
  case (Cons d ds)
  have l: "length fanouts < 3" using assms by auto
  have g: "list_get device_names 0 = Inr d" using Cons by (simp add: list_get_def)
  have "length fanouts \<in> set [1, 2, 3]" using assms by auto
  then show ?thesis
    unfolding GalaXCBase_init_def Let_def g bindE_Inr
    by (simp add: construct_embeddings_short [OF _ _ _ _ l])
qed

lemma GalaXCBase_init_three:
  assumes "length fanouts = 3" and "device_names \<noteq> []"
    and "sequential dropout embed_dim hidden_dims 1 = Inr f1"
    and "sequential dropout embed_dim hidden_dims 2 = Inr f2"
    and "sequential dropout embed_dim hidden_dims 3 = Inr f3"
    and "LinearDistributed_init hidden_dims num_labels device_names vals = Inr c"
  shows "GalaXCBase_init num_labels hidden_dims device_names feature_dim fanouts graph embed_dim
       dropout num_clf_partitions padding_idx eps sequential vals
     = Inr (constructed_model num_labels hidden_dims device_names feature_dim fanouts graph
         embed_dim dropout num_clf_partitions padding_idx eps f1 f2 f3 c)"
proof -
  have g: "list_get device_names 0 = Inr (device_names ! 0)"
    using assms(2) by (simp add: list_get_def)
  have a: "length fanouts \<in> set [1, 2, 3]" using assms(1) by simp
  have s1: "sequential dropout embed_dim hidden_dims (Suc 0) = Inr f1" using assms(3) by simp
  show ?thesis
    unfolding GalaXCBase_init_def Let_def g bindE_Inr
    using a
    by (simp add: construct_embeddings_three [OF _ _ _ _ assms(1)] construct_transform_eq
        construct_classifier_eq s1 assms(4-6) constructed_model_def)
qed


lemma GalaXCBase_init_chain:
  assumes "length fanouts = 3" and "device_names \<noteq> []"
  shows "GalaXCBase_init num_labels hidden_dims device_names feature_dim fanouts graph embed_dim
       dropout num_clf_partitions padding_idx eps sequential vals
     = bindE (sequential dropout embed_dim hidden_dims 1) (\<lambda>f1.
       bindE (sequential dropout embed_dim hidden_dims 2) (\<lambda>f2.
       bindE (sequential dropout embed_dim hidden_dims 3) (\<lambda>f3.
       bindE (LinearDistributed_init hidden_dims num_labels device_names vals) (\<lambda>c.
         Inr (constructed_model num_labels hidden_dims device_names feature_dim fanouts graph
           embed_dim dropout num_clf_partitions padding_idx eps f1 f2 f3 c)))))"
proof -
  have g: "list_get device_names 0 = Inr (device_names ! 0)"
    using assms(2) by (simp add: list_get_def)
  have a: "length fanouts \<in> set [1, 2, 3]" using assms(1) by simp
  show ?thesis
  proof (cases "sequential dropout embed_dim hidden_dims 1")
    case (Inl e)
    then have "sequential dropout embed_dim hidden_dims (Suc 0) = Inl e" by simp
    then show ?thesis
      unfolding GalaXCBase_init_def Let_def g bindE_Inr using a Inl
      by (simp add: construct_embeddings_three [OF _ _ _ _ assms(1)] construct_transform_eq)
  next
    case f1: (Inr f1)
    then have s1: "sequential dropout embed_dim hidden_dims (Suc 0) = Inr f1" by simp
    show ?thesis
    proof (cases "sequential dropout embed_dim hidden_dims 2")
      case (Inl e)
      then show ?thesis
        unfolding GalaXCBase_init_def Let_def g bindE_Inr using a f1
        by (simp add: construct_embeddings_three [OF _ _ _ _ assms(1)] construct_transform_eq s1)
    next
      case f2: (Inr f2)
      show ?thesis
      proof (cases "sequential dropout embed_dim hidden_dims 3")
        case (Inl e)
        then show ?thesis
          unfolding GalaXCBase_init_def Let_def g bindE_Inr using a f1 f2
          by (simp add: construct_embeddings_three [OF _ _ _ _ assms(1)] construct_transform_eq s1)
      next
        case f3: (Inr f3)
        show ?thesis
        proof (cases "LinearDistributed_init hidden_dims num_labels device_names vals")
          case (Inl e)
          then show ?thesis
            unfolding GalaXCBase_init_def Let_def g bindE_Inr using a f1 f2 f3
            by (simp add: construct_embeddings_three [OF _ _ _ _ assms(1)] construct_transform_eq
                construct_classifier_eq s1)
        next
          case (Inr c)
          then show ?thesis
            using GalaXCBase_init_three [where sequential = sequential and dropout = dropout
                and embed_dim = embed_dim and hidden_dims = hidden_dims, OF assms f1 f2 f3 Inr]
              f1 f2 f3
            by simp
        qed
      qed
    qed
  qed
qed

lemma GalaXCBase_init_Inr:
  assumes "GalaXCBase_init num_labels hidden_dims device_names feature_dim fanouts graph embed_dim
       dropout num_clf_partitions padding_idx eps sequential vals = Inr m"
  shows "length fanouts = 3 \<and> device_names \<noteq> []
    \<and> (\<exists>f1 f2 f3 c. sequential dropout embed_dim hidden_dims 1 = Inr f1
          \<and> sequential dropout embed_dim hidden_dims 2 = Inr f2
          \<and> sequential dropout embed_dim hidden_dims 3 = Inr f3
          \<and> LinearDistributed_init hidden_dims num_labels device_names vals = Inr c
          \<and> m = constructed_model num_labels hidden_dims device_names feature_dim fanouts graph
                embed_dim dropout num_clf_partitions padding_idx eps f1 f2 f3 c)"
proof -
  have in3: "length fanouts \<in> {1, 2, 3}"
    using assms GalaXCBase_init_assertion [of fanouts num_labels hidden_dims device_names
        feature_dim graph embed_dim dropout num_clf_partitions padding_idx eps sequential vals]
    by auto
  have l: "length fanouts = 3"
    using assms in3 GalaXCBase_init_short [of fanouts num_labels hidden_dims device_names
        feature_dim graph embed_dim dropout num_clf_partitions padding_idx eps sequential vals]
    by auto
  have d: "device_names \<noteq> []"
  proof
    assume "device_names = []"
    then have "GalaXCBase_init num_labels hidden_dims device_names feature_dim fanouts graph
       embed_dim dropout num_clf_partitions padding_idx eps sequential vals = Inl IndexError"
      using l by (simp add: GalaXCBase_init_def list_get_def)
    then show False using assms by simp
  qed
  show ?thesis
    using assms l d unfolding GalaXCBase_init_chain [OF l d] bindE_eq_Inr by auto
qed


lemma galaxc_example_init:
  "GalaXCBase_init 4 1 [''cuda:0'', ''cuda:1''] 1 [2, 2, 2] () 1 (1 / 2) 1 0 (\<lambda>_. 0)
     (\<lambda>_ _ _ _. Inr Inr) (\<lambda>_ _ _. 0) = Inr galaxc_example"
  unfolding galaxc_example_def
  using GalaXCBase_init_three [where sequential = "\<lambda>_ _ _ _. Inr Inr" and dropout = "1 / 2"
      and embed_dim = 1 and hidden_dims = 1 and num_labels = 4
      and device_names = "[''cuda:0'', ''cuda:1'']" and fanouts = "[2, 2, 2]"
      and vals = "\<lambda>_ _ _. 0" and ?f1.0 = Inr and ?f2.0 = Inr and ?f3.0 = Inr and c = classifier_4_2
      and feature_dim = 1 and graph = "()" and num_clf_partitions = 1 and padding_idx = 0
      and eps = "\<lambda>_. 0"]
    classifier_4_2_init
  by simp

lemma LinearDistributed_init_num_partitions:
  assumes "LinearDistributed_init input_size output_size devs vals = Inr clf"
  shows "ld_num_partitions clf = length devs"
  using assms unfolding LinearDistributed_init_def Let_def bindE_eq_Inr by auto

lemma encode_ignores_num_clf_partitions:
  "encode (self(''num_clf_partitions'' \<mapsto> v)) batch = encode self batch"
  by (simp add: encode_def get_encoder_def get_transform_def getattr_def)

lemma forward_ignores_num_clf_partitions:
  "GalaXCBase_forward (self(''num_clf_partitions'' \<mapsto> v)) batch = GalaXCBase_forward self batch"
  by (simp add: GalaXCBase_forward_def encode_ignores_num_clf_partitions get_classifier_def
      getattr_def)

lemma constructed_model_num_clf_partitions:
  "constructed_model num_labels hidden_dims device_names feature_dim fanouts graph embed_dim
      dropout p' padding_idx eps f1 f2 f3 c
   = (constructed_model num_labels hidden_dims device_names feature_dim fanouts graph embed_dim
      dropout p padding_idx eps f1 f2 f3 c)(''num_clf_partitions'' \<mapsto> IntV p')"
  by (rule ext) (simp add: constructed_model_def)

text \<open>
  C6.  The assertion of the constructor admits one, two or three fan-outs, but
  \<open>_construct_embeddings\<close> always builds three hops and reads \<open>self.fanouts[1]\<close> and
  \<open>self.fanouts[2]\<close>: with one or two fan-outs the construction fails with
  \<open>IndexError\<close>, whatever the other arguments are.  A list of any other length than
  1, 2, 3 fails the assertion, and a list of three fan-outs constructs the model when the
  device list is not empty and the transforms and the classifier can be built.
\<close>

theorem construction_fails_for_one_or_two_fanouts:
  "(length fanouts \<notin> {1, 2, 3} \<longrightarrow>
      GalaXCBase_init num_labels hidden_dims device_names feature_dim fanouts graph embed_dim
        dropout num_clf_partitions padding_idx eps sequential vals = Inl AssertionError)
   \<and> (length fanouts = 1 \<or> length fanouts = 2 \<longrightarrow>
      GalaXCBase_init num_labels hidden_dims device_names feature_dim fanouts graph embed_dim
        dropout num_clf_partitions padding_idx eps sequential vals = Inl IndexError)
   \<and> (length fanouts = 3 \<and> device_names \<noteq> []
        \<and> sequential dropout embed_dim hidden_dims 1 = Inr f1
        \<and> sequential dropout embed_dim hidden_dims 2 = Inr f2
        \<and> sequential dropout embed_dim hidden_dims 3 = Inr f3
        \<and> LinearDistributed_init hidden_dims num_labels device_names vals = Inr c \<longrightarrow>
      GalaXCBase_init num_labels hidden_dims device_names feature_dim fanouts graph embed_dim
        dropout num_clf_partitions padding_idx eps sequential vals
      = Inr (constructed_model num_labels hidden_dims device_names feature_dim fanouts graph
          embed_dim dropout num_clf_partitions padding_idx eps f1 f2 f3 c))
   \<and> (\<forall>m. GalaXCBase_init num_labels hidden_dims device_names feature_dim fanouts graph
          embed_dim dropout num_clf_partitions padding_idx eps sequential vals = Inr m \<longrightarrow>
        length fanouts = 3)"
proof (intro conjI impI allI)
  assume "length fanouts \<notin> {1, 2, 3}"
  then show "GalaXCBase_init num_labels hidden_dims device_names feature_dim fanouts graph
      embed_dim dropout num_clf_partitions padding_idx eps sequential vals = Inl AssertionError"
    by (rule GalaXCBase_init_assertion)
next
  assume "length fanouts = 1 \<or> length fanouts = 2"
  then show "GalaXCBase_init num_labels hidden_dims device_names feature_dim fanouts graph
      embed_dim dropout num_clf_partitions padding_idx eps sequential vals = Inl IndexError"
    by (rule GalaXCBase_init_short)
next
  assume a: "length fanouts = 3 \<and> device_names \<noteq> []
        \<and> sequential dropout embed_dim hidden_dims 1 = Inr f1
        \<and> sequential dropout embed_dim hidden_dims 2 = Inr f2
        \<and> sequential dropout embed_dim hidden_dims 3 = Inr f3
        \<and> LinearDistributed_init hidden_dims num_labels device_names vals = Inr c"
  then have l: "length fanouts = 3" and d: "device_names \<noteq> []"
    and s1: "sequential dropout embed_dim hidden_dims 1 = Inr f1"
    and s2: "sequential dropout embed_dim hidden_dims 2 = Inr f2"
    and s3: "sequential dropout embed_dim hidden_dims 3 = Inr f3"
    and c: "LinearDistributed_init hidden_dims num_labels device_names vals = Inr c"
    by simp_all
  show "GalaXCBase_init num_labels hidden_dims device_names feature_dim fanouts graph embed_dim
        dropout num_clf_partitions padding_idx eps sequential vals
      = Inr (constructed_model num_labels hidden_dims device_names feature_dim fanouts graph
          embed_dim dropout num_clf_partitions padding_idx eps f1 f2 f3 c)"
    by (rule GalaXCBase_init_three [where sequential = sequential and dropout = dropout
      and embed_dim = embed_dim and hidden_dims = hidden_dims, OF l d s1 s2 s3 c])
next
  fix m
  assume "GalaXCBase_init num_labels hidden_dims device_names feature_dim fanouts graph
          embed_dim dropout num_clf_partitions padding_idx eps sequential vals = Inr m"
  from GalaXCBase_init_Inr [OF this] show "length fanouts = 3" by (rule conjunct1)
qed

theorem construction_fails_for_one_or_two_fanouts_witness:
  "GalaXCBase_init 4 1 [''cuda:0'', ''cuda:1''] 1 [2, 2, 2, 2] () 1 (1 / 2) 1 0 (\<lambda>_. 0)
     (\<lambda>_ _ _ _. Inr Inr) (\<lambda>_ _ _. 0) = Inl AssertionError
   \<and> GalaXCBase_init 4 1 [''cuda:0'', ''cuda:1''] 1 [2] () 1 (1 / 2) 1 0 (\<lambda>_. 0)
     (\<lambda>_ _ _ _. Inr Inr) (\<lambda>_ _ _. 0) = Inl IndexError
   \<and> GalaXCBase_init 4 1 [''cuda:0'', ''cuda:1''] 1 [2, 2] () 1 (1 / 2) 1 0 (\<lambda>_. 0)
     (\<lambda>_ _ _ _. Inr Inr) (\<lambda>_ _ _. 0) = Inl IndexError
   \<and> GalaXCBase_init 4 1 [''cuda:0'', ''cuda:1''] 1 [2, 2, 2] () 1 (1 / 2) 1 0 (\<lambda>_. 0)
     (\<lambda>_ _ _ _. Inr Inr) (\<lambda>_ _ _. 0)
     = Inr (constructed_model 4 1 [''cuda:0'', ''cuda:1''] 1 [2, 2, 2] () 1 (1 / 2) 1 0 (\<lambda>_. 0)
         Inr Inr Inr classifier_4_2)"
proof -
  note t = construction_fails_for_one_or_two_fanouts [where sequential = "\<lambda>_ _ _ _. Inr Inr"
      and dropout = "1 / 2" and embed_dim = 1 and hidden_dims = 1 and num_labels = 4
      and device_names = "[''cuda:0'', ''cuda:1'']"
      and vals = "\<lambda>_ _ _. 0" and ?f1.0 = Inr and ?f2.0 = Inr and ?f3.0 = Inr and c = classifier_4_2
      and feature_dim = 1 and graph = "()" and num_clf_partitions = 1 and padding_idx = 0
      and eps = "\<lambda>_. 0"]
  show ?thesis
    using t [where fanouts = "[2, 2, 2, 2]"] t [where fanouts = "[2]"]
      t [where fanouts = "[2, 2]"] t [where fanouts = "[2, 2, 2]"] classifier_4_2_init
    by simp
qed

text \<open>
  C9.  On every constructed model both initialisations raise \<open>AttributeError\<close>, for every
  array: the constructor assigns no attribute \<open>embeddings\<close>, and the classifier it
  assigns, a \<open>LinearDistributed\<close>, has no attribute \<open>weight\<close>.  The attributes are looked
  up before the array is touched.
\<close>

theorem pretrained_initialization_raises_attribute_error:
  assumes "GalaXCBase_init num_labels hidden_dims device_names feature_dim fanouts (graph :: 'g) embed_dim
       dropout num_clf_partitions padding_idx eps sequential vals = Inr m"
  shows "getattr m ''embeddings'' = Inl AttributeError
    \<and> initialize_embeddings m word_embeddings = Inl AttributeError
    \<and> (\<exists>c. getattr m ''classifier'' = Inr (ClassifierV c)
          \<and> getattr (attr_dict (ClassifierV c :: 'g attr)) ''weight'' = Inl AttributeError
          \<and> getattr (attr_dict (ClassifierV c :: 'g attr)) ''bias'' = Inl AttributeError)
    \<and> initialize_classifier m clf_weights = Inl AttributeError"
proof -
  from GalaXCBase_init_Inr [OF assms] obtain f1 f2 f3 c where
    m: "m = constructed_model num_labels hidden_dims device_names feature_dim fanouts graph
          embed_dim dropout num_clf_partitions padding_idx eps f1 f2 f3 c"
    by blast
  have e: "getattr m ''embeddings'' = Inl AttributeError"
    by (simp add: m constructed_model_def getattr_def)
  have c: "getattr m ''classifier'' = Inr (ClassifierV c)"
    by (simp add: m constructed_model_def getattr_def)
  have w: "getattr (attr_dict (ClassifierV c :: 'g attr)) ''weight'' = Inl AttributeError"
    "getattr (attr_dict (ClassifierV c :: 'g attr)) ''bias'' = Inl AttributeError"
    by (simp_all add: LinearDistributed_dict_def getattr_def)
  have ie: "initialize_embeddings m word_embeddings = Inl AttributeError"
    by (simp add: initialize_embeddings_def e)
  have "getattr (LinearDistributed_dict c :: string \<Rightarrow> 'g attr option) ''weight''
      = Inl AttributeError"
    by (simp add: LinearDistributed_dict_def getattr_def)
  then have ic: "initialize_classifier m clf_weights = Inl AttributeError"
    by (simp add: initialize_classifier_def c)
  show ?thesis using e c w ie ic by blast
qed

theorem pretrained_initialization_raises_attribute_error_witness:
  "GalaXCBase_init 4 1 [''cuda:0'', ''cuda:1''] 1 [2, 2, 2] () 1 (1 / 2) 1 0 (\<lambda>_. 0)
     (\<lambda>_ _ _ _. Inr Inr) (\<lambda>_ _ _. 0) = Inr galaxc_example
   \<and> initialize_embeddings galaxc_example (Tensor [2, 1] [1, 2]) = Inl AttributeError
   \<and> initialize_classifier galaxc_example (Tensor [4, 2] [1, 2, 3, 4, 5, 6, 7, 8])
       = Inl AttributeError"
  using pretrained_initialization_raises_attribute_error [OF galaxc_example_init,
      where word_embeddings = "Tensor [2, 1] [1, 2]"
        and clf_weights = "Tensor [4, 2] [1, 2, 3, 4, 5, 6, 7, 8]"]
    galaxc_example_init
  by blast

text \<open>
  C10.  A constructed model has one classifier shard and one range of the partition
  table for each device name.  \<open>num_clf_partitions\<close> is stored and nothing reads it: the
  constructor called with another value builds the same attributes but this one, and
  \<open>encode\<close> and \<open>forward\<close> return the same with another value stored.
\<close>

theorem shards_are_one_per_device_name:
  assumes "GalaXCBase_init num_labels hidden_dims device_names feature_dim fanouts graph embed_dim
       dropout num_clf_partitions padding_idx eps sequential vals = Inr m"
  shows "getattr m ''num_clf_partitions'' = Inr (IntV num_clf_partitions)
    \<and> (\<exists>c. getattr m ''classifier'' = Inr (ClassifierV c)
          \<and> LinearDistributed_init hidden_dims num_labels device_names vals = Inr c
          \<and> ld_num_partitions c = length device_names
          \<and> length (ld_classifiers c) = length device_names
          \<and> length (ld_partition_indices c) = length device_names)
    \<and> GalaXCBase_init num_labels hidden_dims device_names feature_dim fanouts graph embed_dim
         dropout p padding_idx eps sequential vals = Inr (m(''num_clf_partitions'' \<mapsto> IntV p))
    \<and> encode (m(''num_clf_partitions'' \<mapsto> IntV p)) batch = encode m batch
    \<and> GalaXCBase_forward (m(''num_clf_partitions'' \<mapsto> IntV p)) batch
        = GalaXCBase_forward m batch"
proof -
  from GalaXCBase_init_Inr [OF assms] obtain f1 f2 f3 c where
    l: "length fanouts = 3" and d: "device_names \<noteq> []"
    and s1: "sequential dropout embed_dim hidden_dims 1 = Inr f1"
    and s2: "sequential dropout embed_dim hidden_dims 2 = Inr f2"
    and s3: "sequential dropout embed_dim hidden_dims 3 = Inr f3"
    and c: "LinearDistributed_init hidden_dims num_labels device_names vals = Inr c"
    and m: "m = constructed_model num_labels hidden_dims device_names feature_dim fanouts graph
          embed_dim dropout num_clf_partitions padding_idx eps f1 f2 f3 c"
    by blast
  have stored: "getattr m ''num_clf_partitions'' = Inr (IntV num_clf_partitions)"
    by (simp add: m constructed_model_def getattr_def)
  have gc: "getattr m ''classifier'' = Inr (ClassifierV c)"
    by (simp add: m constructed_model_def getattr_def)
  note v = LinearDistributed_init_valid [OF c]
  have np: "ld_num_partitions c = length device_names"
    using c by (rule LinearDistributed_init_num_partitions)
  have other: "GalaXCBase_init num_labels hidden_dims device_names feature_dim fanouts graph
      embed_dim dropout p padding_idx eps sequential vals
      = Inr (m(''num_clf_partitions'' \<mapsto> IntV p))"
    unfolding m constructed_model_num_clf_partitions [symmetric]
    using GalaXCBase_init_three [where sequential = sequential and dropout = dropout
      and embed_dim = embed_dim and hidden_dims = hidden_dims, OF l d s1 s2 s3 c] .
  show ?thesis
    using stored gc c np v(4,5) other encode_ignores_num_clf_partitions
      forward_ignores_num_clf_partitions
    by blast
qed

theorem shards_are_one_per_device_name_witness:
  "GalaXCBase_init 4 1 [''cuda:0'', ''cuda:1''] 1 [2, 2, 2] () 1 (1 / 2) 1 0 (\<lambda>_. 0)
     (\<lambda>_ _ _ _. Inr Inr) (\<lambda>_ _ _. 0) = Inr galaxc_example
   \<and> getattr galaxc_example ''num_clf_partitions'' = Inr (IntV 1)
   \<and> (\<exists>c. getattr galaxc_example ''classifier'' = Inr (ClassifierV c)
          \<and> length (ld_classifiers c) = length [''cuda:0'', ''cuda:1''])
   \<and> GalaXCBase_init 4 1 [''cuda:0'', ''cuda:1''] 1 [2, 2, 2] () 1 (1 / 2) 7 0 (\<lambda>_. 0)
     (\<lambda>_ _ _ _. Inr Inr) (\<lambda>_ _ _. 0) = Inr (galaxc_example(''num_clf_partitions'' \<mapsto> IntV 7))
   \<and> GalaXCBase_forward (galaxc_example(''num_clf_partitions'' \<mapsto> IntV 7))
        \<lparr>encoder = Feats (Tensor [1] [0]), label_ids = None\<rparr>
      = GalaXCBase_forward galaxc_example \<lparr>encoder = Feats (Tensor [1] [0]), label_ids = None\<rparr>"
  using shards_are_one_per_device_name [OF galaxc_example_init, of 7
      "\<lparr>encoder = Feats (Tensor [1] [0]), label_ids = None\<rparr>"] galaxc_example_init
  by blast

end
